(* ===== verification/Evse_Prelude.thy ===== *)
theory Evse_Prelude
  imports Main "HOL-Library.Word" "HOL-Library.State_Monad"
begin

text \<open>
  Shared notions of the development: the state monad of HOL-Library read as
  "a C++ member function that reads and writes the object it runs on", a
  weakest-precondition reading of it, and the facts about machine words that
  several components use.
\<close>

unbundle bit_operations_syntax

section \<open>Names for the fixed-width types of the code\<close>

type_synonym uint8 = "8 word"
type_synonym uint16 = "16 word"
type_synonym uint32 = "32 word"
type_synonym uint64 = "64 word"

named_theorems wp_simps \<open>evaluation rules of the weakest precondition\<close>
named_theorems keeps_intros \<open>frame facts: operations that keep an observation\<close>

section \<open>Statements of the state monad\<close>

text \<open>\<open>if (c) { m }\<close> without an else branch.\<close>

definition if_then :: "bool \<Rightarrow> ('s, unit) state \<Rightarrow> ('s, unit) state" where
  "if_then c m = (if c then m else State_Monad.return ())"

text \<open>Read a component of the state, and update the state in place.\<close>

definition gets :: "('s \<Rightarrow> 'a) \<Rightarrow> ('s, 'a) state" where
  "gets f = State (\<lambda>s. (f s, s))"

definition modify :: "('s \<Rightarrow> 's) \<Rightarrow> ('s, unit) state" where
  "modify f = State (\<lambda>s. ((), f s))"

text \<open>Call a function and ignore what it returns.\<close>

definition ignore :: "('s, 'a) state \<Rightarrow> ('s, unit) state" where
  "ignore m = do { _ \<leftarrow> m; State_Monad.return () }"

text \<open>Sequencing without a case split on the intermediate pair.\<close>

declare run_state_bind [simp del]

lemma run_bind [simp]:
  "run_state (State_Monad.bind m f) s =
     run_state (f (fst (run_state m s))) (snd (run_state m s))"
  by (simp add: run_state_bind split: prod.splits)

lemma run_if_then [simp]:
  "run_state (if_then c m) s = (if c then run_state m s else ((), s))"
  by (simp add: if_then_def)

lemma run_gets [simp]: "run_state (gets f) s = (f s, s)"
  by (simp add: gets_def)

lemma run_modify [simp]: "run_state (modify f) s = ((), f s)"
  by (simp add: modify_def)

lemma run_ignore [simp]: "run_state (ignore m) s = ((), snd (run_state m s))"
  by (simp add: ignore_def split: prod.splits)

lemma run_if [simp]:
  "run_state (if c then m else n) s = (if c then run_state m s else run_state n s)"
  by simp

section \<open>Weakest preconditions\<close>

definition wp :: "('s, 'a) state \<Rightarrow> ('a \<Rightarrow> 's \<Rightarrow> bool) \<Rightarrow> 's \<Rightarrow> bool" where
  "wp m Q s = (case run_state m s of (a, s') \<Rightarrow> Q a s')"

lemma wp_return [wp_simps]: "wp (State_Monad.return a) Q s = Q a s"
  by (simp add: wp_def)

lemma wp_bind [wp_simps]: "wp (State_Monad.bind m f) Q s = wp m (\<lambda>a. wp (f a) Q) s"
  by (simp add: wp_def split: prod.splits)

lemma wp_gets [wp_simps]: "wp (gets f) Q s = Q (f s) s"
  by (simp add: wp_def)

lemma wp_modify [wp_simps]: "wp (modify f) Q s = Q () (f s)"
  by (simp add: wp_def)

lemma wp_if_then [wp_simps]: "wp (if_then c m) Q s = (if c then wp m Q s else Q () s)"
  by (simp add: wp_def)

lemma wp_ignore [wp_simps]: "wp (ignore m) Q s = wp m (\<lambda>_. Q ()) s"
  by (simp add: wp_def split: prod.splits)

lemma wp_if [wp_simps]: "wp (if c then m else n) Q s = (if c then wp m Q s else wp n Q s)"
  by simp

lemma wp_case_prod [wp_simps]:
  "wp (case x of (a, b) \<Rightarrow> f a b) Q s = (case x of (a, b) \<Rightarrow> wp (f a b) Q s)"
  by (simp split: prod.splits)

lemma wp_iff_run: "wp m Q s \<longleftrightarrow> Q (fst (run_state m s)) (snd (run_state m s))"
  by (simp add: wp_def split: prod.splits)

lemma wp_mono: "wp m Q s \<Longrightarrow> (\<And>a s'. Q a s' \<Longrightarrow> R a s') \<Longrightarrow> wp m R s"
  by (simp add: wp_iff_run)

lemma wp_conjI: "wp m Q s \<Longrightarrow> wp m R s \<Longrightarrow> wp m (\<lambda>a s'. Q a s' \<and> R a s') s"
  by (simp add: wp_iff_run)

section \<open>Frame facts\<close>

text \<open>\<open>keeps obs m\<close>: the operation leaves the observation as it was.\<close>

definition keeps :: "('s \<Rightarrow> 'b) \<Rightarrow> ('s, 'a) state \<Rightarrow> bool" where
  "keeps obs m \<longleftrightarrow> (\<forall>s. obs (snd (run_state m s)) = obs s)"

lemma keepsI: "(\<And>s. obs (snd (run_state m s)) = obs s) \<Longrightarrow> keeps obs m"
  by (simp add: keeps_def)

lemma keepsD: "keeps obs m \<Longrightarrow> obs (snd (run_state m s)) = obs s"
  by (simp add: keeps_def)

lemma keeps_return [keeps_intros]: "keeps obs (State_Monad.return a)"
  by (simp add: keeps_def)

lemma keeps_gets [keeps_intros]: "keeps obs (gets f)"
  by (simp add: keeps_def)

lemma keeps_modify: "(\<And>s. obs (f s) = obs s) \<Longrightarrow> keeps obs (modify f)"
  by (simp add: keeps_def)

lemma keeps_bind [keeps_intros]:
  "keeps obs m \<Longrightarrow> (\<And>a. keeps obs (f a)) \<Longrightarrow> keeps obs (State_Monad.bind m f)"
  by (simp add: keeps_def)

lemma keeps_if_then [keeps_intros]: "keeps obs m \<Longrightarrow> keeps obs (if_then c m)"
  by (simp add: keeps_def)

lemma keeps_if [keeps_intros]: "keeps obs m \<Longrightarrow> keeps obs n \<Longrightarrow> keeps obs (if c then m else n)"
  by simp

lemma keeps_ignore [keeps_intros]: "keeps obs m \<Longrightarrow> keeps obs (ignore m)"
  by (simp add: keeps_def)

lemma wp_keeps: "keeps obs m \<Longrightarrow> wp m (\<lambda>_ s'. obs s' = obs s) s"
  by (simp add: keeps_def wp_iff_run)

section \<open>Machine words\<close>

text \<open>
  Elapsed time on a free-running unsigned counter: subtraction modulo the word
  size gives the true distance as long as that distance fits the word.
\<close>

lemma unat_sub_of_advance:
  fixes t0 :: "'a::len word"
  assumes "d < 2 ^ LENGTH('a)"
  shows "unat (t0 + word_of_nat d - t0) = d"
  using assms by (simp add: unat_of_nat take_bit_nat_eq_self)

lemma unat_less_exp: "unat (x :: 'a::len word) < 2 ^ LENGTH('a)"
  by (rule unsigned_less)

lemma unat_ucast_wider:
  fixes x :: "'a::len word"
  assumes "LENGTH('a) \<le> LENGTH('b::len)"
  shows "unat (ucast x :: 'b word) = unat x"
proof -
  have "unat x < 2 ^ LENGTH('b)"
    using unat_less_exp [of x] power_increasing [OF assms, of "2::nat"] by linarith
  then show ?thesis
    by (simp add: unsigned_ucast_eq take_bit_nat_eq_self)
qed

lemma unat_ucast_simps [simp]:
  "unat (ucast (x :: uint8) :: uint16) = unat x"
  "unat (ucast (x :: uint8) :: uint32) = unat x"
  "unat (ucast (x :: uint8) :: uint64) = unat x"
  "unat (ucast (y :: uint16) :: uint32) = unat y"
  "unat (ucast (y :: uint16) :: uint64) = unat y"
  "unat (ucast (z :: uint32) :: uint64) = unat z"
  by (simp_all add: unat_ucast_wider)

lemma unat_uint16_less [simp]: "unat (x :: uint16) < 65536"
  using unat_less_exp [of x] by simp

lemma unat_uint8_less [simp]: "unat (x :: uint8) < 256"
  using unat_less_exp [of x] by simp

lemma unat_uint32_less [simp]: "unat (x :: uint32) < 4294967296"
  using unat_less_exp [of x] by simp

section \<open>Bit operations read as arithmetic\<close>

lemma nat_or_push_bit:
  fixes x y :: nat
  assumes "x < 2 ^ k"
  shows "x OR push_bit k y = x + push_bit k y"
proof (rule disjunctive_add_eq_or [symmetric], rule bit_eqI)
  fix n
  have "\<not> bit x n" if "k \<le> n"
  proof -
    have "x < 2 ^ n"
      using assms power_increasing [OF that, of "2 :: nat"] by linarith
    then show ?thesis by (simp add: bit_iff_odd)
  qed
  then show "bit (x AND push_bit k y) n = bit (0 :: nat) n"
    by (auto simp: bit_simps)
qed

lemma and_low_mask:
  "(w :: 'a::len word) AND 0x7F = take_bit 7 w"
  "(w :: 'a::len word) AND 0x07 = take_bit 3 w"
  "(w :: 'a::len word) AND 0x0F = take_bit 4 w"
  "(w :: 'a::len word) AND 0x3F = take_bit 6 w"
  "(w :: 'a::len word) AND 0xFF = take_bit 8 w"
  "(w :: 'a::len word) AND 0xFFF = take_bit 12 w"
  "(w :: 'a::len word) AND 0xFFFF = take_bit 16 w"
  by (simp_all add: take_bit_eq_mask mask_eq_exp_minus_1)

lemma unat_take_bit: "unat (take_bit n (w :: 'a::len word)) = unat w mod 2 ^ n"
  by (subst unsigned_take_bit_eq) (rule take_bit_eq_mod)

lemma unat_drop_bit: "unat (drop_bit n (w :: 'a::len word)) = unat w div 2 ^ n"
  by (subst unat_drop_bit_eq) (rule drop_bit_eq_div)

lemma unat_push_bit:
  assumes "unat (w :: 'a::len word) * 2 ^ n < 2 ^ LENGTH('a)"
  shows "unat (push_bit n w) = unat w * 2 ^ n"
  using assms
  by (subst unsigned_push_bit_eq) (simp only: push_bit_eq_mult take_bit_nat_eq_self)

end
