(* ===== verification/Ieee_Float.thy ===== *)
theory Ieee_Float
  imports Evse_Prelude
begin

text \<open>
  The C++ types \<open>float\<close> and \<open>double\<close> as the targets implement them: IEEE-754
  binary32 and binary64, round to nearest, ties to even. A \<open>float\<close> object is its
  32-bit pattern; an operation decodes its operands to a sign, an integer
  significand and a binary exponent, computes the exact result and rounds once.
  Everything computes on integers, so concrete values evaluate by \<open>simp\<close> or
  \<open>code_simp\<close>.
\<close>

type_synonym float32 = "32 word"
type_synonym float64 = "64 word"

text \<open>\<open>FFin s m e\<close> is the number \<open>(if s then -m else m) * 2^e\<close> with \<open>0 \<le> m\<close>.\<close>

datatype fval = FNaN | FInf bool | FFin bool int int

section \<open>Bit patterns\<close>

definition f32_decode :: "float32 \<Rightarrow> fval" where
  "f32_decode w =
     (let s = bit w 31; ex = uint (drop_bit 23 w AND 0xFF); fr = uint (w AND 0x7FFFFF)
      in if ex = 255 then (if fr = 0 then FInf s else FNaN)
         else if ex = 0 then FFin s fr (- 149)
         else FFin s (fr + 0x800000) (ex - 150))"

definition f64_decode :: "float64 \<Rightarrow> fval" where
  "f64_decode w =
     (let s = bit w 63; ex = uint (drop_bit 52 w AND 0x7FF); fr = uint (w AND 0xFFFFFFFFFFFFF)
      in if ex = 2047 then (if fr = 0 then FInf s else FNaN)
         else if ex = 0 then FFin s fr (- 1074)
         else FFin s (fr + 0x10000000000000) (ex - 1075))"

text \<open>
  The pattern of a value that is representable in binary32 (as \<open>f32_round\<close>
  returns it): the significand is below \<open>2^24\<close> and either normalised or at the
  least exponent. The NaN the operations return is the quiet NaN.
\<close>

definition f32_encode :: "fval \<Rightarrow> float32" where
  "f32_encode v =
     (case v of
        FNaN \<Rightarrow> 0x7FC00000
      | FInf s \<Rightarrow> (if s then 0xFF800000 else 0x7F800000)
      | FFin s m e \<Rightarrow>
          (if s then 0x80000000 else 0) OR
          (if m < 0x800000 then word_of_int m
           else push_bit 23 (word_of_int (e + 150)) OR word_of_int (m - 0x800000)))"

section \<open>Rounding to nearest, ties to even\<close>

function bitlen :: "int \<Rightarrow> int" where
  "bitlen n = (if n \<le> 0 then 0 else 1 + bitlen (n div 2))"
  by pat_completeness auto
termination
  by (relation "measure nat") auto

declare bitlen.simps [simp del]

text \<open>The integer nearest to \<open>n / d\<close> for \<open>0 \<le> n\<close>, \<open>0 < d\<close>.\<close>

definition rne_div :: "int \<Rightarrow> int \<Rightarrow> int" where
  "rne_div n d =
     (let q = n div d; r = n mod d
      in if d < 2 * r \<or> (d = 2 * r \<and> odd q) then q + 1 else q)"

text \<open>
  \<open>round_ratio p emin emax s n d e\<close> rounds the number \<open>(n / d) * 2^e\<close> of sign
  \<open>s\<close> to \<open>p\<close> significant bits with least exponent \<open>emin\<close>; a result that needs an
  exponent above \<open>emax\<close> overflows to infinity.
\<close>

definition round_ratio :: "int \<Rightarrow> int \<Rightarrow> int \<Rightarrow> bool \<Rightarrow> int \<Rightarrow> int \<Rightarrow> int \<Rightarrow> fval" where
  "round_ratio p emin emax s n d e =
     (if n = 0 then FFin s 0 emin
      else
        let k = bitlen n - bitlen d;
            below = (if 0 \<le> k then n < d * 2 ^ nat k else n * 2 ^ nat (- k) < d);
            t = (if below then k - 1 else k);
            x = max (t + e - (p - 1)) emin;
            q = (if x \<le> e then rne_div (n * 2 ^ nat (e - x)) d
                 else rne_div n (d * 2 ^ nat (x - e)));
            (q', x') = (if q = 2 ^ nat p then (2 ^ nat (p - 1), x + 1) else (q, x))
        in if emax < x' then FInf s else FFin s q' x')"

definition f32_round_ratio :: "bool \<Rightarrow> int \<Rightarrow> int \<Rightarrow> int \<Rightarrow> fval" where
  "f32_round_ratio = round_ratio 24 (- 149) 104"

definition f64_round_ratio :: "bool \<Rightarrow> int \<Rightarrow> int \<Rightarrow> int \<Rightarrow> fval" where
  "f64_round_ratio = round_ratio 53 (- 1074) 971"

text \<open>Rounding an exact value to one of the two formats.\<close>

definition f32_round :: "fval \<Rightarrow> fval" where
  "f32_round v = (case v of FFin s m e \<Rightarrow> f32_round_ratio s m 1 e | _ \<Rightarrow> v)"

definition f64_round :: "fval \<Rightarrow> fval" where
  "f64_round v = (case v of FFin s m e \<Rightarrow> f64_round_ratio s m 1 e | _ \<Rightarrow> v)"

section \<open>Exact operations\<close>

definition signed_mant :: "bool \<Rightarrow> int \<Rightarrow> int" where
  "signed_mant s m = (if s then - m else m)"

definition fval_add :: "fval \<Rightarrow> fval \<Rightarrow> fval" where
  "fval_add a b =
     (case (a, b) of
        (FNaN, _) \<Rightarrow> FNaN
      | (_, FNaN) \<Rightarrow> FNaN
      | (FInf s, FInf t) \<Rightarrow> (if s = t then FInf s else FNaN)
      | (FInf s, FFin _ _ _) \<Rightarrow> FInf s
      | (FFin _ _ _, FInf t) \<Rightarrow> FInf t
      | (FFin s m e, FFin t n f) \<Rightarrow>
          (let g = min e f;
               r = signed_mant s m * 2 ^ nat (e - g) + signed_mant t n * 2 ^ nat (f - g)
           in FFin (if r = 0 then s \<and> t else r < 0) \<bar>r\<bar> g))"

definition fval_neg :: "fval \<Rightarrow> fval" where
  "fval_neg a = (case a of FNaN \<Rightarrow> FNaN | FInf s \<Rightarrow> FInf (\<not> s) | FFin s m e \<Rightarrow> FFin (\<not> s) m e)"

definition fval_mult :: "fval \<Rightarrow> fval \<Rightarrow> fval" where
  "fval_mult a b =
     (case (a, b) of
        (FNaN, _) \<Rightarrow> FNaN
      | (_, FNaN) \<Rightarrow> FNaN
      | (FInf s, FInf t) \<Rightarrow> FInf (s \<noteq> t)
      | (FInf s, FFin t n f) \<Rightarrow> (if n = 0 then FNaN else FInf (s \<noteq> t))
      | (FFin s m e, FInf t) \<Rightarrow> (if m = 0 then FNaN else FInf (s \<noteq> t))
      | (FFin s m e, FFin t n f) \<Rightarrow> FFin (s \<noteq> t) (m * n) (e + f))"

text \<open>A quotient is rounded at once, since it need not be a binary fraction.\<close>

definition fval_div :: "(bool \<Rightarrow> int \<Rightarrow> int \<Rightarrow> int \<Rightarrow> fval) \<Rightarrow> fval \<Rightarrow> fval \<Rightarrow> fval" where
  "fval_div rnd a b =
     (case (a, b) of
        (FNaN, _) \<Rightarrow> FNaN
      | (_, FNaN) \<Rightarrow> FNaN
      | (FInf s, FInf t) \<Rightarrow> FNaN
      | (FInf s, FFin t n f) \<Rightarrow> FInf (s \<noteq> t)
      | (FFin s m e, FInf t) \<Rightarrow> FFin (s \<noteq> t) 0 0
      | (FFin s m e, FFin t n f) \<Rightarrow>
          (if n = 0 then (if m = 0 then FNaN else FInf (s \<noteq> t))
           else rnd (s \<noteq> t) m n (e - f)))"

text \<open>Ordering: false whenever an operand is NaN; the two zeros are equal.\<close>

definition fval_less :: "fval \<Rightarrow> fval \<Rightarrow> bool" where
  "fval_less a b =
     (case (a, b) of
        (FNaN, _) \<Rightarrow> False
      | (_, FNaN) \<Rightarrow> False
      | (FInf s, FInf t) \<Rightarrow> s \<and> \<not> t
      | (FInf s, FFin _ _ _) \<Rightarrow> s
      | (FFin _ _ _, FInf t) \<Rightarrow> \<not> t
      | (FFin s m e, FFin t n f) \<Rightarrow>
          (let g = min e f
           in signed_mant s m * 2 ^ nat (e - g) < signed_mant t n * 2 ^ nat (f - g)))"

section \<open>The operations of the code on \<open>float\<close>\<close>

definition f32_add :: "float32 \<Rightarrow> float32 \<Rightarrow> float32" where
  "f32_add a b = f32_encode (f32_round (fval_add (f32_decode a) (f32_decode b)))"

definition f32_sub :: "float32 \<Rightarrow> float32 \<Rightarrow> float32" where
  "f32_sub a b = f32_encode (f32_round (fval_add (f32_decode a) (fval_neg (f32_decode b))))"

definition f32_mult :: "float32 \<Rightarrow> float32 \<Rightarrow> float32" where
  "f32_mult a b = f32_encode (f32_round (fval_mult (f32_decode a) (f32_decode b)))"

definition f32_div :: "float32 \<Rightarrow> float32 \<Rightarrow> float32" where
  "f32_div a b = f32_encode (fval_div f32_round_ratio (f32_decode a) (f32_decode b))"

definition f32_less :: "float32 \<Rightarrow> float32 \<Rightarrow> bool" where
  "f32_less a b = fval_less (f32_decode a) (f32_decode b)"

text \<open>Conversions: \<open>int\<close> to \<open>float\<close>, and \<open>double\<close> to \<open>float\<close>.\<close>

definition f32_of_int :: "int \<Rightarrow> float32" where
  "f32_of_int i = f32_encode (f32_round (FFin (i < 0) \<bar>i\<bar> 0))"

definition f64_of_int :: "int \<Rightarrow> fval" where
  "f64_of_int i = f64_round (FFin (i < 0) \<bar>i\<bar> 0)"

definition f32_of_f64 :: "float64 \<Rightarrow> float32" where
  "f32_of_f64 w = f32_encode (f32_round (f64_decode w))"

text \<open>A decimal literal \<open>n / d\<close> of type \<open>double\<close>, and its value narrowed to \<open>float\<close>.\<close>

definition f64_lit :: "int \<Rightarrow> int \<Rightarrow> fval" where
  "f64_lit n d = f64_round_ratio (n < 0) \<bar>n\<bar> d 0"

definition f32_of_fval :: "fval \<Rightarrow> float32" where
  "f32_of_fval v = f32_encode (f32_round v)"

text \<open>
  Conversion of a \<open>float\<close> to \<open>uint32_t\<close> truncates. It is undefined behaviour when
  the truncated value does not fit; then it is \<open>None\<close> here.
\<close>

definition fval_trunc :: "fval \<Rightarrow> int option" where
  "fval_trunc v =
     (case v of
        FFin s m e \<Rightarrow>
          Some (signed_mant s (if 0 \<le> e then m * 2 ^ nat e else m div 2 ^ nat (- e)))
      | _ \<Rightarrow> None)"

definition f32_to_uint32 :: "float32 \<Rightarrow> uint32 option" where
  "f32_to_uint32 x =
     (case fval_trunc (f32_decode x) of
        None \<Rightarrow> None
      | Some i \<Rightarrow> if 0 \<le> i \<and> i < 2 ^ 32 then Some (word_of_int i) else None)"

end
