(* ===== verification/Hal.thy ===== *)
theory Hal
  imports Ieee_Float
begin

text \<open>
  The hardware abstraction of \<open>firmware/lib/iec61851_hal.hpp\<close> and the events of
  \<open>iec61851_fsm.hpp\<close>. A pure virtual interface is a record of operations over a
  world \<open>'w\<close> (everything outside the state machine: driver objects, peripherals,
  the message link); a virtual call is a computation in the state monad over
  \<open>'w\<close>, so an implementation may change the world in any way it likes.
\<close>

section \<open>Events and control pilot states\<close>

datatype event =
    CarPluggedIn | CarRequestedPower | PowerOn | PowerOff | CarRequestedStopPower
  | CarUnplugged | Error_E | Error_DF | Error_Relais | Error_RCD
  | Error_VentilationNotAvailable | Error_OverCurrent | EF_To_BCD | BCD_To_EF
  | PermanentFault | EvseReplugStarted | EvseReplugFinished

datatype cp_state = CP_Disabled | CP_A | CP_B | CP_C | CP_D | CP_E | CP_F | CP_DF

section \<open>The interfaces\<close>

text \<open>\<open>struct CPSignal\<close>: the two voltages mean something only when it is valid.\<close>

record cp_signal =
  cp_valid :: bool
  cp_high :: float32
  cp_low :: float32

text \<open>\<open>struct HAL\<close>: the five interfaces behind one record, one field per method.\<close>

record 'w hal =
  rcd_enable :: "('w, unit) state"
  rcd_disable :: "('w, unit) state"
  rcd_got_fired :: "('w, bool) state"
  rcd_reset :: "('w, unit) state"
  lock_lock :: "('w, unit) state"
  lock_unlock :: "('w, unit) state"
  lock_is_locked :: "('w, bool) state"
  ps_on :: "bool \<Rightarrow> ('w, bool) state"
  ps_off :: "('w, bool) state"
  ps_is_on :: "('w, bool) state"
  ps_reset_emergency_switch :: "('w, bool) state"
  cp_set_pwm :: "float32 \<Rightarrow> ('w, unit) state"
  cp_get_cp_signal :: "('w, cp_signal) state"
  cp_enable :: "('w, unit) state"
  cp_disable :: "('w, unit) state"
  clk_ticks_per_ms :: uint32
  clk_get_current_ticks :: "('w, uint32) state"

text \<open>What the state machine is constructed with: the HAL and the event callback.\<close>

record 'w fsm_env = "'w hal" +
  push_event :: "event \<Rightarrow> ('w, unit) state"

section \<open>The contract the state machine relies on\<close>

text \<open>
  \<open>relay\<close> observes whether the power path is closed. The contract: \<open>is_on\<close> reports
  it, \<open>on\<close> and \<open>off\<close> report whether they reached the requested position, \<open>off\<close>
  always reaches it, and no other interface switches the relay.
\<close>

locale relay_contract =
  fixes env :: "'w fsm_env" and relay :: "'w \<Rightarrow> bool"
  assumes is_on_reports: "fst (run_state (ps_is_on env) w) = relay w"
    and is_on_keeps: "keeps relay (ps_is_on env)"
    and on_reports: "fst (run_state (ps_on env b) w) = relay (snd (run_state (ps_on env b) w))"
    and off_reports: "fst (run_state (ps_off env) w) = (\<not> relay (snd (run_state (ps_off env) w)))"
    and off_opens: "\<not> relay (snd (run_state (ps_off env) w))"
    and reset_keeps: "keeps relay (ps_reset_emergency_switch env)"
    and rcd_enable_keeps: "keeps relay (rcd_enable env)"
    and rcd_disable_keeps: "keeps relay (rcd_disable env)"
    and rcd_got_fired_keeps: "keeps relay (rcd_got_fired env)"
    and rcd_reset_keeps: "keeps relay (rcd_reset env)"
    and lock_keeps: "keeps relay (lock_lock env)"
    and unlock_keeps: "keeps relay (lock_unlock env)"
    and set_pwm_keeps: "keeps relay (cp_set_pwm env dc)"
    and get_cp_signal_keeps: "keeps relay (cp_get_cp_signal env)"
    and cp_enable_keeps: "keeps relay (cp_enable env)"
    and cp_disable_keeps: "keeps relay (cp_disable env)"
    and ticks_keeps: "keeps relay (clk_get_current_ticks env)"
    and push_event_keeps: "keeps relay (push_event env e)"
begin

lemmas relay_keeps =
  is_on_keeps reset_keeps rcd_enable_keeps rcd_disable_keeps rcd_got_fired_keeps
  rcd_reset_keeps lock_keeps unlock_keeps set_pwm_keeps get_cp_signal_keeps
  cp_enable_keeps cp_disable_keeps ticks_keeps push_event_keeps

lemmas relay_unchanged [simp] = relay_keeps [THEN keepsD]

lemmas relay_switch [simp] = is_on_reports on_reports off_reports off_opens

end

section \<open>A recording environment\<close>

text \<open>
  \<open>traced env\<close> behaves as \<open>env\<close> and records, beside the world, every call that acts
  on it or reads the clock, with its argument or result, in call order. Statements
  about what the state machine does to its interfaces, and in which order, are
  statements about this record.
\<close>

datatype hal_call =
    RcdEnable | RcdDisable | RcdReset | Lock | Unlock
  | SwitchOn bool bool | SwitchOff bool | ResetEmergency
  | SetPwm float32 | CpEnable | CpDisable | GetTicks uint32 | Event event

definition untraced :: "('w, 'a) state \<Rightarrow> ('w \<times> hal_call list, 'a) state" where
  "untraced m = State (\<lambda>(w, tr). case run_state m w of (a, w') \<Rightarrow> (a, (w', tr)))"

definition record_call ::
  "('a \<Rightarrow> hal_call) \<Rightarrow> ('w, 'a) state \<Rightarrow> ('w \<times> hal_call list, 'a) state" where
  "record_call c m = State (\<lambda>(w, tr). case run_state m w of (a, w') \<Rightarrow> (a, (w', tr @ [c a])))"

definition traced :: "'w fsm_env \<Rightarrow> ('w \<times> hal_call list) fsm_env" where
  "traced env =
     \<lparr> rcd_enable = record_call (\<lambda>_. RcdEnable) (rcd_enable env),
       rcd_disable = record_call (\<lambda>_. RcdDisable) (rcd_disable env),
       rcd_got_fired = untraced (rcd_got_fired env),
       rcd_reset = record_call (\<lambda>_. RcdReset) (rcd_reset env),
       lock_lock = record_call (\<lambda>_. Lock) (lock_lock env),
       lock_unlock = record_call (\<lambda>_. Unlock) (lock_unlock env),
       lock_is_locked = untraced (lock_is_locked env),
       ps_on = (\<lambda>three. record_call (SwitchOn three) (ps_on env three)),
       ps_off = record_call SwitchOff (ps_off env),
       ps_is_on = untraced (ps_is_on env),
       ps_reset_emergency_switch = record_call (\<lambda>_. ResetEmergency) (ps_reset_emergency_switch env),
       cp_set_pwm = (\<lambda>dc. record_call (\<lambda>_. SetPwm dc) (cp_set_pwm env dc)),
       cp_get_cp_signal = untraced (cp_get_cp_signal env),
       cp_enable = record_call (\<lambda>_. CpEnable) (cp_enable env),
       cp_disable = record_call (\<lambda>_. CpDisable) (cp_disable env),
       clk_ticks_per_ms = clk_ticks_per_ms env,
       clk_get_current_ticks = record_call GetTicks (clk_get_current_ticks env),
       push_event = (\<lambda>e. record_call (\<lambda>_. Event e) (push_event env e)) \<rparr>"

lemma run_untraced [simp]:
  "run_state (untraced m) wt =
     (fst (run_state m (fst wt)), (snd (run_state m (fst wt)), snd wt))"
  by (cases wt) (simp add: untraced_def split: prod.splits)

lemma run_record_call [simp]:
  "run_state (record_call c m) wt =
     (fst (run_state m (fst wt)),
      (snd (run_state m (fst wt)), snd wt @ [c (fst (run_state m (fst wt)))]))"
  by (cases wt) (simp add: record_call_def split: prod.splits)

lemma keeps_untraced: "keeps obs m \<Longrightarrow> keeps (\<lambda>wt. obs (fst wt)) (untraced m)"
  by (simp add: keeps_def)

lemma keeps_record_call: "keeps obs m \<Longrightarrow> keeps (\<lambda>wt. obs (fst wt)) (record_call c m)"
  by (simp add: keeps_def)

text \<open>Recording does not disturb the contract.\<close>

lemma relay_contract_traced:
  assumes "relay_contract env relay"
  shows "relay_contract (traced env) (\<lambda>wt. relay (fst wt))"
  using assms
  by (simp add: relay_contract_def traced_def keeps_untraced keeps_record_call)

end
