(* ===== verification/Countdown.thy ===== *)
theory Countdown
  imports Hal
begin

text \<open>
  \<open>class Countdown\<close> of \<open>firmware/lib/iec61851_fsm.cpp\<close>: a one-shot timer over the
  free-running 32-bit tick counter. Time is compared by unsigned subtraction, so the
  counter may wrap while the countdown runs.
\<close>

record countdown =
  period_in_ticks :: uint32
  ticks_at_start :: uint32
  running :: bool

definition countdown_new :: "uint32 \<Rightarrow> uint32 \<Rightarrow> countdown" where
  "countdown_new ticks_per_ms period_in_ms =
     \<lparr> period_in_ticks = period_in_ms * ticks_per_ms, ticks_at_start = 0, running = False \<rparr>"

text \<open>\<open>start\<close> and \<open>elapsed\<close>, given what the clock returned.\<close>

definition countdown_start :: "uint32 \<Rightarrow> countdown \<Rightarrow> countdown" where
  "countdown_start ticks c = c\<lparr>running := True, ticks_at_start := ticks\<rparr>"

definition countdown_stop :: "countdown \<Rightarrow> countdown" where
  "countdown_stop c = c\<lparr>running := False\<rparr>"

definition countdown_elapsed_at :: "uint32 \<Rightarrow> countdown \<Rightarrow> bool" where
  "countdown_elapsed_at ticks_now c =
     (running c \<and> period_in_ticks c \<le> ticks_now - ticks_at_start c)"

text \<open>\<open>elapsed\<close> asks the clock only when the countdown is running.\<close>

definition countdown_elapsed :: "'w fsm_env \<Rightarrow> countdown \<Rightarrow> ('w, bool) state" where
  "countdown_elapsed env c =
     (if \<not> running c then State_Monad.return False
      else do {
        ticks_now \<leftarrow> clk_get_current_ticks env;
        State_Monad.return (period_in_ticks c \<le> ticks_now - ticks_at_start c)
      })"

lemma countdown_fields [simp]:
  "running (countdown_start t c)"
  "ticks_at_start (countdown_start t c) = t"
  "period_in_ticks (countdown_start t c) = period_in_ticks c"
  "\<not> running (countdown_stop c)"
  "ticks_at_start (countdown_stop c) = ticks_at_start c"
  "period_in_ticks (countdown_stop c) = period_in_ticks c"
  by (simp_all add: countdown_start_def countdown_stop_def)

lemma run_countdown_elapsed:
  "run_state (countdown_elapsed env c) w =
     (if running c
      then (let r = run_state (clk_get_current_ticks env) w in (countdown_elapsed_at (fst r) c, snd r))
      else (False, w))"
  by (simp add: countdown_elapsed_def countdown_elapsed_at_def Let_def split: prod.splits)

lemma keeps_countdown_elapsed [keeps_intros]:
  "keeps obs (clk_get_current_ticks env) \<Longrightarrow> keeps obs (countdown_elapsed env c)"
  by (auto simp: countdown_elapsed_def intro!: keeps_intros)



end
