(* ===== verification/Fsm.thy ===== *)
theory Fsm
  imports Countdown
begin

text \<open>
  \<open>class FSM\<close> of \<open>firmware/lib/iec61851_fsm.cpp\<close>: the IEC 61851 charging state
  machine. A member function is a computation over \<open>fsm_sys\<close>: the object's members
  and the world behind the HAL references. Members are named as in the header.
\<close>

section \<open>The object\<close>

record fsm =
  pwm_stop_countdown :: countdown
  lock_check_countdown :: countdown
  overcurrent_countdown :: countdown
  cur_state :: cp_state
  prev_state :: cp_state
  power_on_allowed :: bool
  rcd_reclosing_allowed :: bool
  use_three_phases :: bool
  use_three_phases_latch :: bool
  has_ventilation :: bool
  ventilated_charging_active :: bool
  simplified_mode :: bool
  pwm_duty_cycle :: float32
  cur_pwm_running :: bool
  prev_pwm_running :: bool

record 'w fsm_sys =
  obj :: fsm
  wld :: 'w

text \<open>A call through a HAL reference, and an assignment to members of the object.\<close>

definition on_hal :: "('w, 'a) state \<Rightarrow> ('w fsm_sys, 'a) state" where
  "on_hal m = State (\<lambda>s. case run_state m (wld s) of (a, w) \<Rightarrow> (a, s\<lparr>wld := w\<rparr>))"

definition on_obj :: "(fsm \<Rightarrow> fsm) \<Rightarrow> ('w fsm_sys, unit) state" where
  "on_obj f = modify (\<lambda>s. s\<lparr>obj := f (obj s)\<rparr>)"

definition member :: "(fsm \<Rightarrow> 'a) \<Rightarrow> ('w fsm_sys, 'a) state" where
  "member f = gets (\<lambda>s. f (obj s))"

abbreviation raise_event :: "'w fsm_env \<Rightarrow> event \<Rightarrow> ('w fsm_sys, unit) state" where
  "raise_event env e \<equiv> on_hal (push_event env e)"

section \<open>Reading the control pilot\<close>

text \<open>\<open>static bool is_voltage_in_range\<close>; the interval is the \<open>float\<close> nearest to 1.1.\<close>

definition range_interval :: float32 where
  "range_interval = f32_of_fval (f64_lit 11 10)"

definition is_voltage_in_range :: "float32 \<Rightarrow> float32 \<Rightarrow> bool" where
  "is_voltage_in_range voltage center =
     (f32_less (f32_sub center range_interval) voltage \<and>
      f32_less voltage (f32_add center range_interval))"

text \<open>
  \<open>bool FSM::read_cp_state(CPState& state)\<close>, as the value it returns and the new
  value of the referenced state.
\<close>

definition classify_cp :: "bool \<Rightarrow> cp_signal \<Rightarrow> cp_state \<Rightarrow> bool \<times> cp_state" where
  "classify_cp pwm_running cp state =
     (if \<not> cp_valid cp then (False, state)
      else if state = CP_Disabled then (True, state)
      else if pwm_running \<and> \<not> is_voltage_in_range (cp_low cp) (f32_of_int (- 12)) then
        (if is_voltage_in_range (cp_low cp) (f32_of_int 0)
              \<and> is_voltage_in_range (cp_high cp) (f32_of_int 0) then (True, CP_E)
         else if is_voltage_in_range (f32_add (cp_high cp) (cp_low cp)) (f32_of_int 0)
              then (True, CP_DF)
         else (False, state))
      else if is_voltage_in_range (cp_high cp) (f32_of_int 12) then (True, CP_A)
      else if is_voltage_in_range (cp_high cp) (f32_of_int 9) then (True, CP_B)
      else if is_voltage_in_range (cp_high cp) (f32_of_int 6) then (True, CP_C)
      else if is_voltage_in_range (cp_high cp) (f32_of_int 3) then (True, CP_D)
      else if is_voltage_in_range (cp_high cp) (f32_of_int (- 12)) then (True, CP_F)
      else (False, state))"

definition read_cp_state :: "'w fsm_env \<Rightarrow> cp_state \<Rightarrow> ('w fsm_sys, bool \<times> cp_state) state" where
  "read_cp_state env state = do {
     cp \<leftarrow> on_hal (cp_get_cp_signal env);
     pwm_running \<leftarrow> member cur_pwm_running;
     State_Monad.return (classify_cp pwm_running cp state)
   }"

section \<open>PWM and enabling\<close>

definition fsm_set_pwm_off :: "'w fsm_env \<Rightarrow> ('w fsm_sys, unit) state" where
  "fsm_set_pwm_off env = do {
     on_hal (cp_set_pwm env (f32_of_int 1));
     on_obj (\<lambda>f. f\<lparr>pwm_duty_cycle := f32_of_int 1, cur_pwm_running := False,
                   power_on_allowed := False\<rparr>)
   }"

definition fsm_set_pwm_on :: "'w fsm_env \<Rightarrow> float32 \<Rightarrow> ('w fsm_sys, unit) state" where
  "fsm_set_pwm_on env duty_cycle = do {
     on_hal (cp_set_pwm env duty_cycle);
     on_obj (\<lambda>f. f\<lparr>pwm_duty_cycle := duty_cycle, cur_pwm_running := True\<rparr>)
   }"

definition fsm_set_pwm_f :: "'w fsm_env \<Rightarrow> ('w fsm_sys, unit) state" where
  "fsm_set_pwm_f env = do {
     on_hal (cp_set_pwm env (f32_of_int 0));
     on_obj (\<lambda>f. f\<lparr>pwm_duty_cycle := f32_of_int 0, cur_state := CP_F,
                   cur_pwm_running := False, power_on_allowed := False\<rparr>)
   }"

definition fsm_enable :: "'w fsm_env \<Rightarrow> ('w fsm_sys, unit) state" where
  "fsm_enable env = do {
     on_obj (cur_state_update (\<lambda>_. CP_A));
     fsm_set_pwm_off env;
     on_hal (cp_enable env)
   }"

definition fsm_disable :: "'w fsm_env \<Rightarrow> ('w fsm_sys, unit) state" where
  "fsm_disable env = do {
     on_obj (cur_state_update (\<lambda>_. CP_Disabled));
     fsm_set_pwm_off env;
     on_hal (cp_disable env)
   }"

definition fsm_allow_power_on :: "bool \<Rightarrow> ('w fsm_sys, unit) state" where
  "fsm_allow_power_on enable = on_obj (power_on_allowed_update (\<lambda>_. enable))"

definition fsm_set_three_phases :: "bool \<Rightarrow> ('w fsm_sys, unit) state" where
  "fsm_set_three_phases enable = on_obj (use_three_phases_update (\<lambda>_. enable))"

definition fsm_set_ventilation :: "bool \<Rightarrow> ('w fsm_sys, unit) state" where
  "fsm_set_ventilation enable = on_obj (has_ventilation_update (\<lambda>_. enable))"

definition fsm_set_phase_switch_while_charging :: "bool \<Rightarrow> ('w fsm_sys, bool) state" where
  "fsm_set_phase_switch_while_charging enable = State_Monad.return True"

definition fsm_set_country_code :: "string \<Rightarrow> ('w fsm_sys, unit) state" where
  "fsm_set_country_code iso3166_alpha2_code =
     (if iso3166_alpha2_code = ''CH'' \<or> iso3166_alpha2_code = ''DK'' \<or>
         iso3166_alpha2_code = ''GB'' \<or> iso3166_alpha2_code = ''FR''
      then on_obj (rcd_reclosing_allowed_update (\<lambda>_. False))
      else on_obj (rcd_reclosing_allowed_update (\<lambda>_. True)))"

definition fsm_is_ventilated_charging_active :: "('w fsm_sys, bool) state" where
  "fsm_is_ventilated_charging_active = member ventilated_charging_active"

definition fsm_uses_three_phases :: "('w fsm_sys, bool) state" where
  "fsm_uses_three_phases = member use_three_phases"

definition fsm_get_current_cp_state :: "('w fsm_sys, cp_state) state" where
  "fsm_get_current_cp_state = member cur_state"

section \<open>Switching the power path\<close>

text \<open>\<open>lock_check_countdown.start()\<close> and \<open>pwm_stop_countdown.start()\<close>.\<close>

definition start_lock_check :: "'w fsm_env \<Rightarrow> ('w fsm_sys, unit) state" where
  "start_lock_check env = do {
     t \<leftarrow> on_hal (clk_get_current_ticks env);
     on_obj (lock_check_countdown_update (countdown_start t))
   }"

definition start_pwm_stop :: "'w fsm_env \<Rightarrow> ('w fsm_sys, unit) state" where
  "start_pwm_stop env = do {
     t \<leftarrow> on_hal (clk_get_current_ticks env);
     on_obj (pwm_stop_countdown_update (countdown_start t))
   }"

definition fsm_power_on :: "'w fsm_env \<Rightarrow> ('w fsm_sys, bool) state" where
  "fsm_power_on env = do {
     on \<leftarrow> on_hal (ps_is_on env);
     if on then State_Monad.return True
     else do {
       on_hal (rcd_disable env);
       latch \<leftarrow> member use_three_phases_latch;
       success \<leftarrow> on_hal (ps_on env latch);
       raise_event env (if success then PowerOn else Error_Relais);
       on_hal (rcd_enable env);
       on_hal (lock_lock env);
       start_lock_check env;
       State_Monad.return success
     }
   }"

definition fsm_power_off :: "'w fsm_env \<Rightarrow> ('w fsm_sys, bool) state" where
  "fsm_power_off env = do {
     on \<leftarrow> on_hal (ps_is_on env);
     if \<not> on then State_Monad.return True
     else do {
       on_hal (rcd_disable env);
       success \<leftarrow> on_hal (ps_off env);
       raise_event env (if success then PowerOff else Error_Relais);
       on_hal (lock_unlock env);
       start_lock_check env;
       State_Monad.return success
     }
   }"

section \<open>One pass of the state machine\<close>

text \<open>The branches of the switch in \<open>FSM::run\<close>, one definition per label.\<close>

definition fsm_run_Disabled :: "'w fsm_env \<Rightarrow> ('w fsm_sys, unit) state" where
  "fsm_run_Disabled env = do {
     on_obj (power_on_allowed_update (\<lambda>_. False));
     ignore (fsm_power_off env)
   }"

definition fsm_run_A :: "'w fsm_env \<Rightarrow> ('w fsm_sys, unit) state" where
  "fsm_run_A env = do {
     on_obj (\<lambda>f. f\<lparr>use_three_phases_latch := use_three_phases f\<rparr>);
     fsm_set_pwm_off env;
     on_obj (\<lambda>f. f\<lparr>simplified_mode := False, ventilated_charging_active := False\<rparr>);
     prev \<leftarrow> member prev_state;
     if_then (prev \<noteq> CP_A \<and> prev \<noteq> CP_Disabled \<and> prev \<noteq> CP_F) (do {
       raise_event env CarRequestedStopPower;
       ignore (fsm_power_off env);
       raise_event env CarUnplugged;
       reclosing \<leftarrow> member rcd_reclosing_allowed;
       if_then reclosing (do {
         ignore (on_hal (ps_reset_emergency_switch env));
         on_hal (rcd_reset env)
       })
     })
   }"

definition fsm_run_B :: "'w fsm_env \<Rightarrow> ('w fsm_sys, unit) state" where
  "fsm_run_B env = do {
     prev \<leftarrow> member prev_state;
     if_then (prev \<noteq> CP_A \<and> prev \<noteq> CP_B) (do {
       raise_event env CarRequestedStopPower;
       ignore (fsm_power_off env)
     });
     on_obj (ventilated_charging_active_update (\<lambda>_. False));
     if_then (prev = CP_A \<or> prev = CP_Disabled) (do {
       raise_event env CarPluggedIn;
       on_obj (simplified_mode_update (\<lambda>_. False))
     });
     if_then (prev = CP_E \<or> prev = CP_F) (raise_event env EF_To_BCD)
   }"

text \<open>\<open>fsm_enter_C\<close> and \<open>fsm_enter_D\<close> are the events of entering the state; the part that C and D share: the PWM has stopped but the car still draws power.\<close>

definition fsm_run_pwm_stopped :: "'w fsm_env \<Rightarrow> ('w fsm_sys, unit) state" where
  "fsm_run_pwm_stopped env = do {
     prev_running \<leftarrow> member prev_pwm_running;
     if_then prev_running (start_pwm_stop env);
     c \<leftarrow> member pwm_stop_countdown;
     elapsed \<leftarrow> on_hal (countdown_elapsed env c);
     if_then elapsed (ignore (fsm_power_off env))
   }"

definition fsm_enter_C :: "'w fsm_env \<Rightarrow> cp_state \<Rightarrow> ('w fsm_sys, unit) state" where
  "fsm_enter_C env prev = do {
     if_then (prev = CP_A) (do {
       raise_event env CarPluggedIn;
       on_obj (simplified_mode_update (\<lambda>_. True))
     });
     if_then (prev = CP_B) (raise_event env CarRequestedPower);
     if_then (prev = CP_E \<or> prev = CP_F) (raise_event env EF_To_BCD)
   }"

definition fsm_run_C :: "'w fsm_env \<Rightarrow> ('w fsm_sys, unit) state" where
  "fsm_run_C env = do {
     prev \<leftarrow> member prev_state;
     fsm_enter_C env prev;
     pwm_running \<leftarrow> member cur_pwm_running;
     if \<not> pwm_running then fsm_run_pwm_stopped env
     else do {
       allowed \<leftarrow> member power_on_allowed;
       if_then allowed (do {
         ignore (fsm_power_on env);
         prev_running \<leftarrow> member prev_pwm_running;
         simplified \<leftarrow> member simplified_mode;
         if_then (\<not> prev_running \<and> simplified) (raise_event env CarRequestedPower)
       })
     }
   }"

text \<open>The power path in state D with the PWM running.\<close>

definition fsm_run_D_powered :: "'w fsm_env \<Rightarrow> cp_state \<Rightarrow> ('w fsm_sys, unit) state" where
  "fsm_run_D_powered env prev = do {
     allowed \<leftarrow> member power_on_allowed;
     want \<leftarrow> (if allowed then do { on \<leftarrow> on_hal (ps_is_on env); State_Monad.return (\<not> on) }
             else State_Monad.return False);
     ventilation \<leftarrow> member has_ventilation;
     if_then want
       (if \<not> ventilation then raise_event env Error_VentilationNotAvailable
        else ignore (fsm_power_on env));
     if_then (prev = CP_C) (if_then (\<not> ventilation) (raise_event env Error_VentilationNotAvailable))
   }"

definition fsm_enter_D :: "'w fsm_env \<Rightarrow> cp_state \<Rightarrow> ('w fsm_sys, unit) state" where
  "fsm_enter_D env prev = do {
     if_then (prev = CP_A) (do {
       raise_event env CarPluggedIn;
       raise_event env CarRequestedPower;
       on_obj (simplified_mode_update (\<lambda>_. True))
     });
     if_then (prev = CP_B) (raise_event env CarRequestedPower);
     if_then (prev = CP_E \<or> prev = CP_F) (raise_event env EF_To_BCD)
   }"

definition fsm_run_D :: "'w fsm_env \<Rightarrow> ('w fsm_sys, unit) state" where
  "fsm_run_D env = do {
     prev \<leftarrow> member prev_state;
     fsm_enter_D env prev;
     pwm_running \<leftarrow> member cur_pwm_running;
     if \<not> pwm_running then fsm_run_pwm_stopped env else fsm_run_D_powered env prev
   }"

definition bcd_to_ef :: "'w fsm_env \<Rightarrow> cp_state \<Rightarrow> ('w fsm_sys, unit) state" where
  "bcd_to_ef env prev =
     if_then (prev = CP_B \<or> prev = CP_C \<or> prev = CP_D) (raise_event env BCD_To_EF)"

definition fsm_run_E :: "'w fsm_env \<Rightarrow> ('w fsm_sys, unit) state" where
  "fsm_run_E env = do {
     prev \<leftarrow> member prev_state;
     cur \<leftarrow> member cur_state;
     if_then (prev \<noteq> cur) (raise_event env Error_E);
     bcd_to_ef env prev;
     ignore (fsm_power_off env);
     fsm_set_pwm_off env
   }"

definition fsm_run_F :: "'w fsm_env \<Rightarrow> ('w fsm_sys, unit) state" where
  "fsm_run_F env = do {
     ignore (fsm_power_off env);
     prev \<leftarrow> member prev_state;
     bcd_to_ef env prev
   }"

definition fsm_run_DF :: "'w fsm_env \<Rightarrow> ('w fsm_sys, unit) state" where
  "fsm_run_DF env = do {
     prev \<leftarrow> member prev_state;
     cur \<leftarrow> member cur_state;
     if_then (prev \<noteq> cur) (raise_event env Error_DF);
     bcd_to_ef env prev;
     ignore (fsm_power_off env)
   }"

definition fsm_run_switch :: "'w fsm_env \<Rightarrow> cp_state \<Rightarrow> ('w fsm_sys, unit) state" where
  "fsm_run_switch env state =
     (case state of
        CP_Disabled \<Rightarrow> fsm_run_Disabled env
      | CP_A \<Rightarrow> fsm_run_A env
      | CP_B \<Rightarrow> fsm_run_B env
      | CP_C \<Rightarrow> fsm_run_C env
      | CP_D \<Rightarrow> fsm_run_D env
      | CP_E \<Rightarrow> fsm_run_E env
      | CP_F \<Rightarrow> fsm_run_F env
      | CP_DF \<Rightarrow> fsm_run_DF env)"

definition fsm_check_rcd :: "'w fsm_env \<Rightarrow> ('w fsm_sys, unit) state" where
  "fsm_check_rcd env = do {
     fired \<leftarrow> on_hal (rcd_got_fired env);
     if_then fired (do {
       on_hal (rcd_reset env);
       raise_event env Error_RCD
     })
   }"

definition fsm_check_lock :: "'w fsm_env \<Rightarrow> ('w fsm_sys, unit) state" where
  "fsm_check_lock env = do {
     c \<leftarrow> member lock_check_countdown;
     elapsed \<leftarrow> on_hal (countdown_elapsed env c);
     if_then elapsed (do {
       on_hal (lock_unlock env);
       on_obj (lock_check_countdown_update countdown_stop)
     })
   }"

definition fsm_run :: "'w fsm_env \<Rightarrow> ('w fsm_sys, unit) state" where
  "fsm_run env = do {
     fsm_check_rcd env;
     fsm_check_lock env;
     cur \<leftarrow> member cur_state;
     (ok, new) \<leftarrow> read_cp_state env cur;
     on_obj (cur_state_update (\<lambda>_. new));
     if_then ok (do {
       fsm_run_switch env new;
       on_obj (\<lambda>f. f\<lparr>prev_state := cur_state f, prev_pwm_running := cur_pwm_running f\<rparr>)
     })
   }"

section \<open>Construction and destruction\<close>

text \<open>
  The member initialisers of the header. \<open>simplified_mode\<close> has none, so its value
  before the first assignment is a parameter.
\<close>

definition fsm_members :: "uint32 \<Rightarrow> bool \<Rightarrow> fsm" where
  "fsm_members ticks_per_ms simplified =
     \<lparr> pwm_stop_countdown = countdown_new ticks_per_ms 6000,
       lock_check_countdown = countdown_new ticks_per_ms 1000,
       overcurrent_countdown = countdown_new ticks_per_ms 7000,
       cur_state = CP_Disabled, prev_state = CP_Disabled,
       power_on_allowed = False, rcd_reclosing_allowed = False,
       use_three_phases = True, use_three_phases_latch = True,
       has_ventilation = False, ventilated_charging_active = True,
       simplified_mode = simplified,
       pwm_duty_cycle = 0, cur_pwm_running = False, prev_pwm_running = False \<rparr>"

definition fsm_construct :: "'w fsm_env \<Rightarrow> bool \<Rightarrow> 'w \<Rightarrow> 'w fsm_sys" where
  "fsm_construct env simplified w =
     snd (run_state (do { fsm_disable env; on_hal (rcd_enable env) })
            \<lparr> obj = fsm_members (clk_ticks_per_ms env) simplified, wld = w \<rparr>)"

definition fsm_destruct :: "'w fsm_env \<Rightarrow> ('w fsm_sys, unit) state" where
  "fsm_destruct env = fsm_set_pwm_f env"

text \<open>\<open>event_to_string\<close>.\<close>

fun event_to_string :: "event \<Rightarrow> string" where
  "event_to_string CarPluggedIn = ''CarPluggedIn''"
| "event_to_string CarRequestedPower = ''CarRequestedPower''"
| "event_to_string PowerOn = ''PowerOn''"
| "event_to_string PowerOff = ''PowerOff''"
| "event_to_string CarRequestedStopPower = ''CarRequestedStopPower''"
| "event_to_string CarUnplugged = ''CarUnplugged''"
| "event_to_string Error_E = ''Error_E''"
| "event_to_string Error_DF = ''Error_DF''"
| "event_to_string Error_Relais = ''Error_Relais''"
| "event_to_string Error_RCD = ''Error_RCD''"
| "event_to_string Error_VentilationNotAvailable = ''Error_VentilationNotAvailable''"
| "event_to_string Error_OverCurrent = ''Error_OverCurrent''"
| "event_to_string EF_To_BCD = ''EF_To_BCD''"
| "event_to_string BCD_To_EF = ''BCD_To_EF''"
| "event_to_string PermanentFault = ''PermanentFault''"
| "event_to_string EvseReplugStarted = ''EvseReplugStarted''"
| "event_to_string EvseReplugFinished = ''EvseReplugFinished''"

section \<open>Symbolic execution of the members\<close>

lemma run_on_hal [simp]:
  "run_state (on_hal m) s =
     (fst (run_state m (wld s)), s\<lparr>wld := snd (run_state m (wld s))\<rparr>)"
  by (simp add: on_hal_def split: prod.splits)

lemma run_on_obj [simp]: "run_state (on_obj f) s = ((), s\<lparr>obj := f (obj s)\<rparr>)"
  by (simp add: on_obj_def)

lemma run_member [simp]: "run_state (member f) s = (f (obj s), s)"
  by (simp add: member_def)

lemma wp_on_hal [wp_simps]:
  "wp (on_hal m) Q s = wp m (\<lambda>a w. Q a (s\<lparr>wld := w\<rparr>)) (wld s)"
  by (simp add: wp_iff_run)

lemma wp_on_obj [wp_simps]: "wp (on_obj f) Q s = Q () (s\<lparr>obj := f (obj s)\<rparr>)"
  by (simp add: wp_iff_run)

lemma wp_member [wp_simps]: "wp (member f) Q s = Q (f (obj s)) s"
  by (simp add: wp_iff_run)

lemma keeps_on_hal [keeps_intros]:
  "keeps obs m \<Longrightarrow> keeps (\<lambda>s. obs (wld s)) (on_hal m)"
  by (simp add: keeps_def)

lemma keeps_obj_on_hal [keeps_intros]: "keeps (\<lambda>s. f (obj s)) (on_hal m)"
  by (simp add: keeps_def)

lemma keeps_wld_on_obj [keeps_intros]: "keeps (\<lambda>s. obs (wld s)) (on_obj f)"
  by (simp add: keeps_def)

lemma keeps_member [keeps_intros]: "keeps obs (member f)"
  by (simp add: keeps_def)

lemma keeps_obj_on_obj: "(\<And>x. g (f x) = g x) \<Longrightarrow> keeps (\<lambda>s. g (obj s)) (on_obj f)"
  by (simp add: keeps_def)

end
