(* ===== verification/Fsm_Safety.thy ===== *)
theory Fsm_Safety
  imports Fsm
begin

text \<open>
  Safety of the state machine over any environment that keeps the relay contract:
  when the power path can be closed, when it is opened, and the invariant that ties
  the relay to the last classified control pilot state. The lemmas are proved once in
  the contract's locale; the properties state them over explicit environments.
\<close>

section \<open>What the switching helpers leave alone\<close>

lemma power_off_members [simp]:
  "pwm_stop_countdown (obj (snd (run_state (fsm_power_off env) s))) = pwm_stop_countdown (obj s)"
  "cur_state (obj (snd (run_state (fsm_power_off env) s))) = cur_state (obj s)"
  "prev_state (obj (snd (run_state (fsm_power_off env) s))) = prev_state (obj s)"
  "power_on_allowed (obj (snd (run_state (fsm_power_off env) s))) = power_on_allowed (obj s)"
  "cur_pwm_running (obj (snd (run_state (fsm_power_off env) s))) = cur_pwm_running (obj s)"
  "prev_pwm_running (obj (snd (run_state (fsm_power_off env) s))) = prev_pwm_running (obj s)"
  "simplified_mode (obj (snd (run_state (fsm_power_off env) s))) = simplified_mode (obj s)"
  "has_ventilation (obj (snd (run_state (fsm_power_off env) s))) = has_ventilation (obj s)"
  "rcd_reclosing_allowed (obj (snd (run_state (fsm_power_off env) s))) = rcd_reclosing_allowed (obj s)"
  by (simp_all add: fsm_power_off_def start_lock_check_def)

lemma power_on_members [simp]:
  "pwm_stop_countdown (obj (snd (run_state (fsm_power_on env) s))) = pwm_stop_countdown (obj s)"
  "cur_state (obj (snd (run_state (fsm_power_on env) s))) = cur_state (obj s)"
  "prev_state (obj (snd (run_state (fsm_power_on env) s))) = prev_state (obj s)"
  "power_on_allowed (obj (snd (run_state (fsm_power_on env) s))) = power_on_allowed (obj s)"
  "cur_pwm_running (obj (snd (run_state (fsm_power_on env) s))) = cur_pwm_running (obj s)"
  "prev_pwm_running (obj (snd (run_state (fsm_power_on env) s))) = prev_pwm_running (obj s)"
  "simplified_mode (obj (snd (run_state (fsm_power_on env) s))) = simplified_mode (obj s)"
  "has_ventilation (obj (snd (run_state (fsm_power_on env) s))) = has_ventilation (obj s)"
  "rcd_reclosing_allowed (obj (snd (run_state (fsm_power_on env) s))) = rcd_reclosing_allowed (obj s)"
  by (simp_all add: fsm_power_on_def start_lock_check_def)

text \<open>The checks at the start of a pass change only the lock countdown of the object.\<close>

lemma check_members [simp]:
  "obj (snd (run_state (fsm_check_rcd env) s)) = obj s"
  "pwm_stop_countdown (obj (snd (run_state (fsm_check_lock env) s))) = pwm_stop_countdown (obj s)"
  "cur_state (obj (snd (run_state (fsm_check_lock env) s))) = cur_state (obj s)"
  "prev_state (obj (snd (run_state (fsm_check_lock env) s))) = prev_state (obj s)"
  "power_on_allowed (obj (snd (run_state (fsm_check_lock env) s))) = power_on_allowed (obj s)"
  "cur_pwm_running (obj (snd (run_state (fsm_check_lock env) s))) = cur_pwm_running (obj s)"
  "prev_pwm_running (obj (snd (run_state (fsm_check_lock env) s))) = prev_pwm_running (obj s)"
  "simplified_mode (obj (snd (run_state (fsm_check_lock env) s))) = simplified_mode (obj s)"
  "has_ventilation (obj (snd (run_state (fsm_check_lock env) s))) = has_ventilation (obj s)"
  "rcd_reclosing_allowed (obj (snd (run_state (fsm_check_lock env) s))) = rcd_reclosing_allowed (obj s)"
  by (simp_all add: fsm_check_rcd_def fsm_check_lock_def)

section \<open>A pass, in the order it takes its decisions\<close>

text \<open>
  \<open>fsm_pre\<close> is the system when the control pilot has just been read; \<open>fsm_reading\<close>
  is what \<open>read_cp_state\<close> returned.
\<close>

definition fsm_pre :: "'w fsm_env \<Rightarrow> 'w fsm_sys \<Rightarrow> 'w fsm_sys" where
  "fsm_pre env s =
     (let s1 = snd (run_state (fsm_check_lock env) (snd (run_state (fsm_check_rcd env) s)))
      in snd (run_state (read_cp_state env (cur_state (obj s1))) s1))"

definition fsm_reading :: "'w fsm_env \<Rightarrow> 'w fsm_sys \<Rightarrow> bool \<times> cp_state" where
  "fsm_reading env s =
     (let s1 = snd (run_state (fsm_check_lock env) (snd (run_state (fsm_check_rcd env) s)))
      in fst (run_state (read_cp_state env (cur_state (obj s1))) s1))"

definition fsm_classified :: "'w fsm_env \<Rightarrow> 'w fsm_sys \<Rightarrow> 'w fsm_sys" where
  "fsm_classified env s =
     (let s2 = fsm_pre env s in s2\<lparr>obj := (obj s2)\<lparr>cur_state := snd (fsm_reading env s)\<rparr>\<rparr>)"

definition latch_previous :: "'w fsm_sys \<Rightarrow> 'w fsm_sys" where
  "latch_previous s =
     s\<lparr>obj := (obj s)\<lparr>prev_state := cur_state (obj s), prev_pwm_running := cur_pwm_running (obj s)\<rparr>\<rparr>"

lemma run_fsm_run:
  "run_state (fsm_run env) s =
     ((), let s3 = fsm_classified env s
          in if fst (fsm_reading env s)
             then latch_previous (snd (run_state (fsm_run_switch env (cur_state (obj s3))) s3))
             else s3)"
  by (simp add: fsm_run_def fsm_classified_def fsm_pre_def fsm_reading_def latch_previous_def
      Let_def case_prod_unfold)

lemma classified_members [simp]:
  "cur_state (obj (fsm_classified env s)) = snd (fsm_reading env s)"
  "pwm_stop_countdown (obj (fsm_classified env s)) = pwm_stop_countdown (obj s)"
  "prev_state (obj (fsm_classified env s)) = prev_state (obj s)"
  "power_on_allowed (obj (fsm_classified env s)) = power_on_allowed (obj s)"
  "cur_pwm_running (obj (fsm_classified env s)) = cur_pwm_running (obj s)"
  "prev_pwm_running (obj (fsm_classified env s)) = prev_pwm_running (obj s)"
  "simplified_mode (obj (fsm_classified env s)) = simplified_mode (obj s)"
  "has_ventilation (obj (fsm_classified env s)) = has_ventilation (obj s)"
  "rcd_reclosing_allowed (obj (fsm_classified env s)) = rcd_reclosing_allowed (obj s)"
  by (simp_all add: fsm_classified_def fsm_pre_def read_cp_state_def Let_def)

lemma latch_previous_members [simp]:
  "wld (latch_previous s) = wld s"
  "cur_state (obj (latch_previous s)) = cur_state (obj s)"
  "prev_state (obj (latch_previous s)) = cur_state (obj s)"
  "cur_pwm_running (obj (latch_previous s)) = cur_pwm_running (obj s)"
  "prev_pwm_running (obj (latch_previous s)) = cur_pwm_running (obj s)"
  "pwm_stop_countdown (obj (latch_previous s)) = pwm_stop_countdown (obj s)"
  "power_on_allowed (obj (latch_previous s)) = power_on_allowed (obj s)"
  "has_ventilation (obj (latch_previous s)) = has_ventilation (obj s)"
  by (simp_all add: latch_previous_def)

text \<open>Entering C or D raises events and sets the simplified mode, no more.\<close>

lemma enter_members [simp]:
  "pwm_stop_countdown (obj (snd (run_state (fsm_enter_C env p) s))) = pwm_stop_countdown (obj s)"
  "pwm_stop_countdown (obj (snd (run_state (fsm_enter_D env p) s))) = pwm_stop_countdown (obj s)"
  "cur_state (obj (snd (run_state (fsm_enter_C env p) s))) = cur_state (obj s)"
  "cur_state (obj (snd (run_state (fsm_enter_D env p) s))) = cur_state (obj s)"
  "power_on_allowed (obj (snd (run_state (fsm_enter_C env p) s))) = power_on_allowed (obj s)"
  "power_on_allowed (obj (snd (run_state (fsm_enter_D env p) s))) = power_on_allowed (obj s)"
  "cur_pwm_running (obj (snd (run_state (fsm_enter_C env p) s))) = cur_pwm_running (obj s)"
  "cur_pwm_running (obj (snd (run_state (fsm_enter_D env p) s))) = cur_pwm_running (obj s)"
  "prev_pwm_running (obj (snd (run_state (fsm_enter_C env p) s))) = prev_pwm_running (obj s)"
  "prev_pwm_running (obj (snd (run_state (fsm_enter_D env p) s))) = prev_pwm_running (obj s)"
  "has_ventilation (obj (snd (run_state (fsm_enter_D env p) s))) = has_ventilation (obj s)"
  by (simp_all add: fsm_enter_C_def fsm_enter_D_def)

lemma pwm_stopped_members [simp]:
  "cur_state (obj (snd (run_state (fsm_run_pwm_stopped env) s))) = cur_state (obj s)"
  "cur_pwm_running (obj (snd (run_state (fsm_run_pwm_stopped env) s))) = cur_pwm_running (obj s)"
  by (simp_all add: fsm_run_pwm_stopped_def start_pwm_stop_def)

lemma run_C_D_members [simp]:
  "cur_state (obj (snd (run_state (fsm_run_C env) s))) = cur_state (obj s)"
  "cur_state (obj (snd (run_state (fsm_run_D env) s))) = cur_state (obj s)"
  "cur_pwm_running (obj (snd (run_state (fsm_run_C env) s))) = cur_pwm_running (obj s)"
  "cur_pwm_running (obj (snd (run_state (fsm_run_D env) s))) = cur_pwm_running (obj s)"
  by (simp_all add: fsm_run_C_def fsm_run_D_def fsm_run_D_powered_def)

lemma switch_keeps_cur_state [simp]:
  "cur_state (obj (snd (run_state (fsm_run_switch env st) s))) = cur_state (obj s)"
  by (cases st)
    (simp_all add: fsm_run_switch_def fsm_run_Disabled_def fsm_run_A_def fsm_run_B_def
      fsm_run_E_def fsm_run_F_def fsm_run_DF_def bcd_to_ef_def fsm_set_pwm_off_def)

text \<open>A countdown of the PWM stop that runs is not started again while the PWM stays off.\<close>

lemma switch_keeps_pwm_countdown:
  "\<not> prev_pwm_running (obj s) \<Longrightarrow>
     pwm_stop_countdown (obj (snd (run_state (fsm_run_switch env st) s))) = pwm_stop_countdown (obj s)"
  by (cases st)
    (simp_all add: fsm_run_switch_def fsm_run_Disabled_def fsm_run_A_def fsm_run_B_def fsm_run_C_def
      fsm_run_D_def fsm_run_D_powered_def fsm_run_pwm_stopped_def
      fsm_run_E_def fsm_run_F_def fsm_run_DF_def bcd_to_ef_def fsm_set_pwm_off_def)

lemma run_keeps_pwm_countdown:
  "\<not> prev_pwm_running (obj s) \<Longrightarrow>
     pwm_stop_countdown (obj (snd (run_state (fsm_run env) s))) = pwm_stop_countdown (obj s)"
  by (simp add: run_fsm_run Let_def switch_keeps_pwm_countdown)

section \<open>The relay invariant\<close>

text \<open>
  If the power path is closed, then the last pass that had a usable reading classified
  it as C or D, and either the PWM was running then or the six-second countdown that
  will force the path open is running.
\<close>

definition relay_inv :: "('w \<Rightarrow> bool) \<Rightarrow> 'w fsm_sys \<Rightarrow> bool" where
  "relay_inv relay s \<longleftrightarrow>
     (relay (wld s) \<longrightarrow>
        (prev_state (obj s) = CP_C \<or> prev_state (obj s) = CP_D) \<and>
        (prev_pwm_running (obj s) \<or> running (pwm_stop_countdown (obj s))))"

text \<open>What a branch must establish before the pass latches the previous state.\<close>

definition relay_justified :: "('w \<Rightarrow> bool) \<Rightarrow> 'w fsm_sys \<Rightarrow> bool" where
  "relay_justified relay s \<longleftrightarrow>
     (relay (wld s) \<longrightarrow>
        (cur_state (obj s) = CP_C \<or> cur_state (obj s) = CP_D) \<and>
        (cur_pwm_running (obj s) \<or> running (pwm_stop_countdown (obj s))))"

lemma relay_inv_latch: "relay_inv relay (latch_previous s) = relay_justified relay s"
  by (simp add: relay_inv_def relay_justified_def)

context relay_contract
begin

lemma power_off_opens [simp]:
  "\<not> relay (wld (snd (run_state (fsm_power_off env) s)))"
  by (simp add: fsm_power_off_def start_lock_check_def)

lemma elapsed_keeps_relay [simp]:
  "relay (snd (run_state (countdown_elapsed env c) w)) = relay w"
  by (simp add: run_countdown_elapsed Let_def)

lemma checks_keep_relay [simp]:
  "relay (wld (snd (run_state (fsm_check_rcd env) s))) = relay (wld s)"
  "relay (wld (snd (run_state (fsm_check_lock env) s))) = relay (wld s)"
  by (simp_all add: fsm_check_rcd_def fsm_check_lock_def)

lemma classified_keeps_relay [simp]:
  "relay (wld (fsm_classified env s)) = relay (wld s)"
  by (simp add: fsm_classified_def fsm_pre_def read_cp_state_def Let_def)

lemma enter_keeps_relay [simp]:
  "relay (wld (snd (run_state (fsm_enter_C env p) s))) = relay (wld s)"
  "relay (wld (snd (run_state (fsm_enter_D env p) s))) = relay (wld s)"
  by (simp_all add: fsm_enter_C_def fsm_enter_D_def)

lemma pwm_stopped_keeps_open:
  "\<not> relay (wld s) \<Longrightarrow> \<not> relay (wld (snd (run_state (fsm_run_pwm_stopped env) s)))"
  by (simp add: fsm_run_pwm_stopped_def start_pwm_stop_def)

lemma pwm_stopped_justified:
  assumes "relay (wld s) \<Longrightarrow> prev_pwm_running (obj s) \<or> running (pwm_stop_countdown (obj s))"
  shows "relay (wld (snd (run_state (fsm_run_pwm_stopped env) s))) \<Longrightarrow>
      running (pwm_stop_countdown (obj (snd (run_state (fsm_run_pwm_stopped env) s))))"
  using assms by (simp add: fsm_run_pwm_stopped_def start_pwm_stop_def split: if_splits)

lemma power_on_may_close:
  "relay (wld (snd (run_state (fsm_power_on env) s))) \<Longrightarrow>
     relay (wld s) \<or> fst (run_state (fsm_power_on env) s)"
  by (simp add: fsm_power_on_def start_lock_check_def split: if_splits)

lemma run_A_opens:
  "relay_inv relay s \<Longrightarrow> \<not> relay (wld (snd (run_state (fsm_run_A env) s)))"
  by (auto simp: fsm_run_A_def fsm_set_pwm_off_def relay_inv_def)

lemma run_B_opens:
  "relay_inv relay s \<Longrightarrow> \<not> relay (wld (snd (run_state (fsm_run_B env) s)))"
  by (auto simp: fsm_run_B_def relay_inv_def)

lemma run_others_open [simp]:
  "\<not> relay (wld (snd (run_state (fsm_run_Disabled env) s)))"
  "\<not> relay (wld (snd (run_state (fsm_run_E env) s)))"
  "\<not> relay (wld (snd (run_state (fsm_run_F env) s)))"
  "\<not> relay (wld (snd (run_state (fsm_run_DF env) s)))"
  by (simp_all add: fsm_run_Disabled_def fsm_run_E_def fsm_run_F_def fsm_run_DF_def bcd_to_ef_def
      fsm_set_pwm_off_def)

lemma run_C_justified:
  assumes "relay_inv relay s" "cur_state (obj s) = CP_C"
  shows "relay_justified relay (snd (run_state (fsm_run_C env) s))"
proof (cases "cur_pwm_running (obj s)")
  case True
  then show ?thesis using assms(2) by (simp add: relay_justified_def)
next
  case False
  let ?s = "snd (run_state (fsm_enter_C env (prev_state (obj s))) s)"
  have "snd (run_state (fsm_run_C env) s) = snd (run_state (fsm_run_pwm_stopped env) ?s)"
    using False by (simp add: fsm_run_C_def)
  then show ?thesis
    using assms pwm_stopped_justified [of ?s] by (simp add: relay_justified_def relay_inv_def)
qed

lemma run_D_justified:
  assumes "relay_inv relay s" "cur_state (obj s) = CP_D"
  shows "relay_justified relay (snd (run_state (fsm_run_D env) s))"
proof (cases "cur_pwm_running (obj s)")
  case True
  then show ?thesis using assms(2) by (simp add: relay_justified_def)
next
  case False
  let ?s = "snd (run_state (fsm_enter_D env (prev_state (obj s))) s)"
  have "snd (run_state (fsm_run_D env) s) = snd (run_state (fsm_run_pwm_stopped env) ?s)"
    using False by (simp add: fsm_run_D_def)
  then show ?thesis
    using assms pwm_stopped_justified [of ?s] by (simp add: relay_justified_def relay_inv_def)
qed

lemma switch_justified:
  assumes "relay_inv relay s"
  shows "relay_justified relay (snd (run_state (fsm_run_switch env (cur_state (obj s))) s))"
proof (cases "cur_state (obj s) = CP_C \<or> cur_state (obj s) = CP_D")
  case True
  then show ?thesis
    using assms run_C_justified [of s] run_D_justified [of s] by (auto simp: fsm_run_switch_def)
next
  case False
  then show ?thesis
    using assms run_A_opens [of s] run_B_opens [of s]
    by (cases "cur_state (obj s)") (simp_all add: fsm_run_switch_def relay_justified_def)
qed

lemma relay_inv_run:
  assumes "relay_inv relay s"
  shows "relay_inv relay (snd (run_state (fsm_run env) s))"
proof -
  have "relay_inv relay (fsm_classified env s)"
    using assms by (simp add: relay_inv_def)
  then show ?thesis
    using switch_justified [of "fsm_classified env s"]
    by (simp add: run_fsm_run Let_def relay_inv_latch)
qed

lemma run_C_closes:
  assumes "\<not> relay (wld s)" "relay (wld (snd (run_state (fsm_run_C env) s)))"
  shows "cur_pwm_running (obj s) \<and> power_on_allowed (obj s)"
  using assms pwm_stopped_keeps_open [of "snd (run_state (fsm_enter_C env (prev_state (obj s))) s)"]
  by (simp add: fsm_run_C_def split: if_splits)

lemma D_powered_closes:
  assumes "\<not> relay (wld s)" "relay (wld (snd (run_state (fsm_run_D_powered env p) s)))"
  shows "power_on_allowed (obj s) \<and> has_ventilation (obj s)"
  using assms by (cases "power_on_allowed (obj s)"; cases "has_ventilation (obj s)")
    (simp_all add: fsm_run_D_powered_def split: if_splits)

lemma run_D_closes:
  assumes "\<not> relay (wld s)" "relay (wld (snd (run_state (fsm_run_D env) s)))"
  shows "cur_pwm_running (obj s) \<and> power_on_allowed (obj s) \<and> has_ventilation (obj s)"
  using assms pwm_stopped_keeps_open [of "snd (run_state (fsm_enter_D env (prev_state (obj s))) s)"]
    D_powered_closes [of "snd (run_state (fsm_enter_D env (prev_state (obj s))) s)" "prev_state (obj s)"]
  by (simp add: fsm_run_D_def split: if_splits)

lemma run_A_B_keep_open:
  assumes "\<not> relay (wld s)"
  shows "\<not> relay (wld (snd (run_state (fsm_run_A env) s)))"
    and "\<not> relay (wld (snd (run_state (fsm_run_B env) s)))"
  using assms by (simp_all add: fsm_run_A_def fsm_run_B_def fsm_set_pwm_off_def)

lemma switch_closes:
  assumes "\<not> relay (wld s)" "relay (wld (snd (run_state (fsm_run_switch env st) s)))"
  shows "(st = CP_C \<or> st = CP_D \<and> has_ventilation (obj s)) \<and>
     cur_pwm_running (obj s) \<and> power_on_allowed (obj s)"
  using assms run_C_closes [of s] run_D_closes [of s] run_A_B_keep_open [of s]
  by (cases st) (simp_all add: fsm_run_switch_def)

lemma run_closes:
  assumes "\<not> relay (wld s)" "relay (wld (snd (run_state (fsm_run env) s)))"
  shows "fst (fsm_reading env s) \<and>
     (snd (fsm_reading env s) = CP_C \<or>
      snd (fsm_reading env s) = CP_D \<and> has_ventilation (obj s)) \<and>
     cur_pwm_running (obj s) \<and> power_on_allowed (obj s)"
  using assms switch_closes [of "fsm_classified env s" "snd (fsm_reading env s)"]
  by (simp add: run_fsm_run Let_def split: if_splits)

lemma run_opens_outside_CD:
  assumes "relay_inv relay s" "fst (fsm_reading env s)"
    and "snd (fsm_reading env s) \<noteq> CP_C" "snd (fsm_reading env s) \<noteq> CP_D"
  shows "\<not> relay (wld (snd (run_state (fsm_run env) s)))"
proof -
  have "relay_inv relay (fsm_classified env s)"
    using assms(1) by (simp add: relay_inv_def)
  then show ?thesis
    using assms(2-4) switch_justified [of "fsm_classified env s"]
    by (auto simp: run_fsm_run Let_def relay_justified_def)
qed

lemma run_unusable_reading:
  assumes "\<not> fst (fsm_reading env s)"
  shows "relay (wld (snd (run_state (fsm_run env) s))) = relay (wld s)"
    and "prev_state (obj (snd (run_state (fsm_run env) s))) = prev_state (obj s)"
  using assms by (simp_all add: run_fsm_run Let_def)

end

section \<open>Everything the firmware can do to the state machine\<close>

text \<open>The public member functions that change it, as requests.\<close>

datatype fsm_request =
    Req_set_pwm_on float32 | Req_set_pwm_off | Req_set_pwm_f
  | Req_enable | Req_disable | Req_allow_power_on bool
  | Req_set_three_phases bool | Req_set_ventilation bool | Req_set_country_code string

definition fsm_request :: "'w fsm_env \<Rightarrow> fsm_request \<Rightarrow> ('w fsm_sys, unit) state" where
  "fsm_request env r =
     (case r of
        Req_set_pwm_on dc \<Rightarrow> fsm_set_pwm_on env dc
      | Req_set_pwm_off \<Rightarrow> fsm_set_pwm_off env
      | Req_set_pwm_f \<Rightarrow> fsm_set_pwm_f env
      | Req_enable \<Rightarrow> fsm_enable env
      | Req_disable \<Rightarrow> fsm_disable env
      | Req_allow_power_on b \<Rightarrow> fsm_allow_power_on b
      | Req_set_three_phases b \<Rightarrow> fsm_set_three_phases b
      | Req_set_ventilation b \<Rightarrow> fsm_set_ventilation b
      | Req_set_country_code c \<Rightarrow> fsm_set_country_code c)"

text \<open>
  The reachable systems: construction with an open power path, then passes and
  requests in any order, with the world moving on its own in between (time, car,
  interrupts) as long as it does not close the power path.
\<close>

inductive fsm_reach :: "'w fsm_env \<Rightarrow> ('w \<Rightarrow> bool) \<Rightarrow> 'w fsm_sys \<Rightarrow> bool"
  for env relay where
    construct: "\<not> relay w \<Longrightarrow> fsm_reach env relay (fsm_construct env simplified w)"
  | pass: "fsm_reach env relay s \<Longrightarrow> fsm_reach env relay (snd (run_state (fsm_run env) s))"
  | request: "fsm_reach env relay s \<Longrightarrow> fsm_reach env relay (snd (run_state (fsm_request env r) s))"
  | world: "fsm_reach env relay s \<Longrightarrow> (relay w \<longrightarrow> relay (wld s)) \<Longrightarrow> fsm_reach env relay (s\<lparr>wld := w\<rparr>)"

lemmas fsm_request_defs =
  fsm_request_def fsm_set_pwm_on_def fsm_set_pwm_off_def fsm_set_pwm_f_def fsm_enable_def
  fsm_disable_def fsm_allow_power_on_def fsm_set_three_phases_def fsm_set_ventilation_def
  fsm_set_country_code_def

context relay_contract
begin

lemma request_keeps_inv:
  "relay_inv relay s \<Longrightarrow> relay_inv relay (snd (run_state (fsm_request env r) s))"
  by (cases r) (simp_all add: fsm_request_defs relay_inv_def)

lemma construct_open:
  "\<not> relay w \<Longrightarrow> \<not> relay (wld (fsm_construct env simplified w))"
  by (simp add: fsm_construct_def fsm_request_defs)

lemma reach_relay_inv: "fsm_reach env relay s \<Longrightarrow> relay_inv relay s"
proof (induction rule: fsm_reach.induct)
  case (construct w simplified)
  then show ?case by (simp add: relay_inv_def construct_open)
next
  case (pass s)
  then show ?case by (blast intro: relay_inv_run)
next
  case (request s r)
  then show ?case by (blast intro: request_keeps_inv)
next
  case (world s w)
  then show ?case by (simp add: relay_inv_def)
qed

end

end
