(* ===== verification/Pilot_Voltage.thy ===== *)
theory Pilot_Voltage
  imports Fsm Complex_Main
begin

text \<open>
  What the control pilot thresholds mean in volts. A finite \<open>float\<close> has a real value;
  comparing two of them compares the values, so the float tests of \<open>read_cp_state\<close>
  are bands of real voltages around the nominal levels of IEC 61851.
\<close>

section \<open>The value of a float\<close>

definition fval_real :: "fval \<Rightarrow> real option" where
  "fval_real v = (case v of FFin s m e \<Rightarrow> Some (real_of_int (signed_mant s m) * 2 powr real_of_int e)
                   | _ \<Rightarrow> None)"

definition f32_real :: "float32 \<Rightarrow> real option" where
  "f32_real w = fval_real (f32_decode w)"

lemma scale_powr:
  assumes "g \<le> e"
  shows "real_of_int m * 2 powr real_of_int e =
     real_of_int (m * 2 ^ nat (e - g)) * 2 powr real_of_int g"
proof -
  have "(2::real) powr real_of_int e = 2 powr (real (nat (e - g)) + real_of_int g)"
    using assms by simp
  also have "\<dots> = 2 ^ nat (e - g) * 2 powr real_of_int g"
    by (simp only: powr_add powr_realpow zero_less_numeral)
  finally show ?thesis by simp
qed

lemma fval_less_real:
  assumes "fval_real a = Some x" "fval_real b = Some y"
  shows "fval_less a b = (x < y)"
proof -
  obtain s m e t n f where ab: "a = FFin s m e" "b = FFin t n f"
    using assms by (cases a; cases b) (simp_all add: fval_real_def)
  let ?g = "min e f"
  let ?m = "signed_mant s m * 2 ^ nat (e - ?g)" and ?n = "signed_mant t n * 2 ^ nat (f - ?g)"
  have "x = real_of_int ?m * 2 powr real_of_int ?g" "y = real_of_int ?n * 2 powr real_of_int ?g"
    using assms scale_powr [of ?g e "signed_mant s m"] scale_powr [of ?g f "signed_mant t n"]
    by (simp_all add: ab fval_real_def)
  then have "(x < y) = (?m < ?n)"
    by (simp only: mult_less_cancel_right_pos powr_gt_zero of_int_less_iff)
  then show ?thesis
    by (simp add: ab fval_less_def Let_def)
qed

lemma f32_less_real:
  assumes "f32_real a = Some x" "f32_real b = Some y"
  shows "f32_less a b = (x < y)"
  using fval_less_real assms by (simp add: f32_less_def f32_real_def)

text \<open>Only a finite number lies strictly between two finite ones.\<close>

lemma f32_between_finite:
  assumes "f32_less a v" "f32_less v b" "f32_real a = Some x" "f32_real b = Some y"
  shows "\<exists>r. f32_real v = Some r"
proof (cases "f32_decode v")
  case (FInf s)
  then show ?thesis
    using assms by (auto simp: f32_less_def f32_real_def fval_less_def fval_real_def split: fval.splits)
qed (use assms in \<open>auto simp: f32_less_def f32_real_def fval_less_def fval_real_def split: fval.splits\<close>)

section \<open>The thresholds\<close>

text \<open>Both ends of the interval around each level, as the compiler folds them.\<close>

lemma range_ends:
  "f32_sub (f32_of_int 12) range_interval = 0x412E6666"
  "f32_add (f32_of_int 12) range_interval = 0x4151999A"
  "f32_sub (f32_of_int 9) range_interval = 0x40FCCCCD"
  "f32_add (f32_of_int 9) range_interval = 0x4121999A"
  "f32_sub (f32_of_int 6) range_interval = 0x409CCCCD"
  "f32_add (f32_of_int 6) range_interval = 0x40E33333"
  "f32_sub (f32_of_int 3) range_interval = 0x3FF33333"
  "f32_add (f32_of_int 3) range_interval = 0x40833333"
  "f32_sub (f32_of_int 0) range_interval = 0xBF8CCCCD"
  "f32_add (f32_of_int 0) range_interval = 0x3F8CCCCD"
  "f32_sub (f32_of_int (- 12)) range_interval = 0xC151999A"
  "f32_add (f32_of_int (- 12)) range_interval = 0xC12E6666"
proof -
  have i: "range_interval = 0x3F8CCCCD"
    by code_simp
  show
  "f32_sub (f32_of_int 12) range_interval = 0x412E6666"
  "f32_add (f32_of_int 12) range_interval = 0x4151999A"
  "f32_sub (f32_of_int 9) range_interval = 0x40FCCCCD"
  "f32_add (f32_of_int 9) range_interval = 0x4121999A"
  "f32_sub (f32_of_int 6) range_interval = 0x409CCCCD"
  "f32_add (f32_of_int 6) range_interval = 0x40E33333"
  "f32_sub (f32_of_int 3) range_interval = 0x3FF33333"
  "f32_add (f32_of_int 3) range_interval = 0x40833333"
  "f32_sub (f32_of_int 0) range_interval = 0xBF8CCCCD"
  "f32_add (f32_of_int 0) range_interval = 0x3F8CCCCD"
  "f32_sub (f32_of_int (- 12)) range_interval = 0xC151999A"
  "f32_add (f32_of_int (- 12)) range_interval = 0xC12E6666"
    unfolding i by code_simp+
qed

lemmas in_range_iff = is_voltage_in_range_def range_ends

lemmas f32_eval = f32_less_def f32_decode_def fval_less_def signed_mant_def Let_def

lemmas classify_eval = classify_cp_def in_range_iff f32_eval

lemma between_real:
  assumes "f32_real lo = Some x" "f32_real hi = Some y"
  shows "(f32_less lo v \<and> f32_less v hi) = (\<exists>r. f32_real v = Some r \<and> x < r \<and> r < y)"
  using assms f32_between_finite [of lo v hi x y] by (auto simp: f32_less_real)

lemmas f32_real_eval =
  f32_real_def f32_decode_def fval_real_def signed_mant_def Let_def powr_minus_divide powr_realpow

lemma in_range_real:
  "is_voltage_in_range v (f32_of_int 12) =
     (\<exists>r. f32_real v = Some r \<and> 5714739 / 2 ^ 19 < r \<and> r < 6868173 / 2 ^ 19)"
  "is_voltage_in_range v (f32_of_int 9) =
     (\<exists>r. f32_real v = Some r \<and> 16567501 / 2 ^ 21 < r \<and> r < 5295309 / 2 ^ 19)"
  "is_voltage_in_range v (f32_of_int 6) =
     (\<exists>r. f32_real v = Some r \<and> 10276045 / 2 ^ 21 < r \<and> r < 14889779 / 2 ^ 21)"
  "is_voltage_in_range v (f32_of_int 3) =
     (\<exists>r. f32_real v = Some r \<and> 15938355 / 2 ^ 23 < r \<and> r < 8598323 / 2 ^ 21)"
  "is_voltage_in_range v (f32_of_int 0) =
     (\<exists>r. f32_real v = Some r \<and> - 9227469 / 2 ^ 23 < r \<and> r < 9227469 / 2 ^ 23)"
  "is_voltage_in_range v (f32_of_int (- 12)) =
     (\<exists>r. f32_real v = Some r \<and> - 6868173 / 2 ^ 19 < r \<and> r < - 5714739 / 2 ^ 19)"
  unfolding in_range_iff by (rule between_real; simp add: f32_real_eval)+

text \<open>Within 1.099999 V of a level the test succeeds, beyond 1.100001 V it fails.\<close>

definition pilot_levels :: "int set" where
  "pilot_levels = {12, 9, 6, 3, 0, - 12}"

lemma in_range_near:
  assumes "f32_real v = Some r" "c \<in> pilot_levels" "\<bar>r - real_of_int c\<bar> \<le> 1.099999"
  shows "is_voltage_in_range v (f32_of_int c)"
proof -
  have "c = 12 \<or> c = 9 \<or> c = 6 \<or> c = 3 \<or> c = 0 \<or> c = - 12"
    using assms(2) by (simp add: pilot_levels_def)
  moreover have "r - real_of_int c \<le> 1099999 / 1000000" "- (r - real_of_int c) \<le> 1099999 / 1000000"
    using abs_le_D1 [OF assms(3)] abs_le_D2 [OF assms(3)] by simp_all
  ultimately show ?thesis
    using assms(1) by (elim disjE; simp add: in_range_real)
qed

lemma in_range_far:
  assumes "f32_real v = Some r" "c \<in> pilot_levels" "is_voltage_in_range v (f32_of_int c)"
  shows "\<bar>r - real_of_int c\<bar> < 1.100001"
proof -
  have "c = 12 \<or> c = 9 \<or> c = 6 \<or> c = 3 \<or> c = 0 \<or> c = - 12"
    using assms(2) by (simp add: pilot_levels_def)
  then have "r - real_of_int c < 1100001 / 1000000 \<and> - (r - real_of_int c) < 1100001 / 1000000"
    using assms(1,3) by (elim disjE; simp add: in_range_real)
  then show ?thesis
    by (simp only: abs_less_iff) simp
qed

lemma in_range_one:
  assumes "f32_real v = Some r" "c \<in> pilot_levels" "d \<in> pilot_levels" "c \<noteq> d"
    and "\<bar>r - real_of_int c\<bar> \<le> 1.099999"
  shows "\<not> is_voltage_in_range v (f32_of_int d)"
proof
  assume "is_voltage_in_range v (f32_of_int d)"
  then have "\<bar>r - real_of_int d\<bar> < 1.100001"
    using in_range_far assms(1,3) by blast
  moreover have "3 \<le> \<bar>c - d\<bar>"
    using assms(2-4) by (auto simp: pilot_levels_def)
  then have "3 \<le> \<bar>real_of_int c - real_of_int d\<bar>"
    by linarith
  moreover have "\<bar>real_of_int c - real_of_int d\<bar> \<le> \<bar>r - real_of_int d\<bar> + \<bar>r - real_of_int c\<bar>"
    by linarith
  ultimately show False
    using assms(5) by simp
qed

section \<open>The states as bands of voltage\<close>

text \<open>The nominal positive level of the states that the high part of the signal selects.\<close>

definition nominal_level :: "(cp_state \<times> int) set" where
  "nominal_level = {(CP_A, 12), (CP_B, 9), (CP_C, 6), (CP_D, 3), (CP_F, - 12)}"

lemma nominal_level_cases [consumes 1, case_names A B C D F]:
  assumes "(st, c) \<in> nominal_level"
  obtains "st = CP_A" "c = 12" | "st = CP_B" "c = 9" | "st = CP_C" "c = 6" | "st = CP_D" "c = 3"
    | "st = CP_F" "c = - 12"
  using assms by (auto simp: nominal_level_def)

lemma nominal_pilot_level: "(st, c) \<in> nominal_level \<Longrightarrow> c \<in> pilot_levels"
  by (auto simp: nominal_level_def pilot_levels_def)

lemma classify_selects:
  assumes "cp_valid cp" "state \<noteq> CP_Disabled"
    and "pwm \<longrightarrow> is_voltage_in_range (cp_low cp) (f32_of_int (- 12))"
    and "(st, c) \<in> nominal_level" "is_voltage_in_range (cp_high cp) (f32_of_int c)"
    and "\<And>d. d \<in> pilot_levels \<Longrightarrow> d \<noteq> c \<Longrightarrow> \<not> is_voltage_in_range (cp_high cp) (f32_of_int d)"
  shows "classify_cp pwm cp state = (True, st)"
  using assms(4)
proof (cases rule: nominal_level_cases)
  case A
  then show ?thesis using assms(1-3,5) by (simp add: classify_cp_def)
next
  case B
  then show ?thesis using assms(1-3,5) assms(6) [of 12] by (simp add: classify_cp_def pilot_levels_def)
next
  case C
  then show ?thesis using assms(1-3,5) assms(6) [of 12] assms(6) [of 9]
    by (simp add: classify_cp_def pilot_levels_def)
next
  case D
  then show ?thesis using assms(1-3,5) assms(6) [of 12] assms(6) [of 9] assms(6) [of 6]
    by (simp add: classify_cp_def pilot_levels_def)
next
  case F
  then show ?thesis
    using assms(1-3,5) assms(6) [of 12] assms(6) [of 9] assms(6) [of 6] assms(6) [of 3]
    by (simp add: classify_cp_def pilot_levels_def)
qed

lemma classify_selected:
  assumes "classify_cp pwm cp state = (True, st)" "(st, c) \<in> nominal_level" "state \<noteq> CP_Disabled"
  shows "is_voltage_in_range (cp_high cp) (f32_of_int c)"
proof (rule ccontr)
  assume *: "\<not> is_voltage_in_range (cp_high cp) (f32_of_int c)"
  show False
    using assms(2)
    by (cases rule: nominal_level_cases)
      (use assms(1,3) * in \<open>simp_all add: classify_cp_def split: if_split_asm\<close>)
qed

lemma classify_band:
  assumes "cp_valid cp" "state \<noteq> CP_Disabled" "f32_real (cp_high cp) = Some r"
    and "pwm \<longrightarrow> is_voltage_in_range (cp_low cp) (f32_of_int (- 12))"
    and "(st, c) \<in> nominal_level"
  shows "\<bar>r - real_of_int c\<bar> \<le> 1.099999 \<Longrightarrow> classify_cp pwm cp state = (True, st)"
    and "classify_cp pwm cp state = (True, st) \<Longrightarrow> \<bar>r - real_of_int c\<bar> < 1.100001"
proof -
  note c = nominal_pilot_level [OF assms(5)]
  show "classify_cp pwm cp state = (True, st)" if "\<bar>r - real_of_int c\<bar> \<le> 1.099999"
    by (rule classify_selects [OF assms(1,2,4,5) in_range_near [OF assms(3) c that]
          in_range_one [OF assms(3) c _ _ that]]) auto
  show "\<bar>r - real_of_int c\<bar> < 1.100001" if "classify_cp pwm cp state = (True, st)"
    by (rule in_range_far [OF assms(3) c classify_selected [OF that assms(5,2)]])
qed

text \<open>The signal of a vehicle that draws power: +6 V over -12 V.\<close>

definition charging_signal :: cp_signal where
  "charging_signal = \<lparr> cp_valid = True, cp_high = 0x40C00000, cp_low = 0xC1400000 \<rparr>"

lemma charging_signal_levels:
  "f32_real (cp_high charging_signal) = Some 6" "f32_real (cp_low charging_signal) = Some (- 12)"
  by (simp_all add: charging_signal_def f32_real_eval)

text \<open>C12: The states are bands of voltage. For a valid signal of an enabled machine whose negative
  half, when the PWM runs, is within 1.099999 V of -12 V, the pass reads A, B, C, D or F when the
  high part is within 1.099999 V of +12, +9, +6, +3 or -12 V, and it reads one of them only when
  the high part is within 1.100001 V of that level.\<close>

theorem pilot_bands:
  assumes "cp_valid cp" "state \<noteq> CP_Disabled" "f32_real (cp_high cp) = Some r"
    and "pwm \<longrightarrow> (\<exists>l. f32_real (cp_low cp) = Some l \<and> \<bar>l + 12\<bar> \<le> 1.099999)"
    and "(st, c) \<in> {(CP_A, 12), (CP_B, 9), (CP_C, 6), (CP_D, 3), (CP_F, - 12)}"
  shows "(\<bar>r - real_of_int c\<bar> \<le> 1.099999 \<longrightarrow> classify_cp pwm cp state = (True, st)) \<and>
     (classify_cp pwm cp state = (True, st) \<longrightarrow> \<bar>r - real_of_int c\<bar> < 1.100001)"
proof -
  have low: "pwm \<longrightarrow> is_voltage_in_range (cp_low cp) (f32_of_int (- 12))"
    using assms(4) in_range_near [of "cp_low cp" _ "- 12"] by (auto simp: pilot_levels_def)
  have "(st, c) \<in> nominal_level"
    using assms(5) by (simp only: nominal_level_def)
  then show ?thesis
    using classify_band [OF assms(1-3) low] by blast
qed

theorem pilot_bands_witness: "classify_cp True charging_signal CP_B = (True, CP_C)"
proof -
  have "\<exists>l. f32_real (cp_low charging_signal) = Some l \<and> \<bar>l + 12\<bar> \<le> (1.099999 :: real)"
    by (simp add: charging_signal_levels)
  then show ?thesis
    using pilot_bands [of charging_signal CP_B 6 True CP_C 6]
    by (simp add: charging_signal_levels) (simp add: charging_signal_def)
qed

text \<open>C13: While the PWM runs, no state that can lead to charging is read without the diode: if the
  pass reads A, B, C, D or F, the low part of the signal is within 1.100001 V of -12 V.\<close>

theorem pilot_needs_diode:
  assumes "state \<noteq> CP_Disabled" "classify_cp True cp state = (True, st)"
    and "st \<in> {CP_A, CP_B, CP_C, CP_D, CP_F}"
  shows "\<exists>l. f32_real (cp_low cp) = Some l \<and> \<bar>l + 12\<bar> < 1.100001"
proof -
  have low: "is_voltage_in_range (cp_low cp) (f32_of_int (- 12))"
  proof (rule ccontr)
    assume "\<not> is_voltage_in_range (cp_low cp) (f32_of_int (- 12))"
    then have "classify_cp True cp state \<in> {(False, state), (True, CP_E), (True, CP_DF)}"
      using assms(1) by (simp add: classify_cp_def)
    then show False
      using assms(2,3) by auto
  qed
  then obtain l where l: "f32_real (cp_low cp) = Some l"
    by (auto simp: in_range_real)
  show ?thesis
    using in_range_far [OF l _ low] l by (simp add: pilot_levels_def)
qed

theorem pilot_needs_diode_witness:
  "\<exists>l. f32_real (cp_low charging_signal) = Some l \<and> \<bar>l + 12\<bar> < (1.100001 :: real)"
  by (rule pilot_needs_diode [of CP_B charging_signal CP_C])
    (simp_all add: charging_signal_def classify_eval)

end
