(* ===== verification/Bench.thy ===== *)
theory Bench
  imports Fsm_Safety Pilot_Voltage
begin

text \<open>
  A bench for the state machine: the smallest world with a relay that obeys, a pilot
  signal that the bench sets and a clock. It keeps the relay contract, so the
  properties of \<open>Fsm_Safety\<close> can be run on it.
\<close>

record bench =
  b_relay :: bool
  b_signal :: cp_signal
  b_ticks :: uint32

definition bench_env :: "bench fsm_env" where
  "bench_env =
     \<lparr> rcd_enable = State_Monad.return (),
       rcd_disable = State_Monad.return (),
       rcd_got_fired = State_Monad.return False,
       rcd_reset = State_Monad.return (),
       lock_lock = State_Monad.return (),
       lock_unlock = State_Monad.return (),
       lock_is_locked = State_Monad.return False,
       ps_on = (\<lambda>three. do { modify (b_relay_update (\<lambda>_. True)); gets b_relay }),
       ps_off = do { modify (b_relay_update (\<lambda>_. False)); on \<leftarrow> gets b_relay; State_Monad.return (\<not> on) },
       ps_is_on = gets b_relay,
       ps_reset_emergency_switch = State_Monad.return True,
       cp_set_pwm = (\<lambda>dc. State_Monad.return ()),
       cp_get_cp_signal = gets b_signal,
       cp_enable = State_Monad.return (),
       cp_disable = State_Monad.return (),
       clk_ticks_per_ms = 1,
       clk_get_current_ticks = gets b_ticks,
       push_event = (\<lambda>e. State_Monad.return ()) \<rparr>"

lemma bench_env_simps [simp]:
  "rcd_enable bench_env = State_Monad.return ()"
  "rcd_disable bench_env = State_Monad.return ()"
  "rcd_got_fired bench_env = State_Monad.return False"
  "rcd_reset bench_env = State_Monad.return ()"
  "lock_lock bench_env = State_Monad.return ()"
  "lock_unlock bench_env = State_Monad.return ()"
  "ps_is_on bench_env = gets b_relay"
  "ps_reset_emergency_switch bench_env = State_Monad.return True"
  "cp_set_pwm bench_env dc = State_Monad.return ()"
  "cp_get_cp_signal bench_env = gets b_signal"
  "cp_enable bench_env = State_Monad.return ()"
  "cp_disable bench_env = State_Monad.return ()"
  "clk_ticks_per_ms bench_env = 1"
  "clk_get_current_ticks bench_env = gets b_ticks"
  "push_event bench_env e = State_Monad.return ()"
  by (simp_all add: bench_env_def)

lemma bench_switch_simps [simp]:
  "run_state (ps_on bench_env b) w = (True, w\<lparr>b_relay := True\<rparr>)"
  "run_state (ps_off bench_env) w = (True, w\<lparr>b_relay := False\<rparr>)"
  by (simp_all add: bench_env_def)

lemma bench_relay_contract: "relay_contract bench_env b_relay"
  by (simp add: relay_contract_def keeps_def)

interpretation bench: relay_contract bench_env b_relay
  by (rule bench_relay_contract)

lemmas bench_traced_contract = relay_contract_traced [OF bench_relay_contract]

text \<open>Signals of a bench run: a positive level over a negative one.\<close>

definition bench_signal :: "int \<Rightarrow> int \<Rightarrow> cp_signal" where
  "bench_signal high low = \<lparr> cp_valid = True, cp_high = f32_of_int high, cp_low = f32_of_int low \<rparr>"

lemma bench_levels:
  "f32_of_int 12 = 0x41400000" "f32_of_int 9 = 0x41100000" "f32_of_int 6 = 0x40C00000"
  "f32_of_int 3 = 0x40400000" "f32_of_int 0 = 0" "f32_of_int (- 12) = 0xC1400000"
  by code_simp+

lemma bench_readings [simp]:
  "classify_cp True (bench_signal 6 (- 12)) CP_A = (True, CP_C)"
  "classify_cp True (bench_signal 6 (- 12)) CP_B = (True, CP_C)"
  "classify_cp True (bench_signal 6 (- 12)) CP_C = (True, CP_C)"
  "classify_cp False (bench_signal 6 6) CP_A = (True, CP_C)"
  "classify_cp False (bench_signal 6 6) CP_C = (True, CP_C)"
  "classify_cp False (bench_signal 9 9) CP_A = (True, CP_B)"
  "classify_cp True (bench_signal 9 (- 12)) CP_C = (True, CP_B)"
  "classify_cp False (bench_signal 12 12) CP_F = (True, CP_A)"
  "classify_cp True (bench_signal 0 0) CP_C = (True, CP_E)"
  by (simp_all only: bench_signal_def classify_cp_def cp_signal.simps in_range_iff)
    (simp_all only: bench_levels, simp_all add: f32_eval)

lemma bench_reading_disabled [simp]:
  "classify_cp p (bench_signal h l) CP_Disabled = (True, CP_Disabled)"
  by (simp add: classify_cp_def bench_signal_def)

end
