(* ===== verification/Fsm_Trace.thy ===== *)
theory Fsm_Trace
  imports Fsm_Safety
begin

text \<open>
  What a pass does to its interfaces and in which order: lemmas over the recording
  environment \<open>traced env\<close>, whose world carries the list of calls made so far.
\<close>

section \<open>The recorded interfaces\<close>


lemma traced_simps [simp]:
  "rcd_enable (traced env) = record_call (\<lambda>_. RcdEnable) (rcd_enable env)"
  "rcd_disable (traced env) = record_call (\<lambda>_. RcdDisable) (rcd_disable env)"
  "rcd_got_fired (traced env) = untraced (rcd_got_fired env)"
  "rcd_reset (traced env) = record_call (\<lambda>_. RcdReset) (rcd_reset env)"
  "lock_lock (traced env) = record_call (\<lambda>_. Lock) (lock_lock env)"
  "lock_unlock (traced env) = record_call (\<lambda>_. Unlock) (lock_unlock env)"
  "ps_on (traced env) b = record_call (SwitchOn b) (ps_on env b)"
  "ps_off (traced env) = record_call SwitchOff (ps_off env)"
  "ps_is_on (traced env) = untraced (ps_is_on env)"
  "ps_reset_emergency_switch (traced env) = record_call (\<lambda>_. ResetEmergency) (ps_reset_emergency_switch env)"
  "cp_set_pwm (traced env) dc = record_call (\<lambda>_. SetPwm dc) (cp_set_pwm env dc)"
  "cp_get_cp_signal (traced env) = untraced (cp_get_cp_signal env)"
  "cp_enable (traced env) = record_call (\<lambda>_. CpEnable) (cp_enable env)"
  "cp_disable (traced env) = record_call (\<lambda>_. CpDisable) (cp_disable env)"
  "clk_ticks_per_ms (traced env) = clk_ticks_per_ms env"
  "clk_get_current_ticks (traced env) = record_call GetTicks (clk_get_current_ticks env)"
  "push_event (traced env) e = record_call (\<lambda>_. Event e) (push_event env e)"
  by (simp_all add: traced_def)

section \<open>The period of the six-second countdown\<close>

abbreviation stop_period :: "'w fsm_sys \<Rightarrow> uint32" where
  "stop_period s \<equiv> period_in_ticks (pwm_stop_countdown (obj s))"

lemma pwm_stopped_period [simp]:
  "stop_period (snd (run_state (fsm_run_pwm_stopped env) s)) = stop_period s"
  by (simp add: fsm_run_pwm_stopped_def start_pwm_stop_def)

lemma run_C_D_period [simp]:
  "stop_period (snd (run_state (fsm_run_C env) s)) = stop_period s"
  "stop_period (snd (run_state (fsm_run_D env) s)) = stop_period s"
  by (simp_all add: fsm_run_C_def fsm_run_D_def fsm_run_D_powered_def)

lemma switch_period [simp]:
  "stop_period (snd (run_state (fsm_run_switch env st) s)) = stop_period s"
  by (cases st)
    (simp_all add: fsm_run_switch_def fsm_run_Disabled_def fsm_run_A_def fsm_run_B_def
      fsm_run_E_def fsm_run_F_def fsm_run_DF_def bcd_to_ef_def fsm_set_pwm_off_def)

lemma reach_period:
  "fsm_reach env relay s \<Longrightarrow> stop_period s = 6000 * clk_ticks_per_ms env"
proof (induction rule: fsm_reach.induct)
  case (construct w simplified)
  then show ?case
    by (simp add: fsm_construct_def fsm_request_defs fsm_members_def countdown_new_def)
next
  case (pass s)
  then show ?case by (simp add: run_fsm_run Let_def)
next
  case (request s r)
  then show ?case by (cases r) (simp_all add: fsm_request_defs)
qed simp

section \<open>The contract over the recording environment\<close>

locale recorded_contract = relay_contract

sublocale recorded_contract \<subseteq> traced: relay_contract "traced env" "\<lambda>wt. relay (fst wt)"
  by (rule relay_contract_traced [OF relay_contract_axioms])

context recorded_contract
begin

lemma fst_run_traced_off [simp]:
  "\<not> relay (snd (run_state (ps_off env) w))"
  by simp

text \<open>When the path is still closed afterwards, the clock has just been read before the deadline.\<close>

lemma pwm_stopped_deadline:
  assumes "relay (fst (wld s)) \<Longrightarrow> prev_pwm_running (obj s) \<or> running (pwm_stop_countdown (obj s))"
    and "relay (fst (wld (snd (run_state (fsm_run_pwm_stopped (traced env)) s))))"
  shows "\<exists>t. last (snd (wld (snd (run_state (fsm_run_pwm_stopped (traced env)) s)))) = GetTicks t \<and>
     t - ticks_at_start (pwm_stop_countdown (obj (snd (run_state (fsm_run_pwm_stopped (traced env)) s))))
       < stop_period s"
proof -
  have on: "relay (fst (wld s))"
    using assms(2) traced.pwm_stopped_keeps_open by blast
  show ?thesis
    using assms(1) [OF on] assms(2) on
    by (cases "prev_pwm_running (obj s)")
      (auto simp: fsm_run_pwm_stopped_def start_pwm_stop_def run_countdown_elapsed
        countdown_elapsed_at_def not_le Let_def split: if_splits)
qed

text \<open>The branches of C and D with the PWM stopped end in the shared part.\<close>

lemma run_CD_stopped:
  assumes "\<not> cur_pwm_running (obj s)"
  shows "snd (run_state (fsm_run_switch e CP_C) s) =
      snd (run_state (fsm_run_pwm_stopped e) (snd (run_state (fsm_enter_C e (prev_state (obj s))) s)))"
    and "snd (run_state (fsm_run_switch e CP_D) s) =
      snd (run_state (fsm_run_pwm_stopped e) (snd (run_state (fsm_enter_D e (prev_state (obj s))) s)))"
  using assms by (simp_all add: fsm_run_switch_def fsm_run_C_def fsm_run_D_def)

lemma run_deadline:
  assumes "relay_inv (\<lambda>wt. relay (fst wt)) s" "fst (fsm_reading (traced env) s)"
    and "\<not> cur_pwm_running (obj s)" "relay (fst (wld (snd (run_state (fsm_run (traced env)) s))))"
  shows "\<exists>t. last (snd (wld (snd (run_state (fsm_run (traced env)) s)))) = GetTicks t \<and>
     t - ticks_at_start (pwm_stop_countdown (obj (snd (run_state (fsm_run (traced env)) s))))
       < stop_period s"
proof -
  let ?r = "snd (fsm_reading (traced env) s)" and ?c = "fsm_classified (traced env) s"
  have "?r = CP_C \<or> ?r = CP_D"
    using traced.run_opens_outside_CD [OF assms(1,2)] assms(4) by blast
  then consider "?r = CP_C" | "?r = CP_D"
    by blast
  then obtain s4 where s4: "snd (run_state (fsm_run_switch (traced env) ?r) ?c) =
      snd (run_state (fsm_run_pwm_stopped (traced env)) s4)"
    and m: "stop_period s4 = stop_period s" "relay (fst (wld s4)) = relay (fst (wld s))"
      "prev_pwm_running (obj s4) = prev_pwm_running (obj s)"
      "pwm_stop_countdown (obj s4) = pwm_stop_countdown (obj s)"
  proof cases
    case 1
    show thesis
      by (rule that [of "snd (run_state (fsm_enter_C (traced env) (prev_state (obj s))) ?c)"])
        (use 1 assms(3) in \<open>simp_all add: run_CD_stopped\<close>)
  next
    case 2
    show thesis
      by (rule that [of "snd (run_state (fsm_enter_D (traced env) (prev_state (obj s))) ?c)"])
        (use 2 assms(3) in \<open>simp_all add: run_CD_stopped\<close>)
  qed
  have run: "snd (run_state (fsm_run (traced env)) s) =
      latch_previous (snd (run_state (fsm_run_pwm_stopped (traced env)) s4))"
    using assms(2) s4 by (simp add: run_fsm_run Let_def)
  then show ?thesis
    using pwm_stopped_deadline [of s4] m assms(1,4) by (simp add: relay_inv_def)
qed

end

section \<open>Which calls an operation adds to the record\<close>

text \<open>
  \<open>adds P m\<close>: running \<open>m\<close> appends calls to the record, and \<open>P\<close> relates the system
  before, the calls and the system after. The two instances below compose: an
  operation is \<open>quiet\<close> when it neither switches the relay nor reports that it did, and
  \<open>truthful\<close> when it reports exactly the change it made.
\<close>

type_synonym 'w recorded = "('w \<times> hal_call list) fsm_sys"

definition adds :: "('w recorded \<Rightarrow> hal_call list \<Rightarrow> 'w recorded \<Rightarrow> bool) \<Rightarrow> ('w recorded, 'a) state \<Rightarrow> bool" where
  "adds P m \<longleftrightarrow> (\<forall>s. \<exists>cs. snd (wld (snd (run_state m s))) = snd (wld s) @ cs \<and> P s cs (snd (run_state m s)))"

definition power_reports :: "hal_call list \<Rightarrow> hal_call list" where
  "power_reports cs = filter (\<lambda>c. c = Event PowerOn \<or> c = Event PowerOff) cs"

definition silent_step :: "('w \<Rightarrow> bool) \<Rightarrow> 'w recorded \<Rightarrow> hal_call list \<Rightarrow> 'w recorded \<Rightarrow> bool" where
  "silent_step relay s cs s' \<longleftrightarrow>
     power_reports cs = [] \<and> relay (fst (wld s')) = relay (fst (wld s))"

definition truthful_step :: "('w \<Rightarrow> bool) \<Rightarrow> 'w recorded \<Rightarrow> hal_call list \<Rightarrow> 'w recorded \<Rightarrow> bool" where
  "truthful_step relay s cs s' \<longleftrightarrow>
     power_reports cs =
       (if relay (fst (wld s)) = relay (fst (wld s')) then []
        else if relay (fst (wld s')) then [Event PowerOn] else [Event PowerOff])"

abbreviation quiet :: "('w \<Rightarrow> bool) \<Rightarrow> ('w recorded, 'a) state \<Rightarrow> bool" where
  "quiet relay \<equiv> adds (silent_step relay)"

abbreviation truthful :: "('w \<Rightarrow> bool) \<Rightarrow> ('w recorded, 'a) state \<Rightarrow> bool" where
  "truthful relay \<equiv> adds (truthful_step relay)"

lemma addsD: "adds P m \<Longrightarrow> \<exists>cs. snd (wld (snd (run_state m s))) = snd (wld s) @ cs \<and> P s cs (snd (run_state m s))"
  by (simp add: adds_def)

lemma adds_bind:
  assumes "adds P m" "\<And>a. adds Q (f a)"
    and "\<And>s cs s' ds s''. P s cs s' \<Longrightarrow> Q s' ds s'' \<Longrightarrow> R s (cs @ ds) s''"
  shows "adds R (State_Monad.bind m f)"
proof -
  have "\<exists>cs. snd (wld (snd (run_state (State_Monad.bind m f) s))) = snd (wld s) @ cs \<and>
      R s cs (snd (run_state (State_Monad.bind m f) s))" for s
  proof -
    let ?s = "snd (run_state m s)" and ?f = "f (fst (run_state m s))"
    obtain cs where "snd (wld ?s) = snd (wld s) @ cs" "P s cs ?s"
      using addsD [OF assms(1)] by blast
    moreover obtain ds where "snd (wld (snd (run_state ?f ?s))) = snd (wld ?s) @ ds" "Q ?s ds (snd (run_state ?f ?s))"
      using addsD [OF assms(2)] by blast
    ultimately show ?thesis
      using assms(3) [of s cs ?s ds "snd (run_state ?f ?s)"] by auto
  qed
  then show ?thesis by (simp add: adds_def)
qed

named_theorems quiet_intros
named_theorems truthful_intros

lemma quiet_bind [quiet_intros]:
  "quiet relay m \<Longrightarrow> (\<And>a. quiet relay (f a)) \<Longrightarrow> quiet relay (State_Monad.bind m f)"
  by (rule adds_bind [of "silent_step relay" _ "silent_step relay"]) (auto simp: silent_step_def power_reports_def)

lemma truthful_quiet:
  "quiet relay m \<Longrightarrow> (\<And>a. truthful relay (f a)) \<Longrightarrow> truthful relay (State_Monad.bind m f)"
  by (rule adds_bind [of "silent_step relay" _ "truthful_step relay"]) (auto simp: silent_step_def truthful_step_def power_reports_def)

lemma truthful_then:
  "truthful relay m \<Longrightarrow> (\<And>a. quiet relay (f a)) \<Longrightarrow> truthful relay (State_Monad.bind m f)"
  by (rule adds_bind [of "truthful_step relay" _ "silent_step relay"]) (auto simp: silent_step_def truthful_step_def power_reports_def)

lemma quiet_truthful: "quiet relay m \<Longrightarrow> truthful relay m"
  unfolding adds_def silent_step_def truthful_step_def by metis

lemma adds_if: "adds P m \<Longrightarrow> adds P n \<Longrightarrow> adds P (if c then m else n)"
  by simp

lemma adds_case_prod: "(\<And>x y. adds P (f x y)) \<Longrightarrow> adds P (case a of (x, y) \<Rightarrow> f x y)"
  by (cases a) simp

lemma adds_ignore: "adds P m \<Longrightarrow> adds P (ignore m)"
  by (simp add: adds_def)

lemma quiet_pure [quiet_intros]:
  "quiet relay (State_Monad.return a)" "quiet relay (member g)" "quiet relay (on_obj h)"
  "quiet relay (gets k)"
  by (simp_all add: adds_def silent_step_def power_reports_def)

lemma quiet_if_then [quiet_intros]: "quiet relay m \<Longrightarrow> quiet relay (if_then c m)"
  by (simp add: adds_def silent_step_def power_reports_def)

lemma truthful_if_then: "truthful relay m \<Longrightarrow> truthful relay (if_then c m)"
  unfolding if_then_def by (rule adds_if, assumption, rule quiet_truthful, rule quiet_pure)

lemma quiet_untraced:
  "keeps relay m \<Longrightarrow> quiet relay (on_hal (untraced m))"
  by (simp add: adds_def silent_step_def power_reports_def keeps_def)

lemma quiet_record:
  "keeps relay m \<Longrightarrow> (\<And>a. c a \<noteq> Event PowerOn \<and> c a \<noteq> Event PowerOff) \<Longrightarrow>
     quiet relay (on_hal (record_call c m))"
  by (simp add: adds_def silent_step_def power_reports_def keeps_def)

lemmas [quiet_intros] = adds_if adds_ignore
lemmas [truthful_intros] = adds_if adds_ignore truthful_if_then

text \<open>A pass after its two checks.\<close>

definition fsm_after_checks :: "'w fsm_env \<Rightarrow> ('w fsm_sys, unit) state" where
  "fsm_after_checks env = do {
     cur \<leftarrow> member cur_state;
     (ok, new) \<leftarrow> read_cp_state env cur;
     on_obj (cur_state_update (\<lambda>_. new));
     if_then ok (do {
       fsm_run_switch env new;
       on_obj (\<lambda>f. f\<lparr>prev_state := cur_state f, prev_pwm_running := cur_pwm_running f\<rparr>)
     })
   }"

lemma fsm_run_checks:
  "fsm_run env = do { fsm_check_rcd env; fsm_check_lock env; fsm_after_checks env }"
  by (simp only: fsm_run_def fsm_after_checks_def)

context recorded_contract
begin

lemma quiet_interfaces [quiet_intros]:
  "quiet relay (on_hal (rcd_enable (traced env)))"
  "quiet relay (on_hal (rcd_disable (traced env)))"
  "quiet relay (on_hal (rcd_got_fired (traced env)))"
  "quiet relay (on_hal (rcd_reset (traced env)))"
  "quiet relay (on_hal (lock_lock (traced env)))"
  "quiet relay (on_hal (lock_unlock (traced env)))"
  "quiet relay (on_hal (ps_is_on (traced env)))"
  "quiet relay (on_hal (ps_reset_emergency_switch (traced env)))"
  "quiet relay (on_hal (cp_set_pwm (traced env) dc))"
  "quiet relay (on_hal (cp_get_cp_signal (traced env)))"
  "quiet relay (on_hal (clk_get_current_ticks (traced env)))"
  by (simp_all add: quiet_untraced quiet_record relay_keeps)

lemma quiet_event:
  "e \<noteq> PowerOn \<Longrightarrow> e \<noteq> PowerOff \<Longrightarrow> quiet relay (raise_event (traced env) e)"
  by (simp add: quiet_record relay_keeps)

lemma quiet_events [quiet_intros]:
  "quiet relay (raise_event (traced env) CarPluggedIn)"
  "quiet relay (raise_event (traced env) CarRequestedPower)"
  "quiet relay (raise_event (traced env) CarRequestedStopPower)"
  "quiet relay (raise_event (traced env) CarUnplugged)"
  "quiet relay (raise_event (traced env) Error_E)"
  "quiet relay (raise_event (traced env) Error_DF)"
  "quiet relay (raise_event (traced env) Error_Relais)"
  "quiet relay (raise_event (traced env) Error_RCD)"
  "quiet relay (raise_event (traced env) Error_VentilationNotAvailable)"
  "quiet relay (raise_event (traced env) EF_To_BCD)"
  "quiet relay (raise_event (traced env) BCD_To_EF)"
  by (rule quiet_event; simp)+

lemma quiet_elapsed [quiet_intros]: "quiet relay (on_hal (countdown_elapsed (traced env) c))"
proof -
  have "quiet relay (on_hal (clk_get_current_ticks (traced env)))"
    by (rule quiet_interfaces)
  then show ?thesis
    by (simp add: adds_def silent_step_def power_reports_def run_countdown_elapsed Let_def)
qed

lemma quiet_parts [quiet_intros]:
  "quiet relay (start_lock_check (traced env))"
  "quiet relay (start_pwm_stop (traced env))"
  "quiet relay (fsm_set_pwm_off (traced env))"
  "quiet relay (bcd_to_ef (traced env) p)"
  "quiet relay (fsm_enter_C (traced env) p)"
  "quiet relay (fsm_enter_D (traced env) p)"
  "quiet relay (fsm_check_rcd (traced env))"
  "quiet relay (fsm_check_lock (traced env))"
  unfolding start_lock_check_def start_pwm_stop_def fsm_set_pwm_off_def bcd_to_ef_def
    fsm_enter_C_def fsm_enter_D_def fsm_check_rcd_def fsm_check_lock_def
  by (intro quiet_intros)+

lemma truthful_power [truthful_intros]:
  "truthful relay (fsm_power_on (traced env))"
  "truthful relay (fsm_power_off (traced env))"
  by (auto simp: adds_def truthful_step_def power_reports_def fsm_power_on_def fsm_power_off_def
      start_lock_check_def)

lemma truthful_stopped [truthful_intros]: "truthful relay (fsm_run_pwm_stopped (traced env))"
  unfolding fsm_run_pwm_stopped_def by (intro truthful_quiet truthful_intros quiet_intros)

lemmas quiet_rest = truthful_then [OF truthful_if_then] truthful_then [OF adds_ignore]

lemma truthful_D_powered [truthful_intros]: "truthful relay (fsm_run_D_powered (traced env) p)"
  unfolding fsm_run_D_powered_def
  by (rule truthful_quiet, (intro quiet_intros; fail))+
    (rule quiet_rest, rule adds_if, rule quiet_truthful, (intro truthful_intros quiet_intros)+)

lemma truthful_branches [truthful_intros]:
  "truthful relay (fsm_run_Disabled (traced env))"
  "truthful relay (fsm_run_A (traced env))"
  "truthful relay (fsm_run_B (traced env))"
  "truthful relay (fsm_run_C (traced env))"
  "truthful relay (fsm_run_D (traced env))"
  "truthful relay (fsm_run_E (traced env))"
  "truthful relay (fsm_run_F (traced env))"
  "truthful relay (fsm_run_DF (traced env))"
proof -
  show "truthful relay (fsm_run_Disabled (traced env))"
    unfolding fsm_run_Disabled_def by (intro truthful_quiet truthful_intros quiet_intros)
  show "truthful relay (fsm_run_A (traced env))"
    unfolding fsm_run_A_def
    by (((rule truthful_quiet, (intro quiet_intros; fail))+), rule truthful_if_then, ((rule truthful_quiet, (intro quiet_intros; fail))+), rule quiet_rest)
      (intro truthful_intros quiet_intros)+
  show "truthful relay (fsm_run_B (traced env))"
    unfolding fsm_run_B_def
    by (((rule truthful_quiet, (intro quiet_intros; fail))+), rule quiet_rest, ((rule truthful_quiet, (intro quiet_intros; fail))+)) (intro truthful_intros quiet_intros)+
  show "truthful relay (fsm_run_C (traced env))"
    unfolding fsm_run_C_def
    by (((rule truthful_quiet, (intro quiet_intros; fail))+), rule adds_if, rule truthful_intros, ((rule truthful_quiet, (intro quiet_intros; fail))+), rule truthful_if_then, rule quiet_rest)
      (intro truthful_intros quiet_intros)+
  show "truthful relay (fsm_run_D (traced env))"
    unfolding fsm_run_D_def by ((rule truthful_quiet, (intro quiet_intros; fail))+) (intro truthful_intros)
  show "truthful relay (fsm_run_E (traced env))"
    unfolding fsm_run_E_def by (((rule truthful_quiet, (intro quiet_intros; fail))+), rule quiet_rest) (intro truthful_intros quiet_intros)+
  show "truthful relay (fsm_run_F (traced env))"
    unfolding fsm_run_F_def by (rule quiet_rest) (intro truthful_intros quiet_intros)+
  show "truthful relay (fsm_run_DF (traced env))"
    unfolding fsm_run_DF_def by ((rule truthful_quiet, (intro quiet_intros; fail))+) (intro truthful_intros)
qed

lemma truthful_switch: "truthful relay (fsm_run_switch (traced env) st)"
  by (cases st) (simp_all add: fsm_run_switch_def truthful_branches)

lemma truthful_after_checks: "truthful relay (fsm_after_checks (traced env))"
  unfolding fsm_after_checks_def read_cp_state_def
  by ((rule truthful_quiet, (intro quiet_intros; fail))+, rule adds_case_prod)
    (rule truthful_quiet, rule quiet_pure, rule truthful_if_then, rule truthful_then,
      rule truthful_switch, rule quiet_pure)

lemma truthful_run: "truthful relay (fsm_run (traced env))"
  unfolding fsm_run_checks
  by (intro truthful_quiet quiet_parts truthful_after_checks)

lemma lock_timer_calls:
  assumes "countdown_elapsed_at
      (fst (run_state (clk_get_current_ticks env)
         (fst (wld (snd (run_state (fsm_check_rcd (traced env)) s))))))
      (lock_check_countdown (obj s))"
  shows "\<exists>cs t ds. snd (wld (snd (run_state (fsm_run (traced env)) s))) =
     snd (wld s) @ cs @ [GetTicks t, Unlock] @ ds \<and> countdown_elapsed_at t (lock_check_countdown (obj s))"
proof -
  let ?s1 = "snd (run_state (fsm_check_rcd (traced env)) s)"
  let ?s2 = "snd (run_state (fsm_check_lock (traced env)) ?s1)"
  obtain cs where cs: "snd (wld ?s1) = snd (wld s) @ cs"
    using addsD [OF quiet_parts(7)] by blast
  have "snd (wld ?s2) = snd (wld ?s1) @
      [GetTicks (fst (run_state (clk_get_current_ticks env) (fst (wld ?s1)))), Unlock]"
    using assms
    by (simp add: fsm_check_lock_def run_countdown_elapsed Let_def countdown_elapsed_at_def)
  moreover obtain ds where "snd (wld (snd (run_state (fsm_after_checks (traced env)) ?s2))) = snd (wld ?s2) @ ds"
    using addsD [OF truthful_after_checks] by blast
  ultimately show ?thesis
    using assms cs by (auto simp: fsm_run_checks)
qed

end

section \<open>The calls of an operation\<close>

text \<open>The calls added between two systems of a recorded run.\<close>

definition new_calls :: "'w recorded \<Rightarrow> 'w recorded \<Rightarrow> hal_call list" where
  "new_calls s s' = drop (length (snd (wld s))) (snd (wld s'))"

lemma new_calls_append [simp]: "snd (wld s') = snd (wld s) @ cs \<Longrightarrow> new_calls s s' = cs"
  by (simp add: new_calls_def)

text \<open>What switching off adds when the relay is closed, and that it adds nothing otherwise.\<close>

lemma power_off_calls:
  "new_calls s (snd (run_state (fsm_power_off (traced env)) s)) =
     (if fst (run_state (ps_is_on env) (fst (wld s)))
      then [RcdDisable, SwitchOff (fst (run_state (fsm_power_off (traced env)) s)),
            Event (if fst (run_state (fsm_power_off (traced env)) s) then PowerOff else Error_Relais),
            Unlock,
            GetTicks (ticks_at_start (lock_check_countdown (obj (snd (run_state (fsm_power_off (traced env)) s)))))]
      else [])"
  by (simp add: fsm_power_off_def start_lock_check_def new_calls_def)

lemma power_on_calls:
  "new_calls s (snd (run_state (fsm_power_on (traced env)) s)) =
     (if fst (run_state (ps_is_on env) (fst (wld s))) then []
      else [RcdDisable, SwitchOn (use_three_phases_latch (obj s)) (fst (run_state (fsm_power_on (traced env)) s)),
            Event (if fst (run_state (fsm_power_on (traced env)) s) then PowerOn else Error_Relais),
            RcdEnable, Lock,
            GetTicks (ticks_at_start (lock_check_countdown (obj (snd (run_state (fsm_power_on (traced env)) s)))))])"
  by (simp add: fsm_power_on_def start_lock_check_def new_calls_def)

section \<open>Delivering power\<close>

text \<open>An operation that delivers the power it is asked for: the relay is closed after it, or the failure was reported.\<close>

definition delivers :: "('w \<Rightarrow> bool) \<Rightarrow> 'w recorded \<Rightarrow> hal_call list \<Rightarrow> 'w recorded \<Rightarrow> bool" where
  "delivers relay s cs s' \<longleftrightarrow> relay (fst (wld s')) \<or> Event Error_Relais \<in> set cs"

context recorded_contract
begin

lemma delivers_power_on: "adds (delivers relay) (fsm_power_on (traced env))"
  by (auto simp: adds_def delivers_def fsm_power_on_def start_lock_check_def)

lemma delivers_quiet:
  "quiet relay m \<Longrightarrow> (\<And>a. adds (delivers relay) (f a)) \<Longrightarrow> adds (delivers relay) (State_Monad.bind m f)"
  by (rule adds_bind [of "silent_step relay" _ "delivers relay"]) (auto simp: silent_step_def delivers_def)

lemma delivers_then:
  "adds (delivers relay) m \<Longrightarrow> (\<And>a. quiet relay (f a)) \<Longrightarrow> adds (delivers relay) (State_Monad.bind m f)"
  by (rule adds_bind [of "delivers relay" _ "silent_step relay"]) (auto simp: silent_step_def delivers_def)

lemma delivers_C:
  assumes "cur_pwm_running (obj s)" "power_on_allowed (obj s)"
  shows "\<exists>cs. snd (wld (snd (run_state (fsm_run_C (traced env)) s))) = snd (wld s) @ cs \<and>
    delivers relay s cs (snd (run_state (fsm_run_C (traced env)) s))"
proof -
  let ?rest = "do { prev_running \<leftarrow> member prev_pwm_running; simplified \<leftarrow> member simplified_mode;
     if_then (\<not> prev_running \<and> simplified) (raise_event (traced env) CarRequestedPower) }"
  have "adds (delivers relay) (do { fsm_enter_C (traced env) (prev_state (obj s));
      ignore (fsm_power_on (traced env)); ?rest })"
    by (intro delivers_quiet delivers_then adds_ignore delivers_power_on quiet_intros)
  from addsD [OF this, of s] assms show ?thesis
    by (simp add: fsm_run_C_def)
qed

lemma delivers_D:
  assumes "cur_pwm_running (obj s)" "power_on_allowed (obj s)" "has_ventilation (obj s)"
  shows "\<exists>cs. snd (wld (snd (run_state (fsm_run_D (traced env)) s))) = snd (wld s) @ cs \<and>
    delivers relay s cs (snd (run_state (fsm_run_D (traced env)) s))"
proof (cases "relay (fst (wld s))")
  case True
  have "quiet relay (do { fsm_enter_D (traced env) (prev_state (obj s)); on_hal (ps_is_on (traced env)) })"
    by (intro quiet_intros)
  from addsD [OF this, of s] assms True show ?thesis
    by (auto simp: fsm_run_D_def fsm_run_D_powered_def delivers_def silent_step_def)
next
  case False
  have "adds (delivers relay) (do { fsm_enter_D (traced env) (prev_state (obj s));
      on \<leftarrow> on_hal (ps_is_on (traced env)); ignore (fsm_power_on (traced env)) })"
    by (intro delivers_quiet adds_ignore delivers_power_on quiet_intros)
  from addsD [OF this, of s] assms False show ?thesis
    by (cases "prev_state (obj s) = CP_C") (simp_all add: fsm_run_D_def fsm_run_D_powered_def)
qed

lemma run_delivers:
  assumes "fst (fsm_reading (traced env) s)"
    and "snd (fsm_reading (traced env) s) = CP_C \<or>
         snd (fsm_reading (traced env) s) = CP_D \<and> has_ventilation (obj s)"
    and "cur_pwm_running (obj s)" "power_on_allowed (obj s)"
  shows "relay (fst (wld (snd (run_state (fsm_run (traced env)) s)))) \<or>
     Event Error_Relais \<in> set (new_calls s (snd (run_state (fsm_run (traced env)) s)))"
proof -
  let ?s = "fsm_classified (traced env) s"
  have "quiet relay (do { fsm_check_rcd (traced env); fsm_check_lock (traced env);
      cur \<leftarrow> member cur_state; read_cp_state (traced env) cur })"
    unfolding read_cp_state_def by (intro quiet_intros)
  from addsD [OF this, of s] obtain bs where bs: "snd (wld ?s) = snd (wld s) @ bs"
    by (auto simp: fsm_classified_def fsm_pre_def Let_def)
  obtain cs where "snd (wld (snd (run_state (fsm_run_switch (traced env) (cur_state (obj ?s))) ?s))) = snd (wld ?s) @ cs"
    and "delivers relay ?s cs (snd (run_state (fsm_run_switch (traced env) (cur_state (obj ?s))) ?s))"
    using assms(2-4) delivers_C [of ?s] delivers_D [of ?s] by (auto simp: fsm_run_switch_def)
  with assms(1) bs show ?thesis
    by (auto simp: run_fsm_run Let_def delivers_def new_calls_def)
qed

end

end
