(* ===== verification/Fsm_Properties.thy ===== *)
theory Fsm_Properties
  imports Bench Fsm_Trace
begin

text \<open>
  What the state machine guarantees, over any environment that keeps the relay
  contract, and runs of it on the bench at which the hypotheses hold.
\<close>

section \<open>Runs on the bench\<close>

definition bench_at :: "cp_signal \<Rightarrow> bench fsm_sys \<Rightarrow> bench fsm_sys" where
  "bench_at sig s = s\<lparr>wld := (wld s)\<lparr>b_signal := sig\<rparr>\<rparr>"

definition bench_do :: "fsm_request \<Rightarrow> bench fsm_sys \<Rightarrow> bench fsm_sys" where
  "bench_do r s = snd (run_state (fsm_request bench_env r) s)"

definition bench_pass :: "bench fsm_sys \<Rightarrow> bench fsm_sys" where
  "bench_pass s = snd (run_state (fsm_run bench_env) s)"

definition bench_start :: "bench fsm_sys" where
  "bench_start = fsm_construct bench_env False
     \<lparr> b_relay = False, b_signal = bench_signal 12 12, b_ticks = 1000 \<rparr>"

text \<open>A car is plugged in, the PWM is started, power is allowed, the car asks for it.\<close>

definition bench_charging :: "bench fsm_sys" where
  "bench_charging =
     bench_pass (bench_at (bench_signal 6 (- 12))
       (bench_do (Req_allow_power_on True) (bench_do (Req_set_pwm_on (f32_of_fval (f64_lit 1 2)))
         (bench_pass (bench_at (bench_signal 9 9) (bench_do Req_enable bench_start))))))"

text \<open>The PWM is then stopped; the car goes on drawing power.\<close>

definition bench_stopped :: "bench fsm_sys" where
  "bench_stopped = bench_pass (bench_at (bench_signal 6 6) (bench_do Req_set_pwm_off bench_charging))"

lemmas bench_step_defs =
  bench_pass_def bench_do_def bench_at_def fsm_request_defs run_fsm_run fsm_classified_def
  fsm_pre_def fsm_reading_def fsm_check_rcd_def fsm_check_lock_def read_cp_state_def
  latch_previous_def run_countdown_elapsed countdown_elapsed_at_def Let_def

lemma bench_start_eq:
  "bench_start = \<lparr> obj = fsm_members 1 False \<lparr>pwm_duty_cycle := f32_of_int 1\<rparr>,
     wld = \<lparr> b_relay = False, b_signal = bench_signal 12 12, b_ticks = 1000 \<rparr> \<rparr>"
  by (simp add: bench_start_def fsm_construct_def fsm_request_defs fsm_members_def)

lemma bench_charging_eq:
  "bench_charging =
     \<lparr> obj = (fsm_members 1 False)
        \<lparr>lock_check_countdown := countdown_start 1000 (countdown_new 1 1000),
         cur_state := CP_C, prev_state := CP_C, power_on_allowed := True,
         ventilated_charging_active := False,
         pwm_duty_cycle := f32_of_fval (f64_lit 1 2), cur_pwm_running := True,
         prev_pwm_running := True\<rparr>,
       wld = \<lparr> b_relay = True, b_signal = bench_signal 6 (- 12), b_ticks = 1000 \<rparr> \<rparr>"
  by (simp add: bench_charging_def bench_start_eq bench_step_defs fsm_members_def countdown_new_def
      fsm_run_switch_def fsm_run_B_def fsm_run_C_def fsm_enter_C_def fsm_power_on_def fsm_power_off_def
      start_lock_check_def)

lemma bench_stopped_eq:
  "bench_stopped =
     \<lparr> obj = (fsm_members 1 False)
        \<lparr>lock_check_countdown := countdown_start 1000 (countdown_new 1 1000),
         pwm_stop_countdown := countdown_start 1000 (countdown_new 1 6000),
         cur_state := CP_C, prev_state := CP_C, power_on_allowed := False,
         ventilated_charging_active := False,
         pwm_duty_cycle := f32_of_int 1, cur_pwm_running := False,
         prev_pwm_running := False\<rparr>,
       wld = \<lparr> b_relay = True, b_signal = bench_signal 6 6, b_ticks = 1000 \<rparr> \<rparr>"
  by (simp add: bench_stopped_def bench_charging_eq bench_step_defs fsm_members_def
      countdown_new_def fsm_run_switch_def fsm_run_C_def fsm_enter_C_def fsm_run_pwm_stopped_def start_pwm_stop_def)

lemma reach_do: "fsm_reach bench_env b_relay s \<Longrightarrow> fsm_reach bench_env b_relay (bench_do r s)"
  unfolding bench_do_def by (rule fsm_reach.request)

lemma reach_pass: "fsm_reach bench_env b_relay s \<Longrightarrow> fsm_reach bench_env b_relay (bench_pass s)"
  unfolding bench_pass_def by (rule fsm_reach.pass)

lemma reach_at: "fsm_reach bench_env b_relay s \<Longrightarrow> fsm_reach bench_env b_relay (bench_at sig s)"
  unfolding bench_at_def by (rule fsm_reach.world) simp_all

lemma reach_start: "fsm_reach bench_env b_relay bench_start"
  unfolding bench_start_def by (rule fsm_reach.construct) simp

lemmas bench_reach = reach_do reach_pass reach_at reach_start

lemma reach_charging: "fsm_reach bench_env b_relay bench_charging"
  unfolding bench_charging_def by (intro bench_reach)

lemma reach_stopped: "fsm_reach bench_env b_relay bench_stopped"
  unfolding bench_stopped_def by (intro bench_reach reach_charging)

section \<open>The power path\<close>

text \<open>C1: In every system that passes and requests can reach, a closed power path means that
  the last pass with a usable reading classified the car as C or D, and that either
  the PWM was running in that pass or the six-second countdown is running.\<close>

theorem fsm_relay_invariant:
  assumes "relay_contract env relay" "fsm_reach env relay s" "relay (wld s)"
  shows "(prev_state (obj s) = CP_C \<or> prev_state (obj s) = CP_D) \<and>
     (prev_pwm_running (obj s) \<or> running (pwm_stop_countdown (obj s)))"
  using relay_contract.reach_relay_inv [OF assms(1,2)] assms(3) by (simp add: relay_inv_def)

theorem fsm_relay_invariant_witness:
  "b_relay (wld bench_charging) \<and> prev_state (obj bench_charging) = CP_C"
  using fsm_relay_invariant [OF bench_relay_contract reach_charging]
  by (simp add: bench_charging_eq fsm_members_def)

text \<open>C3: A pass closes an open power path only on a usable reading of state C, or of D with
  ventilation, while the PWM runs and the charger has been allowed to power on.\<close>

theorem fsm_closes_only_when_allowed:
  assumes "relay_contract env relay" "\<not> relay (wld s)"
    and "relay (wld (snd (run_state (fsm_run env) s)))"
  shows "fst (fsm_reading env s) \<and>
     (snd (fsm_reading env s) = CP_C \<or> snd (fsm_reading env s) = CP_D \<and> has_ventilation (obj s)) \<and>
     cur_pwm_running (obj s) \<and> power_on_allowed (obj s)"
  by (rule relay_contract.run_closes [OF assms])

theorem fsm_closes_only_when_allowed_witness:
  "cur_pwm_running (obj (bench_charging\<lparr>wld := (wld bench_charging)\<lparr>b_relay := False\<rparr>\<rparr>))"
  using fsm_closes_only_when_allowed [OF bench_relay_contract,
      of "bench_charging\<lparr>wld := (wld bench_charging)\<lparr>b_relay := False\<rparr>\<rparr>"]
  by (simp add: bench_charging_eq bench_step_defs fsm_members_def countdown_new_def
      fsm_run_switch_def fsm_run_C_def fsm_enter_C_def fsm_power_on_def start_lock_check_def)

text \<open>C4: A pass that reads any state other than C and D leaves the power path open, from every
  reachable system.\<close>

theorem fsm_opens_outside_C_and_D:
  assumes "relay_contract env relay" "fsm_reach env relay s" "fst (fsm_reading env s)"
    and "snd (fsm_reading env s) \<noteq> CP_C" "snd (fsm_reading env s) \<noteq> CP_D"
  shows "\<not> relay (wld (snd (run_state (fsm_run env) s)))"
  by (rule relay_contract.run_opens_outside_CD
      [OF assms(1) relay_contract.reach_relay_inv [OF assms(1,2)] assms(3-5)])

theorem fsm_opens_outside_C_and_D_witness:
  "b_relay (wld bench_charging) \<and>
   \<not> b_relay (wld (snd (run_state (fsm_run bench_env) (bench_at (bench_signal 9 (- 12)) bench_charging))))"
proof
  show "b_relay (wld bench_charging)"
    by (simp add: bench_charging_eq)
  have "fsm_reading bench_env (bench_at (bench_signal 9 (- 12)) bench_charging) = (True, CP_B)"
    by (simp add: bench_charging_eq bench_step_defs fsm_members_def countdown_new_def)
  then show "\<not> b_relay (wld (snd (run_state (fsm_run bench_env)
      (bench_at (bench_signal 9 (- 12)) bench_charging))))"
    using fsm_opens_outside_C_and_D [OF bench_relay_contract reach_at [OF reach_charging],
        of "bench_signal 9 (- 12)"] by simp
qed

text \<open>C5: A pass without a usable reading does not switch the power path at all, whatever the
  state of the machine: neither the six-second rule nor a disabled state opens it.\<close>

theorem fsm_unusable_reading_keeps_relay:
  assumes "relay_contract env relay" "\<not> fst (fsm_reading env s)"
  shows "relay (wld (snd (run_state (fsm_run env) s))) = relay (wld s)"
  by (rule relay_contract.run_unusable_reading(1) [OF assms])

text \<open>The bench charges, is disabled, and the pilot signal becomes invalid.\<close>

definition invalid_signal :: cp_signal where
  "invalid_signal = \<lparr> cp_valid = False, cp_high = 0, cp_low = 0 \<rparr>"

theorem fsm_unusable_reading_keeps_relay_witness:
  "cur_state (obj (bench_at invalid_signal (bench_do Req_disable bench_charging))) = CP_Disabled \<and>
   b_relay (wld (snd (run_state (fsm_run bench_env)
     (bench_at invalid_signal (bench_do Req_disable bench_charging)))))"
proof -
  have "\<not> fst (fsm_reading bench_env (bench_at invalid_signal (bench_do Req_disable bench_charging)))"
    by (simp add: bench_charging_eq bench_step_defs fsm_members_def countdown_new_def
        invalid_signal_def classify_cp_def)
  from fsm_unusable_reading_keeps_relay [OF bench_relay_contract this] show ?thesis
    by (simp add: bench_charging_eq bench_step_defs fsm_members_def)
qed

section \<open>The same session, recorded\<close>

definition rec_at :: "cp_signal \<Rightarrow> (bench \<times> hal_call list) fsm_sys \<Rightarrow> (bench \<times> hal_call list) fsm_sys" where
  "rec_at sig s = s\<lparr>wld := ((fst (wld s))\<lparr>b_signal := sig\<rparr>, snd (wld s))\<rparr>"

definition rec_do :: "fsm_request \<Rightarrow> (bench \<times> hal_call list) fsm_sys \<Rightarrow> (bench \<times> hal_call list) fsm_sys" where
  "rec_do r s = snd (run_state (fsm_request (traced bench_env) r) s)"

definition rec_pass :: "(bench \<times> hal_call list) fsm_sys \<Rightarrow> (bench \<times> hal_call list) fsm_sys" where
  "rec_pass s = snd (run_state (fsm_run (traced bench_env)) s)"

definition rec_start :: "(bench \<times> hal_call list) fsm_sys" where
  "rec_start = fsm_construct (traced bench_env) False
     (\<lparr> b_relay = False, b_signal = bench_signal 12 12, b_ticks = 1000 \<rparr>, [])"

definition rec_charging :: "(bench \<times> hal_call list) fsm_sys" where
  "rec_charging =
     rec_pass (rec_at (bench_signal 6 (- 12))
       (rec_do (Req_allow_power_on True) (rec_do (Req_set_pwm_on (f32_of_fval (f64_lit 1 2)))
         (rec_pass (rec_at (bench_signal 9 9) (rec_do Req_enable rec_start))))))"

definition rec_stopped :: "(bench \<times> hal_call list) fsm_sys" where
  "rec_stopped = rec_pass (rec_at (bench_signal 6 6) (rec_do Req_set_pwm_off rec_charging))"

lemmas rec_step_defs =
  rec_pass_def rec_do_def rec_at_def fsm_request_defs run_fsm_run fsm_classified_def
  fsm_pre_def fsm_reading_def fsm_check_rcd_def fsm_check_lock_def read_cp_state_def
  latch_previous_def run_countdown_elapsed countdown_elapsed_at_def Let_def

lemma rec_start_eq:
  "rec_start = \<lparr> obj = fsm_members 1 False \<lparr>pwm_duty_cycle := f32_of_int 1\<rparr>,
     wld = (\<lparr> b_relay = False, b_signal = bench_signal 12 12, b_ticks = 1000 \<rparr>,
       [SetPwm (f32_of_int 1), CpDisable, RcdEnable]) \<rparr>"
  by (simp add: rec_start_def fsm_construct_def fsm_request_defs fsm_members_def)

lemma rec_charging_eq:
  "rec_charging = \<lparr> obj = obj bench_charging, wld = (wld bench_charging,
     [SetPwm (f32_of_int 1), CpDisable, RcdEnable,
      SetPwm (f32_of_int 1), CpEnable,
      Event CarRequestedStopPower, Event CarPluggedIn,
      SetPwm (f32_of_fval (f64_lit 1 2)),
      Event CarRequestedPower, RcdDisable, SwitchOn True True, Event PowerOn, RcdEnable, Lock, GetTicks 1000]) \<rparr>"
  by (simp add: rec_charging_def rec_start_eq rec_step_defs fsm_members_def countdown_new_def
      fsm_run_switch_def fsm_run_B_def fsm_run_C_def fsm_enter_C_def fsm_power_on_def fsm_power_off_def
      start_lock_check_def bench_charging_eq)

lemma rec_stopped_eq:
  "rec_stopped = \<lparr> obj = obj bench_stopped, wld = (wld bench_stopped,
     snd (wld rec_charging) @ [SetPwm (f32_of_int 1), GetTicks 1000, GetTicks 1000, GetTicks 1000]) \<rparr>"
  by (simp add: rec_stopped_def rec_charging_eq rec_step_defs fsm_members_def countdown_new_def
      fsm_run_switch_def fsm_run_C_def fsm_enter_C_def fsm_run_pwm_stopped_def start_pwm_stop_def
      bench_charging_eq bench_stopped_eq)

lemma rec_reach_start: "fsm_reach (traced bench_env) (\<lambda>wt. b_relay (fst wt)) rec_start"
  unfolding rec_start_def by (rule fsm_reach.construct) simp

lemma rec_reach_do:
  "fsm_reach (traced bench_env) (\<lambda>wt. b_relay (fst wt)) s \<Longrightarrow>
     fsm_reach (traced bench_env) (\<lambda>wt. b_relay (fst wt)) (rec_do r s)"
  unfolding rec_do_def by (rule fsm_reach.request)

lemma rec_reach_pass:
  "fsm_reach (traced bench_env) (\<lambda>wt. b_relay (fst wt)) s \<Longrightarrow>
     fsm_reach (traced bench_env) (\<lambda>wt. b_relay (fst wt)) (rec_pass s)"
  unfolding rec_pass_def by (rule fsm_reach.pass)

lemma rec_reach_at:
  "fsm_reach (traced bench_env) (\<lambda>wt. b_relay (fst wt)) s \<Longrightarrow>
     fsm_reach (traced bench_env) (\<lambda>wt. b_relay (fst wt)) (rec_at sig s)"
  unfolding rec_at_def by (rule fsm_reach.world) simp_all

lemmas rec_reach = rec_reach_do rec_reach_pass rec_reach_at rec_reach_start

lemma rec_reach_charging: "fsm_reach (traced bench_env) (\<lambda>wt. b_relay (fst wt)) rec_charging"
  unfolding rec_charging_def by (intro rec_reach)

interpretation rec_bench: recorded_contract bench_env b_relay
  by (simp add: recorded_contract_def bench_relay_contract)

section \<open>Time and order\<close>

text \<open>C6: The six-second rule. If the power path is still closed after a pass that read a usable
  signal while the PWM was stopped, then the last thing the pass did was to read the
  clock, and that reading was less than 6000 milliseconds after the tick at which the
  countdown started (by unsigned subtraction, so across a wrap of the counter too); and a
  countdown that the stop has started is not started again while the PWM stays off.\<close>

theorem fsm_six_second_rule:
  assumes "relay_contract env relay" "fsm_reach (traced env) (\<lambda>wt. relay (fst wt)) s"
    and "fst (fsm_reading (traced env) s)" "\<not> cur_pwm_running (obj s)"
    and "relay (fst (wld (snd (run_state (fsm_run (traced env)) s))))"
  shows "\<exists>t. last (snd (wld (snd (run_state (fsm_run (traced env)) s)))) = GetTicks t \<and>
     t - ticks_at_start (pwm_stop_countdown (obj (snd (run_state (fsm_run (traced env)) s))))
       < 6000 * clk_ticks_per_ms env \<and>
     (prev_pwm_running (obj s) \<or>
      pwm_stop_countdown (obj (snd (run_state (fsm_run (traced env)) s))) = pwm_stop_countdown (obj s))"
proof -
  have rec: "recorded_contract env relay"
    using assms(1) by (simp add: recorded_contract_def)
  have "relay_inv (\<lambda>wt. relay (fst wt)) s"
    by (rule relay_contract.reach_relay_inv [OF relay_contract_traced [OF assms(1)] assms(2)])
  then show ?thesis
    using recorded_contract.run_deadline [OF rec _ assms(3-5)] reach_period [OF assms(2)]
      run_keeps_pwm_countdown [of s "traced env"] by auto
qed

theorem fsm_six_second_rule_witness:
  "b_relay (fst (wld (rec_pass rec_stopped))) \<and>
   (\<exists>t. last (snd (wld (rec_pass rec_stopped))) = GetTicks t \<and>
      t - ticks_at_start (pwm_stop_countdown (obj rec_stopped)) < 6000)"
proof -
  have "fsm_reach (traced bench_env) (\<lambda>wt. b_relay (fst wt)) rec_stopped"
    unfolding rec_stopped_def by (intro rec_reach rec_reach_charging)
  moreover have "fst (fsm_reading (traced bench_env) rec_stopped)"
      "\<not> cur_pwm_running (obj rec_stopped)" "\<not> prev_pwm_running (obj rec_stopped)"
    by (simp_all add: rec_stopped_eq bench_stopped_eq rec_step_defs fsm_members_def countdown_new_def)
  moreover have "b_relay (fst (wld (rec_pass rec_stopped)))"
    by (simp add: rec_stopped_eq bench_stopped_eq rec_step_defs fsm_members_def countdown_new_def
        fsm_run_switch_def fsm_run_C_def fsm_enter_C_def fsm_run_pwm_stopped_def)
  ultimately show ?thesis
    using fsm_six_second_rule [OF bench_relay_contract, of rec_stopped]
    by (auto simp: rec_pass_def)
qed

text \<open>C8: The host learns about the power path exactly what happens: among the calls of a pass
  there is one PowerOn event when the pass closed the path, one PowerOff event when it
  opened it, and neither when it left it as it was.\<close>

theorem fsm_power_events_truthful:
  assumes "relay_contract env relay"
  shows "power_reports (new_calls s (snd (run_state (fsm_run (traced env)) s))) =
     (if relay (fst (wld s)) = relay (fst (wld (snd (run_state (fsm_run (traced env)) s)))) then []
      else if relay (fst (wld (snd (run_state (fsm_run (traced env)) s)))) then [Event PowerOn]
      else [Event PowerOff])"
proof -
  have "recorded_contract env relay"
    using assms by (simp add: recorded_contract_def)
  from addsD [OF recorded_contract.truthful_run [OF this], of s] show ?thesis
    by (auto simp: truthful_step_def)
qed

theorem fsm_power_events_truthful_witness:
  "power_reports (new_calls (rec_at (bench_signal 0 0) rec_charging)
     (rec_pass (rec_at (bench_signal 0 0) rec_charging))) = [Event PowerOff]"
proof -
  let ?s = "rec_at (bench_signal 0 0) rec_charging"
  have "fst (fsm_reading (traced bench_env) ?s)" "snd (fsm_reading (traced bench_env) ?s) = CP_E"
    by (simp_all add: rec_charging_eq bench_charging_eq rec_step_defs fsm_members_def countdown_new_def)
  then have "\<not> b_relay (fst (wld (snd (run_state (fsm_run (traced bench_env)) ?s))))"
    using relay_contract.run_opens_outside_CD [OF relay_contract_traced [OF bench_relay_contract]
        relay_contract.reach_relay_inv [OF relay_contract_traced [OF bench_relay_contract]
          rec_reach_at [OF rec_reach_charging]]] by simp
  then show ?thesis
    using fsm_power_events_truthful [OF bench_relay_contract, of ?s]
    by (simp add: rec_pass_def rec_at_def rec_charging_eq bench_charging_eq)
qed





section \<open>Delivery\<close>

text \<open>C7: Power is delivered. In a pass with a usable reading of C, or of D with ventilation, with
  the PWM running and the permission given, the power path is closed when the pass ends, or the
  pass has reported that the relay failed.\<close>

theorem fsm_delivers_power:
  assumes "relay_contract env relay" "fst (fsm_reading (traced env) s)"
    and "snd (fsm_reading (traced env) s) = CP_C \<or>
         snd (fsm_reading (traced env) s) = CP_D \<and> has_ventilation (obj s)"
    and "cur_pwm_running (obj s)" "power_on_allowed (obj s)"
  shows "relay (fst (wld (snd (run_state (fsm_run (traced env)) s)))) \<or>
     Event Error_Relais \<in> set (new_calls s (snd (run_state (fsm_run (traced env)) s)))"
proof -
  have "recorded_contract env relay"
    using assms(1) by (simp add: recorded_contract_def)
  from recorded_contract.run_delivers [OF this assms(2-5)] show ?thesis .
qed

theorem fsm_delivers_power_witness:
  "\<exists>s. \<not> b_relay (fst (wld s)) \<and> prev_state (obj s) = CP_B \<and> b_relay (fst (wld (rec_pass s)))"
proof -
  let ?s = "rec_at (bench_signal 6 (- 12))
       (rec_do (Req_allow_power_on True) (rec_do (Req_set_pwm_on (f32_of_fval (f64_lit 1 2)))
         (rec_pass (rec_at (bench_signal 9 9) (rec_do Req_enable rec_start)))))"
  have s: "\<not> b_relay (fst (wld ?s))" "prev_state (obj ?s) = CP_B"
    and due: "fst (fsm_reading (traced bench_env) ?s)" "snd (fsm_reading (traced bench_env) ?s) = CP_C"
      "cur_pwm_running (obj ?s)" "power_on_allowed (obj ?s)"
    and no_error: "Event Error_Relais \<notin> set (new_calls ?s (rec_pass ?s))"
    by (simp_all add: rec_start_eq rec_step_defs fsm_members_def countdown_new_def new_calls_def
      fsm_run_switch_def fsm_run_B_def fsm_run_C_def fsm_enter_C_def fsm_power_on_def fsm_power_off_def
      start_lock_check_def)
  show ?thesis
    using fsm_delivers_power [OF bench_relay_contract due(1) disjI1 [OF due(2)] due(3,4)] s no_error
    unfolding rec_pass_def by blast
qed

section \<open>Observations\<close>

text \<open>A vehicle that is already connected when the machine is enabled is reported as a stop of
  the power request before the plug-in when it shows B; when it shows C, nothing is reported.\<close>

lemma enabled_while_connected:
  assumes "relay_contract env relay" "\<not> relay (fst (wld s))" "prev_state (obj s) = CP_Disabled"
  shows "new_calls s (snd (run_state (fsm_run_B (traced env)) s)) =
      [Event CarRequestedStopPower, Event CarPluggedIn]"
    and "run_state (fsm_enter_C (traced env) (prev_state (obj s))) s = ((), s)"
  using assms(2,3) relay_contract.relay_switch [OF assms(1)] relay_contract.relay_unchanged [OF assms(1)]
  by (simp_all add: fsm_run_B_def fsm_enter_C_def fsm_power_off_def new_calls_def)

text \<open>A vehicle that asks for ventilation while it is charging, where there is none, is reported
  but not disconnected.\<close>

lemma no_ventilation_keeps_charging:
  assumes "relay_contract env relay" "relay (fst (wld s))" "prev_state (obj s) = CP_C"
    and "cur_pwm_running (obj s)" "power_on_allowed (obj s)" "\<not> has_ventilation (obj s)"
  shows "new_calls s (snd (run_state (fsm_run_D (traced env)) s)) = [Event Error_VentilationNotAvailable]"
    and "relay (fst (wld (snd (run_state (fsm_run_D (traced env)) s))))"
  using assms(2-) relay_contract.relay_switch [OF assms(1)] relay_contract.relay_unchanged [OF assms(1)]
  by (simp_all add: fsm_run_D_def fsm_enter_D_def fsm_run_D_powered_def new_calls_def)

end
