(* ===== verification/Sdk.thy ===== *)
theory Sdk
  imports Hal
begin

text \<open>
  What the firmware calls but the repository does not contain: the TI MCU+ SDK and
  FreeRTOS. They are a record of operations over an abstract hardware state \<open>'hw\<close>,
  a parameter of every driver model; the values that SysConfig generates
  (\<open>ti_drivers_config.h\<close>, \<open>ti_dpl_config.h\<close>) are the record \<open>board\<close>. What a
  property needs of them is stated in the contracts below, as the SDK documents it.
\<close>

section \<open>Operations\<close>

datatype semaphore = New_sample_available | Sample_buf_mutex | Raw_cp_signal_mutex | Pending_msgs

text \<open>The destination of an SPI transfer: which half of the sample buffer.\<close>

datatype burst_tbd = HIGH | LOW

record 'hw sdk =
  addr_translate :: "uint32 \<Rightarrow> uint32"
  gpio_set_dir_mode :: "uint32 \<Rightarrow> uint32 \<Rightarrow> uint32 \<Rightarrow> ('hw, unit) state"
  gpio_pin_write_high :: "uint32 \<Rightarrow> uint32 \<Rightarrow> ('hw, unit) state"
  gpio_pin_write_low :: "uint32 \<Rightarrow> uint32 \<Rightarrow> ('hw, unit) state"
  gpio_pin_out_value_read :: "uint32 \<Rightarrow> uint32 \<Rightarrow> ('hw, uint32) state"
  reg32_read :: "uint32 \<Rightarrow> uint32 \<Rightarrow> ('hw, uint32) state"
  reg32_write :: "uint32 \<Rightarrow> uint32 \<Rightarrow> uint32 \<Rightarrow> ('hw, unit) state"
  clock_usleep :: "uint32 \<Rightarrow> ('hw, unit) state"
  clock_get_ticks :: "('hw, uint32) state"
  clock_usec_to_ticks :: "uint32 \<Rightarrow> uint32"
  pinmux_config :: "('hw, unit) state"
  hwi_construct :: "('hw, bool) state"
  sem_create_binary :: "semaphore \<Rightarrow> ('hw, unit) state"
  sem_take :: "semaphore \<Rightarrow> uint32 \<Rightarrow> ('hw, bool) state"
  sem_give :: "semaphore \<Rightarrow> ('hw, bool) state"
  sem_take_from_isr :: "semaphore \<Rightarrow> ('hw, bool) state"
  sem_give_from_isr :: "semaphore \<Rightarrow> ('hw, bool) state"
  mcspi_transaction_init :: "('hw, unit) state"
  mcspi_transfer :: "uint16 list \<Rightarrow> burst_tbd option \<Rightarrow> ('hw, bool) state"
  mcspi_completed :: "('hw, bool) state"
  sem_create_counting :: "nat \<Rightarrow> semaphore \<Rightarrow> ('hw, unit) state"
  ms_to_ticks :: "uint32 \<Rightarrow> uint32"
  rpmessage_announce :: "uint32 \<Rightarrow> string \<Rightarrow> ('hw, bool) state"
  rpmessage_construct :: "uint32 \<Rightarrow> ('hw, bool) state"
  rpmessage_wait_for_linux_ready :: "uint32 \<Rightarrow> ('hw, bool) state"
  task_create :: "string \<Rightarrow> ('hw, bool) state"
  rpmessage_send :: "uint8 list \<Rightarrow> uint16 \<Rightarrow> uint32 \<Rightarrow> ('hw, bool) state"
  rpmessage_recv :: "nat \<Rightarrow> ('hw, (uint8 list \<times> uint16 \<times> uint16) option) state"
  debug_log :: "string \<Rightarrow> ('hw, unit) state"

text \<open>The generated configuration.\<close>

record board =
  enable_base_addr :: uint32
  enable_pin :: uint32
  enable_dir :: uint32
  pwm_timer_base :: uint32
  pwm_timer_input_clk_hz :: uint32
  pwm_timer_input_pre_scaler :: uint32

section \<open>Contracts\<close>

text \<open>
  The output latch of one GPIO pin: writing sets it, reading returns it (zero exactly
  when it is low), configuring the direction and reading do not change it.
\<close>

locale gpio_pin =
  fixes sdk :: "'hw sdk" and base pin :: uint32 and out :: "'hw \<Rightarrow> bool"
  assumes write_high: "out (snd (run_state (gpio_pin_write_high sdk base pin) w))"
    and write_low: "\<not> out (snd (run_state (gpio_pin_write_low sdk base pin) w))"
    and read_out: "(fst (run_state (gpio_pin_out_value_read sdk base pin) w) \<noteq> 0) = out w"
    and read_keeps: "keeps out (gpio_pin_out_value_read sdk base pin)"
begin

lemmas read_unchanged [simp] = read_keeps [THEN keepsD]

lemma read_zero: "(fst (run_state (gpio_pin_out_value_read sdk base pin) w) = 0) = (\<not> out w)"
  using read_out [of w] by blast

end

text \<open>
  The pin that closes the power path is driven by the power switch only: no other SDK
  service the firmware uses touches its latch.
\<close>

locale board_contract = gpio_pin +
  assumes reg_read_keeps: "keeps out (reg32_read sdk b off)"
    and reg_write_keeps: "keeps out (reg32_write sdk b off v)"
    and usleep_keeps: "keeps out (clock_usleep sdk us)"
    and ticks_keeps: "keeps out (clock_get_ticks sdk)"
    and pinmux_keeps: "keeps out (pinmux_config sdk)"
    and hwi_keeps: "keeps out (hwi_construct sdk)"
    and create_binary_keeps: "keeps out (sem_create_binary sdk s)"
    and create_counting_keeps: "keeps out (sem_create_counting sdk n s)"
    and take_keeps: "keeps out (sem_take sdk s t)"
    and give_keeps: "keeps out (sem_give sdk s)"
    and mcspi_init_keeps: "keeps out (mcspi_transaction_init sdk)"
    and announce_keeps: "keeps out (rpmessage_announce sdk ep nm)"
    and construct_keeps: "keeps out (rpmessage_construct sdk ep)"
    and linux_keeps: "keeps out (rpmessage_wait_for_linux_ready sdk t)"
    and send_keeps: "keeps out (rpmessage_send sdk bytes rep t)"
    and recv_keeps: "keeps out (rpmessage_recv sdk n)"
    and task_keeps: "keeps out (task_create sdk nm)"
    and log_keeps: "keeps out (debug_log sdk msg)"
begin

lemmas sdk_keeps =
  read_keeps reg_read_keeps reg_write_keeps usleep_keeps ticks_keeps pinmux_keeps hwi_keeps
  create_binary_keeps create_counting_keeps take_keeps give_keeps mcspi_init_keeps announce_keeps
  construct_keeps linux_keeps send_keeps recv_keeps task_keeps log_keeps

lemmas sdk_unchanged [simp] = sdk_keeps [THEN keepsD]

end

end
