(* ===== verification/Control_Pilot.thy ===== *)
theory Control_Pilot
  imports Sdk
begin

text \<open>
  \<open>class ControlPilot\<close> of \<open>firmware/bsp_drivers/control_pilot.cpp\<close>: the pilot
  signal is produced by a hardware timer whose registers (\<open>timer_pwm_priv.h\<close>) the
  driver programs. The timer counts up from the load value to overflow; it sets the
  output at overflow and clears it at the match value, or drives a constant level
  when no trigger is selected.
\<close>

section \<open>Timer registers\<close>

definition TIMER_IRQSTATUS_OFFSET :: uint32 where "TIMER_IRQSTATUS_OFFSET = 0x28"
definition TIMER_IRQSTATUS_MATCH_FLAG :: uint32 where "TIMER_IRQSTATUS_MATCH_FLAG = 0x1"
definition TIMER_IRQSTATUS_OVERFLOW_FLAG :: uint32 where "TIMER_IRQSTATUS_OVERFLOW_FLAG = 0x2"
definition TIMER_IRQSTATUS_SET_OFFSET :: uint32 where "TIMER_IRQSTATUS_SET_OFFSET = 0x2C"
definition TIMER_TCLR_OFFSET :: uint32 where "TIMER_TCLR_OFFSET = 0x38"
definition TIMER_TLDR_OFFSET :: uint32 where "TIMER_TLDR_OFFSET = 0x40"
definition TIMER_TTGR_OFFSET :: uint32 where "TIMER_TTGR_OFFSET = 0x44"
definition TIMER_TMAR_OFFSET :: uint32 where "TIMER_TMAR_OFFSET = 0x4C"
definition TIMER_TCLR_START_MASK :: uint32 where "TIMER_TCLR_START_MASK = push_bit 0 0x1"
definition TIMER_TCLR_CE_MASK :: uint32 where "TIMER_TCLR_CE_MASK = push_bit 6 0x1"
definition TIMER_TCLR_SCPWM_MASK :: uint32 where "TIMER_TCLR_SCPWM_MASK = push_bit 7 0x1"
definition TIMER_TCLR_TRG_MASK :: uint32 where "TIMER_TCLR_TRG_MASK = push_bit 10 0x3"
definition TIMER_TCLR_TRG_OVERFLOW_AND_MATCH :: uint32 where
  "TIMER_TCLR_TRG_OVERFLOW_AND_MATCH = push_bit 10 0x2"
definition TIMER_TCLR_PT_MASK :: uint32 where "TIMER_TCLR_PT_MASK = push_bit 12 0x1"
definition TIMER_TCLR_PT_TOGGLE :: uint32 where "TIMER_TCLR_PT_TOGGLE = push_bit 12 0x1"
definition TIMER_TCLR_GPO_CFG_MASK :: uint32 where "TIMER_TCLR_GPO_CFG_MASK = push_bit 14 0x1"
definition TIMER_TCLR_GPO_CFG_PWM :: uint32 where "TIMER_TCLR_GPO_CFG_PWM = push_bit 14 0x0"

lemmas timer_regs =
  TIMER_IRQSTATUS_OFFSET_def TIMER_IRQSTATUS_MATCH_FLAG_def TIMER_IRQSTATUS_OVERFLOW_FLAG_def
  TIMER_IRQSTATUS_SET_OFFSET_def TIMER_TCLR_OFFSET_def TIMER_TLDR_OFFSET_def
  TIMER_TTGR_OFFSET_def TIMER_TMAR_OFFSET_def

lemmas tclr_fields =
  TIMER_TCLR_START_MASK_def TIMER_TCLR_CE_MASK_def TIMER_TCLR_SCPWM_MASK_def
  TIMER_TCLR_TRG_MASK_def TIMER_TCLR_TRG_OVERFLOW_AND_MATCH_def TIMER_TCLR_PT_MASK_def
  TIMER_TCLR_PT_TOGGLE_def TIMER_TCLR_GPO_CFG_MASK_def TIMER_TCLR_GPO_CFG_PWM_def

section \<open>The driver\<close>

definition PWM_FREQUENCY_HZ :: uint32 where
  "PWM_FREQUENCY_HZ = 1000"

definition TIMER_TICKS_PER_FULL_PWM_PERIOD :: "board \<Rightarrow> uint32" where
  "TIMER_TICKS_PER_FULL_PWM_PERIOD bd =
     (pwm_timer_input_clk_hz bd div pwm_timer_input_pre_scaler bd) div PWM_FREQUENCY_HZ"

text \<open>The register value that \<open>get_default_tclr\<close> computes from the one it reads.\<close>

definition default_tclr_of :: "uint32 \<Rightarrow> uint32" where
  "default_tclr_of tclr0 =
     (let tclr = tclr0 AND NOT TIMER_TCLR_TRG_MASK;
          tclr = tclr AND NOT TIMER_TCLR_PT_MASK;
          tclr = tclr OR TIMER_TCLR_PT_TOGGLE;
          tclr = tclr AND NOT TIMER_TCLR_GPO_CFG_MASK;
          tclr = tclr OR TIMER_TCLR_GPO_CFG_PWM;
          tclr = tclr AND NOT TIMER_TCLR_CE_MASK;
          tclr = tclr OR push_bit 6 0x1;
          tclr = tclr AND NOT TIMER_TCLR_START_MASK;
          tclr = tclr OR push_bit 0 0x1;
          tclr = tclr AND NOT TIMER_TCLR_SCPWM_MASK
      in tclr)"

definition get_default_tclr :: "'hw sdk \<Rightarrow> board \<Rightarrow> uint32 \<Rightarrow> ('hw, uint32) state" where
  "get_default_tclr sdk bd timer_base_address = do {
     clock_usleep sdk ((4 * 1000000) div pwm_timer_input_clk_hz bd + 1);
     tclr \<leftarrow> reg32_read sdk timer_base_address TIMER_TCLR_OFFSET;
     State_Monad.return (default_tclr_of tclr)
   }"

definition calculate_match_ticks :: "board \<Rightarrow> uint32 \<Rightarrow> uint32" where
  "calculate_match_ticks bd duty_cycle =
     (let duty_cycle = (if 100 < duty_cycle then 100 else duty_cycle)
      in ((100 - duty_cycle) * TIMER_TICKS_PER_FULL_PWM_PERIOD bd) div 100)"

text \<open>The constructor; the member it leaves behind is \<open>DEFAULT_TCLR\<close>.\<close>

definition control_pilot_construct :: "'hw sdk \<Rightarrow> board \<Rightarrow> ('hw, uint32) state" where
  "control_pilot_construct sdk bd = do {
     let base = pwm_timer_base bd;
     default_tclr \<leftarrow> get_default_tclr sdk bd base;
     reg32_write sdk base TIMER_IRQSTATUS_SET_OFFSET
       (TIMER_IRQSTATUS_MATCH_FLAG OR TIMER_IRQSTATUS_OVERFLOW_FLAG);
     reg32_write sdk base TIMER_TLDR_OFFSET (0xFFFFFFFF - TIMER_TICKS_PER_FULL_PWM_PERIOD bd + 1);
     reg32_write sdk base TIMER_TMAR_OFFSET (0xFFFFFFFF - calculate_match_ticks bd 50 + 1);
     reg32_write sdk base TIMER_TTGR_OFFSET 0xFFFFFFFF;
     reg32_write sdk base TIMER_TCLR_OFFSET default_tclr;
     pinmux_config sdk;
     ignore (hwi_construct sdk);
     State_Monad.return default_tclr
   }"

text \<open>
  \<open>set_pwm\<close> passes \<open>100 * duty_cycle\<close> to a \<open>uint32_t\<close> parameter. Where that
  conversion is undefined (NaN, infinity, or a value that does not fit), \<open>ub\<close> stands
  for whatever the compiled code produces.
\<close>

definition float_to_uint32 :: "(float32 \<Rightarrow> uint32) \<Rightarrow> float32 \<Rightarrow> uint32" where
  "float_to_uint32 ub x = (case f32_to_uint32 x of Some i \<Rightarrow> i | None \<Rightarrow> ub x)"

definition duty_percent :: "(float32 \<Rightarrow> uint32) \<Rightarrow> float32 \<Rightarrow> uint32" where
  "duty_percent ub duty_cycle =
     (let duty_cycle = (if f32_less duty_cycle (f32_of_int 0) then f32_of_int 0 else duty_cycle)
      in float_to_uint32 ub (f32_mult (f32_of_int 100) duty_cycle))"

definition control_pilot_set_pwm ::
  "(float32 \<Rightarrow> uint32) \<Rightarrow> 'hw sdk \<Rightarrow> board \<Rightarrow> uint32 \<Rightarrow> float32 \<Rightarrow> ('hw, unit) state" where
  "control_pilot_set_pwm ub sdk bd default_tclr duty_cycle = do {
     let match_ticks = calculate_match_ticks bd (duty_percent ub duty_cycle);
     let base = pwm_timer_base bd;
     tclr \<leftarrow>
       (if match_ticks = 0 then State_Monad.return (default_tclr OR push_bit 7 0x1)
        else if TIMER_TICKS_PER_FULL_PWM_PERIOD bd \<le> match_ticks then State_Monad.return default_tclr
        else do {
          reg32_write sdk base TIMER_TMAR_OFFSET (0xFFFFFFFF - match_ticks + 1);
          State_Monad.return (default_tclr OR TIMER_TCLR_TRG_OVERFLOW_AND_MATCH)
        });
     reg32_write sdk base TIMER_TCLR_OFFSET tclr
   }"

definition control_pilot_enable ::
  "(float32 \<Rightarrow> uint32) \<Rightarrow> 'hw sdk \<Rightarrow> board \<Rightarrow> uint32 \<Rightarrow> ('hw, unit) state" where
  "control_pilot_enable ub sdk bd default_tclr =
     control_pilot_set_pwm ub sdk bd default_tclr (f32_of_int 1)"

definition control_pilot_disable ::
  "(float32 \<Rightarrow> uint32) \<Rightarrow> 'hw sdk \<Rightarrow> board \<Rightarrow> uint32 \<Rightarrow> ('hw, unit) state" where
  "control_pilot_disable ub sdk bd default_tclr =
     control_pilot_set_pwm ub sdk bd default_tclr (f32_of_int 0)"

end
