(* ===== verification/Ring_Buffer.thy ===== *)
theory Ring_Buffer
  imports Evse_Prelude
begin

text \<open>
  \<open>struct AveragingRingBuffer\<close> of \<open>firmware/bsp_drivers/sampler.hpp\<close> and
  \<open>sampler.cpp\<close>: the last \<open>CP_SAMPLE_SIZE\<close> samples, their average and the number of
  samples that deviate too far from it. The window a client relies on is stated as a
  locale and the structure is shown to provide it.
\<close>

definition CP_SAMPLE_SIZE :: nat where "CP_SAMPLE_SIZE = 10"

record ring_buffer =
  rb_filled :: bool
  rb_average :: uint32
  rb_misfits_count :: uint16
  rb_cur_idx :: uint16
  rb_values :: "uint16 list"
  rb_max_deviation :: uint16

definition ring_buffer_new :: "uint16 \<Rightarrow> ring_buffer" where
  "ring_buffer_new max_deviation =
     \<lparr> rb_filled = False, rb_average = 0, rb_misfits_count = 0, rb_cur_idx = 0,
       rb_values = replicate CP_SAMPLE_SIZE 0, rb_max_deviation = max_deviation \<rparr>"

text \<open>The two loops of \<open>add_value\<close>.\<close>

fun sum_values :: "uint32 \<Rightarrow> uint16 list \<Rightarrow> uint32" where
  "sum_values average [] = average"
| "sum_values average (v # vs) = sum_values (average + ucast v) vs"

definition deviation :: "uint32 \<Rightarrow> uint16 \<Rightarrow> uint16" where
  "deviation average val =
     (if average < ucast val then ucast (ucast val - average)
      else ucast (average - ucast val))"

fun count_misfits :: "uint16 \<Rightarrow> uint32 \<Rightarrow> uint16 \<Rightarrow> uint16 list \<Rightarrow> uint16" where
  "count_misfits max_dev average n [] = n"
| "count_misfits max_dev average n (v # vs) =
     count_misfits max_dev average (if max_dev < deviation average v then n + 1 else n) vs"

definition ring_buffer_add_value :: "uint16 \<Rightarrow> ring_buffer \<Rightarrow> ring_buffer" where
  "ring_buffer_add_value new_value b =
     (let values = (rb_values b)[unat (rb_cur_idx b) := new_value];
          idx = rb_cur_idx b + 1;
          (idx, filled) = (if idx = of_nat CP_SAMPLE_SIZE then (0, True) else (idx, rb_filled b));
          average = sum_values 0 values div of_nat CP_SAMPLE_SIZE;
          misfits = count_misfits (rb_max_deviation b) average 0 values
      in b\<lparr>rb_values := values, rb_cur_idx := idx, rb_filled := filled,
           rb_average := average, rb_misfits_count := misfits\<rparr>)"

section \<open>Arithmetic of the loops\<close>

lemma sum_values_exact:
  assumes "unat acc + length vs * 65535 < 2 ^ 32"
  shows "unat (sum_values acc vs) = unat acc + (\<Sum>v\<leftarrow>vs. unat v)"
  using assms
proof (induction vs arbitrary: acc)
  case Nil
  then show ?case by simp
next
  case (Cons v vs)
  have v: "unat v \<le> 65535"
    using unat_uint16_less [of v] by linarith
  have add: "unat (acc + ucast v :: uint32) = unat acc + unat v"
    using Cons.prems v by (simp add: unat_word_ariths)
  have "unat (acc + ucast v :: uint32) + length vs * 65535 < 2 ^ 32"
    using Cons.prems v add by simp
  from Cons.IH [OF this] show ?case
    using add by simp
qed

lemma sum_list_bound: "(\<Sum>v\<leftarrow>vs. unat (v :: uint16)) \<le> length vs * 65535"
proof (induction vs)
  case Nil
  then show ?case by simp
next
  case (Cons v vs)
  then show ?case using unat_uint16_less [of v] by (simp del: unat_uint16_less)
qed

text \<open>
  Both operands of the subtraction in \<open>deviation\<close> fit 16 bits, so the truncation of
  its result loses nothing.
\<close>

lemma deviation_exact:
  assumes "unat average < 65536"
  shows "unat (deviation average val) =
     (if unat average < unat val then unat val - unat average else unat average - unat val)"
proof -
  have narrow: "unat (ucast (x :: uint32) :: uint16) = unat x" if "unat x < 65536" for x
    using that by (simp add: unsigned_ucast_eq take_bit_nat_eq_self)
  have val: "unat (ucast val :: uint32) = unat val" "unat val < 65536"
    using unat_uint16_less [of val] by simp_all
  show ?thesis
  proof (cases "average < ucast val")
    case True
    then have "unat (ucast val - average) = unat val - unat average"
      using val by (simp add: unat_sub word_less_nat_alt word_le_nat_alt)
    moreover have "unat val - unat average < 65536"
      using val(2) by linarith
    ultimately show ?thesis
      using True val(1) narrow [of "ucast val - average"]
      by (simp only: deviation_def word_less_nat_alt if_True)
  next
    case False
    then have "unat (average - ucast val) = unat average - unat val"
      using val by (simp add: unat_sub word_less_nat_alt word_le_nat_alt)
    then show ?thesis
      using False assms val narrow [of "average - ucast val"]
      by (simp add: deviation_def word_less_nat_alt)
  qed
qed

lemma count_misfits_exact:
  assumes "unat n + length vs < 65536"
  shows "unat (count_misfits max_dev average n vs) =
     unat n + length (filter (\<lambda>v. max_dev < deviation average v) vs)"
  using assms
proof (induction vs arbitrary: n)
  case Nil
  then show ?case by simp
next
  case (Cons v vs)
  have "unat (n + 1) = Suc (unat n)"
    using Cons.prems by (simp add: unat_word_ariths)
  then show ?case
    using Cons by simp
qed

section \<open>Well-formed buffers\<close>

definition ring_buffer_ok :: "ring_buffer \<Rightarrow> bool" where
  "ring_buffer_ok b \<longleftrightarrow>
     length (rb_values b) = CP_SAMPLE_SIZE \<and> unat (rb_cur_idx b) < CP_SAMPLE_SIZE"

lemma ring_buffer_new_ok: "ring_buffer_ok (ring_buffer_new d)"
  by (simp add: ring_buffer_ok_def ring_buffer_new_def CP_SAMPLE_SIZE_def)

lemma cur_idx_advance:
  assumes "unat (i :: uint16) < 10"
  shows "(i + 1 = 10) = (unat i = 9)" and "unat i < 9 \<Longrightarrow> unat (i + 1) = Suc (unat i)"
  using assms by (auto simp: word_unat_eq_iff unat_word_ariths)

lemma ring_buffer_add_value_ok:
  assumes "ring_buffer_ok b"
  shows "ring_buffer_ok (ring_buffer_add_value v b)"
  using assms cur_idx_advance [of "rb_cur_idx b"]
  by (auto simp: ring_buffer_ok_def ring_buffer_add_value_def Let_def CP_SAMPLE_SIZE_def)

text \<open>The samples in the order they were added, oldest first.\<close>

definition window :: "ring_buffer \<Rightarrow> uint16 list" where
  "window b = drop (unat (rb_cur_idx b)) (rb_values b) @ take (unat (rb_cur_idx b)) (rb_values b)"

lemma length_window: "length (window b) = length (rb_values b)"
  by (simp add: window_def)

lemma window_new: "window (ring_buffer_new d) = replicate CP_SAMPLE_SIZE 0"
  by (simp add: window_def ring_buffer_new_def)

lemma rotate_update:
  assumes "i < length xs"
  shows "drop (Suc i) (xs[i := v]) @ take (Suc i) (xs[i := v]) = tl (drop i xs @ take i xs) @ [v]"
  using assms by (simp add: take_Suc_conv_app_nth Cons_nth_drop_Suc [symmetric])

lemma window_add_value:
  assumes "ring_buffer_ok b"
  shows "window (ring_buffer_add_value v b) = tl (window b) @ [v]"
proof -
  let ?i = "unat (rb_cur_idx b)"
  have i: "?i < length (rb_values b)" and len: "length (rb_values b) = 10"
    using assms by (simp_all add: ring_buffer_ok_def CP_SAMPLE_SIZE_def)
  note adv = cur_idx_advance [of "rb_cur_idx b"]
  have "window (ring_buffer_add_value v b) =
      drop (Suc ?i) ((rb_values b)[?i := v]) @ take (Suc ?i) ((rb_values b)[?i := v])"
    using i len adv
    by (auto simp: window_def ring_buffer_add_value_def Let_def CP_SAMPLE_SIZE_def)
  then show ?thesis
    using rotate_update [OF i, of v] by (simp add: window_def)
qed

section \<open>The statistics a client reads\<close>

definition window_average :: "uint16 list \<Rightarrow> nat" where
  "window_average vs = (\<Sum>v\<leftarrow>vs. unat v) div length vs"

definition window_misfits :: "uint16 \<Rightarrow> uint16 list \<Rightarrow> nat" where
  "window_misfits max_dev vs =
     length (filter (\<lambda>v. unat max_dev <
        (let a = window_average vs in if a < unat v then unat v - a else a - unat v)) vs)"

text \<open>
  What a client of the buffer relies on: a fixed-size window of the latest samples
  and the two statistics of that window.
\<close>

locale averaging_window =
  fixes new :: "uint16 \<Rightarrow> 'b" and add :: "uint16 \<Rightarrow> 'b \<Rightarrow> 'b"
    and ok :: "'b \<Rightarrow> bool" and recent :: "'b \<Rightarrow> uint16 list"
    and average misfits :: "'b \<Rightarrow> nat" and limit :: "'b \<Rightarrow> uint16" and size :: nat
  assumes size_pos: "0 < size"
    and new_ok: "ok (new d)"
    and new_recent: "recent (new d) = replicate size 0"
    and new_limit: "limit (new d) = d"
    and add_limit: "limit (add v b) = limit b"
    and add_ok: "ok b \<Longrightarrow> ok (add v b)"
    and add_recent: "ok b \<Longrightarrow> recent (add v b) = tl (recent b) @ [v]"
    and add_average: "ok b \<Longrightarrow> average (add v b) = window_average (recent (add v b))"
    and add_misfits: "ok b \<Longrightarrow> misfits (add v b) = window_misfits (limit b) (recent (add v b))"
begin

definition add_all :: "uint16 list \<Rightarrow> 'b \<Rightarrow> 'b" where
  "add_all vs b = fold add vs b"

lemma add_all_ok: "ok b \<Longrightarrow> ok (add_all vs b)"
  by (induction vs arbitrary: b) (simp_all add: add_all_def add_ok)

lemma add_all_recent:
  assumes "ok b" "length (recent b) = size"
  shows "recent (add_all vs b) = drop (length vs) (recent b @ vs)"
  using assms
proof (induction vs arbitrary: b)
  case Nil
  then show ?case by (simp add: add_all_def)
next
  case (Cons v vs)
  have ne: "recent b \<noteq> []"
    using Cons.prems size_pos by auto
  have "recent (add_all (v # vs) b) = recent (add_all vs (add v b))"
    by (simp add: add_all_def)
  also have "\<dots> = drop (length vs) (recent (add v b) @ vs)"
    using Cons.IH [of "add v b"] Cons.prems ne size_pos by (simp add: add_ok add_recent)
  also have "\<dots> = drop (length (v # vs)) (recent b @ v # vs)"
    using Cons.prems ne by (cases "recent b") (auto simp: add_recent)
  finally show ?case .
qed

text \<open>After at least \<open>size\<close> samples the window is exactly the latest \<open>size\<close> of them.\<close>

lemma recent_after:
  assumes "size \<le> length vs"
  shows "recent (add_all vs (new d)) = drop (length vs - size) vs"
  using assms add_all_recent [OF new_ok, of d vs] by (simp add: new_recent)

end

section \<open>The structure provides the window\<close>

lemma window_average_values: "window_average (window b) = window_average (rb_values b)"
proof -
  have "(\<Sum>v\<leftarrow>rb_values b. unat v) =
     (\<Sum>v\<leftarrow>take (unat (rb_cur_idx b)) (rb_values b) @ drop (unat (rb_cur_idx b)) (rb_values b). unat v)"
    by simp
  then show ?thesis
    unfolding window_average_def length_window by (simp add: window_def add.commute del: append_take_drop_id)
qed

lemma filter_window: "length (filter p (window b)) = length (filter p (rb_values b))"
proof -
  have "length (filter p (rb_values b)) =
     length (filter p (take (unat (rb_cur_idx b)) (rb_values b) @
                       drop (unat (rb_cur_idx b)) (rb_values b)))"
    by simp
  then show ?thesis
    by (simp add: window_def del: append_take_drop_id)
qed

lemma window_average_less: "vs \<noteq> [] \<Longrightarrow> window_average vs < 65536"
  using sum_list_bound [of vs] div_le_mono [OF sum_list_bound, of vs "length vs"]
  by (simp add: window_average_def)

lemma add_value_average:
  assumes "ring_buffer_ok b"
  shows "unat (rb_average (ring_buffer_add_value v b)) =
     window_average (window (ring_buffer_add_value v b))"
proof -
  let ?vs = "rb_values (ring_buffer_add_value v b)"
  have len: "length ?vs = 10"
    using ring_buffer_add_value_ok [OF assms] by (simp add: ring_buffer_ok_def CP_SAMPLE_SIZE_def)
  have "rb_average (ring_buffer_add_value v b) = sum_values 0 ?vs div 10"
    by (simp add: ring_buffer_add_value_def Let_def CP_SAMPLE_SIZE_def split: prod.split)
  then show ?thesis
    using sum_values_exact [of 0 ?vs] len
    unfolding window_average_values by (simp add: window_average_def unat_div)
qed

lemma add_value_misfits:
  assumes "ring_buffer_ok b"
  shows "unat (rb_misfits_count (ring_buffer_add_value v b)) =
     window_misfits (rb_max_deviation b) (window (ring_buffer_add_value v b))"
proof -
  let ?b = "ring_buffer_add_value v b"
  have ok: "ring_buffer_ok ?b"
    by (rule ring_buffer_add_value_ok [OF assms])
  then have len: "length (rb_values ?b) = 10"
    by (simp add: ring_buffer_ok_def CP_SAMPLE_SIZE_def)
  have avg: "unat (rb_average ?b) = window_average (window ?b)"
    by (rule add_value_average [OF assms])
  have "window ?b \<noteq> []"
    using len length_window [of ?b] by auto
  then have small: "unat (rb_average ?b) < 65536"
    using window_average_less [of "window ?b"] avg by simp
  have "rb_misfits_count ?b =
      count_misfits (rb_max_deviation b) (rb_average ?b) 0 (rb_values ?b)"
    by (simp add: ring_buffer_add_value_def Let_def split: prod.split)
  then show ?thesis
    using count_misfits_exact [of 0 "rb_values ?b" "rb_max_deviation b" "rb_average ?b"] len
    by (simp add: window_misfits_def filter_window word_less_nat_alt deviation_exact [OF small]
        avg Let_def)
qed

lemma max_deviation_add [simp]:
  "rb_max_deviation (ring_buffer_add_value v b) = rb_max_deviation b"
  by (simp add: ring_buffer_add_value_def Let_def split: prod.split)

interpretation rb: averaging_window ring_buffer_new ring_buffer_add_value ring_buffer_ok window
    "\<lambda>b. unat (rb_average b)" "\<lambda>b. unat (rb_misfits_count b)" rb_max_deviation CP_SAMPLE_SIZE
  by unfold_locales
    (simp_all add: ring_buffer_new_ok window_new window_add_value ring_buffer_add_value_ok
      add_value_average add_value_misfits max_deviation_add CP_SAMPLE_SIZE_def,
     simp add: ring_buffer_new_def)

section \<open>When the buffer counts as filled\<close>

lemma add_value_idx_filled:
  assumes "unat (rb_cur_idx b) < 10"
  shows "unat (rb_cur_idx (ring_buffer_add_value v b)) = Suc (unat (rb_cur_idx b)) mod 10"
    and "rb_filled (ring_buffer_add_value v b) = (rb_filled b \<or> unat (rb_cur_idx b) = 9)"
proof -
  note adv = cur_idx_advance [OF assms]
  consider "unat (rb_cur_idx b) = 9" | "unat (rb_cur_idx b) < 9"
    using assms by linarith
  then show "unat (rb_cur_idx (ring_buffer_add_value v b)) = Suc (unat (rb_cur_idx b)) mod 10"
    by cases (use adv in \<open>simp_all add: ring_buffer_add_value_def Let_def CP_SAMPLE_SIZE_def\<close>)
  show "rb_filled (ring_buffer_add_value v b) = (rb_filled b \<or> unat (rb_cur_idx b) = 9)"
    using adv by (simp add: ring_buffer_add_value_def Let_def CP_SAMPLE_SIZE_def)
qed

lemma add_all_idx_filled:
  "unat (rb_cur_idx (rb.add_all vs (ring_buffer_new d))) = length vs mod 10 \<and>
   rb_filled (rb.add_all vs (ring_buffer_new d)) = (10 \<le> length vs)"
proof (induction vs rule: rev_induct)
  case Nil
  then show ?case by (simp add: rb.add_all_def ring_buffer_new_def)
next
  case (snoc v vs)
  let ?b = "rb.add_all vs (ring_buffer_new d)"
  have step: "rb.add_all (vs @ [v]) (ring_buffer_new d) = ring_buffer_add_value v ?b"
    by (simp add: rb.add_all_def)
  have lt: "unat (rb_cur_idx ?b) < 10"
    using snoc by simp
  have "(10 \<le> Suc (length vs)) = (10 \<le> length vs \<or> length vs mod 10 = 9)"
    by presburger
  then show ?case
    using snoc add_value_idx_filled [OF lt, of v] by (simp only: step) (simp add: mod_Suc_eq)
qed

end
