(* ===== verification/Sampler.thy ===== *)
theory Sampler
  imports Control_Pilot Ring_Buffer
begin

text \<open>
  \<open>class Sampler\<close> of \<open>firmware/bsp_drivers/sampler.cpp\<close> and the timer interrupt of
  \<open>control_pilot.cpp\<close> that triggers it. The object and the counters of the two
  files live beside the hardware in the record \<open>drv\<close>; the sampling task's loop body
  is given as one computation here, and split at its semaphores in
  \<open>Sampler_Tasks\<close>.
\<close>

section \<open>Configuration\<close>

definition SPI_BURST_ADC_READS :: nat where "SPI_BURST_ADC_READS = 3"
definition CP_SAMPLE_MAX_DEVIATION :: uint16 where "CP_SAMPLE_MAX_DEVIATION = 400"
definition CP_SAMPLE_MAX_MISFITS :: uint16 where "CP_SAMPLE_MAX_MISFITS = 1"
definition PP_SAMPLE_MAX_DEVIATION :: uint16 where "PP_SAMPLE_MAX_DEVIATION = 500"
definition ADC_RESOLUTION :: nat where "ADC_RESOLUTION = 12"
definition ADC_SELECT_CHANNEL_1 :: uint16 where "ADC_SELECT_CHANNEL_1 = push_bit 8 0x00"
definition ADC_SELECT_CHANNEL_2 :: uint16 where "ADC_SELECT_CHANNEL_2 = push_bit 8 0x08"

lemmas sampler_config =
  SPI_BURST_ADC_READS_def CP_SAMPLE_MAX_DEVIATION_def CP_SAMPLE_MAX_MISFITS_def
  PP_SAMPLE_MAX_DEVIATION_def ADC_RESOLUTION_def ADC_SELECT_CHANNEL_1_def
  ADC_SELECT_CHANNEL_2_def

text \<open>
  The \<open>constexpr float\<close> constants: an initialiser with a \<open>double\<close> literal is
  computed in \<open>double\<close> and narrowed once.
\<close>

definition ADC_CHANNEL_1_R1 :: float32 where "ADC_CHANNEL_1_R1 = f32_of_int 200"
definition ADC_CHANNEL_1_R2 :: float32 where "ADC_CHANNEL_1_R2 = f32_of_int 56"
definition ADC_CHANNEL_1_R3 :: float32 where "ADC_CHANNEL_1_R3 = f32_of_fval (f64_lit 665 10)"

definition f64_recip :: "float32 \<Rightarrow> fval" where
  "f64_recip x = fval_div f64_round_ratio (f64_of_int 1) (f32_decode x)"

definition ADC_CHANNEL_1_R1R2R3_parallel :: float32 where
  "ADC_CHANNEL_1_R1R2R3_parallel =
     f32_of_fval (fval_div f64_round_ratio (f64_of_int 1)
       (f64_round (fval_add
          (f64_round (fval_add (f64_recip ADC_CHANNEL_1_R1) (f64_recip ADC_CHANNEL_1_R2)))
          (f64_recip ADC_CHANNEL_1_R3))))"

definition ADC_CHANNEL_1_SCALE :: float32 where
  "ADC_CHANNEL_1_SCALE =
     f32_of_fval (f64_round (fval_mult
       (f32_decode (f32_div ADC_CHANNEL_1_R1 ADC_CHANNEL_1_R1R2R3_parallel)) (f64_lit 33 10)))"

definition ADC_CHANNEL_1_OFFSET :: float32 where
  "ADC_CHANNEL_1_OFFSET =
     f32_of_fval (fval_div f64_round_ratio
       (f64_round (fval_mult (fval_neg (f64_lit 33 10)) (f32_decode ADC_CHANNEL_1_R1)))
       (f32_decode ADC_CHANNEL_1_R2))"

section \<open>The object\<close>

record burst_adc_samples =
  high_samples :: "uint16 list"
  low_samples :: "uint16 list"
  tbd :: burst_tbd
  high_done :: bool
  low_done :: bool

record combined_adc_sample =
  sample_cp :: uint16
  sample_pp :: uint16

record raw_cp_signal =
  raw_high :: uint16
  raw_low :: uint16
  raw_valid :: bool

text \<open>\<open>rx_buf\<close> is \<open>transaction.rxBuf\<close>: which of the two sample arrays it points to.\<close>

record sampler =
  adc_sample_write_access_aquired :: bool
  adc_spi_commands :: "uint16 list"
  rx_buf :: "burst_tbd option"
  adc_sample :: burst_adc_samples
  cp_high_avg :: ring_buffer
  cp_low_avg :: ring_buffer
  pp_avg :: ring_buffer
  raw_signal :: raw_cp_signal

record 'hw drv =
  hw :: 'hw
  smp :: sampler
  sigs :: uint32
  adcs :: uint32
  ovfls :: uint32
  matchs :: uint32

definition on_hw :: "('hw, 'a) state \<Rightarrow> ('hw drv, 'a) state" where
  "on_hw m = State (\<lambda>d. case run_state m (hw d) of (a, w) \<Rightarrow> (a, d\<lparr>hw := w\<rparr>))"

definition on_smp :: "(sampler \<Rightarrow> sampler) \<Rightarrow> ('hw drv, unit) state" where
  "on_smp f = modify (\<lambda>d. d\<lparr>smp := f (smp d)\<rparr>)"

definition smp_member :: "(sampler \<Rightarrow> 'a) \<Rightarrow> ('hw drv, 'a) state" where
  "smp_member f = gets (\<lambda>d. f (smp d))"

lemma run_on_hw [simp]:
  "run_state (on_hw m) d =
     (fst (run_state m (hw d)), d\<lparr>hw := snd (run_state m (hw d))\<rparr>)"
  by (simp add: on_hw_def split: prod.splits)

lemma run_on_smp [simp]: "run_state (on_smp f) d = ((), d\<lparr>smp := f (smp d)\<rparr>)"
  by (simp add: on_smp_def)

lemma run_smp_member [simp]: "run_state (smp_member f) d = (f (smp d), d)"
  by (simp add: smp_member_def)

text \<open>
  The constructor. What it leaves uninitialised (the sample arrays, \<open>tbd\<close>, the raw
  signal and its \<open>valid\<close> flag) is whatever the object's storage held, \<open>junk\<close>.
\<close>

definition sampler_construct :: "'hw sdk \<Rightarrow> sampler \<Rightarrow> ('hw drv, unit) state" where
  "sampler_construct sdk junk = do {
     on_smp (\<lambda>_. junk\<lparr>
       adc_sample_write_access_aquired := False,
       adc_spi_commands := [ADC_SELECT_CHANNEL_1, ADC_SELECT_CHANNEL_2, ADC_SELECT_CHANNEL_1],
       rx_buf := None,
       adc_sample := (adc_sample junk)\<lparr>high_done := False, low_done := False\<rparr>,
       cp_high_avg := ring_buffer_new CP_SAMPLE_MAX_DEVIATION,
       cp_low_avg := ring_buffer_new CP_SAMPLE_MAX_DEVIATION,
       pp_avg := ring_buffer_new PP_SAMPLE_MAX_DEVIATION\<rparr>);
     on_hw (mcspi_transaction_init sdk);
     on_hw (sem_create_binary sdk New_sample_available);
     on_hw (sem_create_binary sdk Sample_buf_mutex);
     ignore (on_hw (sem_give sdk Sample_buf_mutex));
     on_hw (sem_create_binary sdk Raw_cp_signal_mutex);
     ignore (on_hw (sem_give sdk Raw_cp_signal_mutex))
   }"

section \<open>Interrupt context\<close>

definition aquire_adc_sample_write_access :: "'hw sdk \<Rightarrow> ('hw drv, bool) state" where
  "aquire_adc_sample_write_access sdk = on_hw (sem_take_from_isr sdk Sample_buf_mutex)"

definition release_adc_sample_write_access :: "'hw sdk \<Rightarrow> ('hw drv, unit) state" where
  "release_adc_sample_write_access sdk = do {
     on_smp (adc_sample_write_access_aquired_update (\<lambda>_. False));
     ignore (on_hw (sem_give_from_isr sdk Sample_buf_mutex));
     ignore (on_hw (sem_give_from_isr sdk New_sample_available))
   }"

definition adc_spi_cb :: "'hw sdk \<Rightarrow> ('hw drv, unit) state" where
  "adc_spi_cb sdk = do {
     modify (adcs_update (\<lambda>n. n + 1));
     on_smp (adc_sample_update (\<lambda>a.
       case tbd a of HIGH \<Rightarrow> a\<lparr>high_done := True\<rparr> | LOW \<Rightarrow> a\<lparr>low_done := True\<rparr>));
     sample \<leftarrow> smp_member adc_sample;
     if_then (low_done sample \<and> high_done sample) (release_adc_sample_write_access sdk)
   }"

definition tbd_of :: "bool \<Rightarrow> burst_tbd" where
  "tbd_of is_high = (if is_high then HIGH else LOW)"

text \<open>The part after the sample has been chosen: point the transaction at it and start.\<close>

definition start_adc_transfer :: "'hw sdk \<Rightarrow> ('hw drv, unit) state" where
  "start_adc_transfer sdk = do {
     on_smp (\<lambda>o'. o'\<lparr>rx_buf := Some (tbd (adc_sample o'))\<rparr>);
     cmds \<leftarrow> smp_member adc_spi_commands;
     rx \<leftarrow> smp_member rx_buf;
     ignore (on_hw (mcspi_transfer sdk cmds rx))
   }"

definition trigger_adc_readout :: "'hw sdk \<Rightarrow> bool \<Rightarrow> ('hw drv, unit) state" where
  "trigger_adc_readout sdk is_high = do {
     completed \<leftarrow> on_hw (mcspi_completed sdk);
     if \<not> completed then State_Monad.return ()
     else do {
       aquired \<leftarrow> smp_member adc_sample_write_access_aquired;
       if \<not> aquired then do {
         got \<leftarrow> aquire_adc_sample_write_access sdk;
         if \<not> got then State_Monad.return ()
         else do {
           on_smp (\<lambda>o'. o'\<lparr>adc_sample_write_access_aquired := True,
             adc_sample := (adc_sample o')\<lparr>tbd := tbd_of is_high, high_done := False,
                                          low_done := False\<rparr>\<rparr>);
           start_adc_transfer sdk
         }
       } else do {
         sample \<leftarrow> smp_member adc_sample;
         if (high_done sample \<and> is_high) \<or> (low_done sample \<and> \<not> is_high)
         then State_Monad.return ()
         else do {
           on_smp (adc_sample_update (\<lambda>a. a\<lparr>tbd := tbd_of is_high\<rparr>));
           start_adc_transfer sdk
         }
       }
     }
   }"

definition trigger_high :: "'hw sdk \<Rightarrow> ('hw drv, unit) state" where
  "trigger_high sdk = trigger_adc_readout sdk True"

definition trigger_low :: "'hw sdk \<Rightarrow> ('hw drv, unit) state" where
  "trigger_low sdk = trigger_adc_readout sdk False"

definition pwm_timer_isr :: "'hw sdk \<Rightarrow> board \<Rightarrow> ('hw drv, unit) state" where
  "pwm_timer_isr sdk bd = do {
     irq_status \<leftarrow> on_hw (reg32_read sdk (pwm_timer_base bd) TIMER_IRQSTATUS_OFFSET);
     if irq_status AND TIMER_IRQSTATUS_OVERFLOW_FLAG \<noteq> 0 then do {
       modify (ovfls_update (\<lambda>n. n + 1));
       trigger_high sdk;
       on_hw (reg32_write sdk (pwm_timer_base bd) TIMER_IRQSTATUS_OFFSET TIMER_IRQSTATUS_OVERFLOW_FLAG)
     } else if_then (irq_status AND TIMER_IRQSTATUS_MATCH_FLAG \<noteq> 0) (do {
       modify (matchs_update (\<lambda>n. n + 1));
       trigger_low sdk;
       on_hw (reg32_write sdk (pwm_timer_base bd) TIMER_IRQSTATUS_OFFSET TIMER_IRQSTATUS_MATCH_FLAG)
     })
   }"

section \<open>Task context\<close>

definition portMAX_DELAY :: uint32 where "portMAX_DELAY = 0xFFFFFFFF"

definition decode_burst_adc_samples :: "uint16 list \<Rightarrow> combined_adc_sample" where
  "decode_burst_adc_samples buffer = \<lparr> sample_cp = buffer ! 1, sample_pp = buffer ! 2 \<rparr>"

text \<open>\<open>ADC_CHANNEL_1_OFFSET + (ADC_CHANNEL_1_SCALE * raw) / (1 << ADC_RESOLUTION)\<close>.\<close>

definition cp_volts :: "uint16 \<Rightarrow> float32" where
  "cp_volts raw =
     f32_add ADC_CHANNEL_1_OFFSET
       (f32_div (f32_mult ADC_CHANNEL_1_SCALE (f32_of_int (uint raw)))
          (f32_of_int (2 ^ ADC_RESOLUTION)))"

text \<open>The local \<open>cp_signal\<close> is uninitialised; its voltages stay so when the signal is invalid.\<close>

definition cp_signal_of_raw :: "cp_signal \<Rightarrow> raw_cp_signal \<Rightarrow> cp_signal" where
  "cp_signal_of_raw junk raw =
     (if raw_valid raw
      then junk\<lparr>cp_valid := True, cp_high := cp_volts (raw_high raw), cp_low := cp_volts (raw_low raw)\<rparr>
      else junk\<lparr>cp_valid := False\<rparr>)"

definition get_latest_cp_signal :: "'hw sdk \<Rightarrow> cp_signal \<Rightarrow> ('hw drv, cp_signal) state" where
  "get_latest_cp_signal sdk junk = do {
     ignore (on_hw (sem_take sdk Raw_cp_signal_mutex portMAX_DELAY));
     raw \<leftarrow> smp_member raw_signal;
     let sig = cp_signal_of_raw junk raw;
     ignore (on_hw (sem_give sdk Raw_cp_signal_mutex));
     State_Monad.return sig
   }"

definition add_averages :: "combined_adc_sample \<Rightarrow> combined_adc_sample \<Rightarrow> sampler \<Rightarrow> sampler" where
  "add_averages high low o' =
     o'\<lparr>cp_high_avg := ring_buffer_add_value (sample_cp high) (cp_high_avg o'),
        cp_low_avg := ring_buffer_add_value (sample_cp low) (cp_low_avg o'),
        pp_avg := ring_buffer_add_value (sample_pp high) (pp_avg o')\<rparr>"

definition publish_raw :: "sampler \<Rightarrow> sampler" where
  "publish_raw o' =
     (if rb_misfits_count (cp_high_avg o') \<le> CP_SAMPLE_MAX_MISFITS \<and>
         rb_misfits_count (cp_low_avg o') \<le> CP_SAMPLE_MAX_MISFITS \<and>
         rb_filled (cp_high_avg o') \<and> rb_filled (cp_low_avg o')
      then o'\<lparr>raw_signal := (raw_signal o')\<lparr>raw_high := ucast (rb_average (cp_high_avg o')),
                raw_low := ucast (rb_average (cp_low_avg o')), raw_valid := True\<rparr>\<rparr>
      else o'\<lparr>raw_signal := (raw_signal o')\<lparr>raw_valid := False\<rparr>\<rparr>)"

text \<open>One iteration of \<open>Sampler::loop\<close>.\<close>

definition sampler_loop_body :: "'hw sdk \<Rightarrow> ('hw drv, unit) state" where
  "sampler_loop_body sdk = do {
     got \<leftarrow> on_hw (sem_take sdk New_sample_available portMAX_DELAY);
     if_then got (do {
       modify (sigs_update (\<lambda>n. n + 1));
       ignore (on_hw (sem_take sdk Sample_buf_mutex portMAX_DELAY));
       high \<leftarrow> smp_member (\<lambda>o'. decode_burst_adc_samples (high_samples (adc_sample o')));
       low \<leftarrow> smp_member (\<lambda>o'. decode_burst_adc_samples (low_samples (adc_sample o')));
       ignore (on_hw (sem_give sdk Sample_buf_mutex));
       on_smp (add_averages high low);
       ignore (on_hw (sem_take sdk Raw_cp_signal_mutex portMAX_DELAY));
       on_smp publish_raw;
       ignore (on_hw (sem_give sdk Raw_cp_signal_mutex))
     })
   }"

end
