(* ===== verification/Pb_Core.thy ===== *)
theory Pb_Core
  imports Evse_Prelude
begin

text \<open>
  The data types of nanopb (\<open>firmware/pb_codec/nanopb/pb.h\<close>): memory, message
  descriptors, field iterators and streams. The build uses none of the optional
  features (\<open>PB_ENABLE_MALLOC\<close>, \<open>PB_FIELD_32BIT\<close>, \<open>PB_WITHOUT_64BIT\<close>,
  \<open>PB_BUFFER_ONLY\<close>, \<open>PB_NO_ERRMSG\<close>); both targets are little endian.

  A function of the library that returns \<open>bool\<close> is a computation of the state monad
  over \<open>pb\<close> that returns \<open>bool\<close>: memory, the two streams it may be given, and a flag
  \<open>stuck\<close> for what the model leaves open (fuel used up, a pointer to an object that
  is not in the modelled memory).
\<close>

section \<open>Memory\<close>

type_synonym mem = "nat \<Rightarrow> uint8"

definition load :: "mem \<Rightarrow> nat \<Rightarrow> nat \<Rightarrow> uint8 list" where
  "load m a n = map m [a ..< a + n]"

definition store :: "nat \<Rightarrow> uint8 list \<Rightarrow> mem \<Rightarrow> mem" where
  "store a bs m = (\<lambda>x. if a \<le> x \<and> x < a + length bs then bs ! (x - a) else m x)"

text \<open>Little-endian objects.\<close>

primrec le_word :: "uint8 list \<Rightarrow> 'a::len word" where
  "le_word [] = 0"
| "le_word (b # bs) = ucast b OR push_bit 8 (le_word bs)"

primrec le_bytes :: "nat \<Rightarrow> 'a::len word \<Rightarrow> uint8 list" where
  "le_bytes 0 w = []"
| "le_bytes (Suc n) w = ucast w # le_bytes n (drop_bit 8 w)"

definition load_word :: "nat \<Rightarrow> mem \<Rightarrow> nat \<Rightarrow> 'a::len word" where
  "load_word n m a = le_word (load m a n)"

lemma length_load [simp]: "length (load m a n) = n"
  by (simp add: load_def)

lemma nth_load [simp]: "i < n \<Longrightarrow> load m a n ! i = m (a + i)"
  by (simp add: load_def)

lemma length_le_bytes [simp]: "length (le_bytes n w) = n"
  by (induction n arbitrary: w) simp_all

lemma store_other: "x < a \<or> a + length bs \<le> x \<Longrightarrow> store a bs m x = m x"
  by (auto simp: store_def)

lemma load_store_same: "load (store a bs m) a (length bs) = bs"
  by (rule nth_equalityI) (simp_all add: store_def)

lemma load_store_disjoint:
  "b + n \<le> a \<or> a + length bs \<le> b \<Longrightarrow> load (store a bs m) b n = load m b n"
  by (rule nth_equalityI) (auto simp: store_def)

lemma load_cong: "(\<And>i. i < n \<Longrightarrow> m (a + i) = m' (a + i)) \<Longrightarrow> load m a n = load m' a n"
  by (rule nth_equalityI) simp_all

lemma load_append: "load m a (i + j) = load m a i @ load m (a + i) j"
  by (rule nth_equalityI) (simp_all add: nth_append)

lemma bit_le_word:
  "bit (le_word bs :: 'a::len word) i \<longleftrightarrow>
     i < LENGTH('a) \<and> i div 8 < length bs \<and> bit (bs ! (i div 8)) (i mod 8)"
proof (induction bs arbitrary: i)
  case Nil
  then show ?case by simp
next
  case (Cons b bs)
  show ?case
  proof (cases "i < 8")
    case True
    then show ?thesis
      by (auto simp: bit_or_iff bit_ucast_iff bit_push_bit_iff)
  next
    case False
    then have "i div 8 = Suc ((i - 8) div 8)" "i mod 8 = (i - 8) mod 8"
      by (simp_all add: le_div_geq le_mod_geq)
    moreover have "\<not> bit b i"
      using False bit_imp_le_length [of b i] by auto
    ultimately show ?thesis
      using False by (auto simp: bit_or_iff bit_ucast_iff bit_push_bit_iff Cons.IH)
  qed
qed

lemma nth_le_bytes: "i < n \<Longrightarrow> le_bytes n w ! i = ucast (drop_bit (8 * i) w)"
proof (induction n arbitrary: i w)
  case 0
  then show ?case by simp
next
  case (Suc n)
  then show ?case by (cases i) (simp_all add: add.commute)
qed

lemma le_word_bytes:
  assumes "LENGTH('a::len) \<le> 8 * n"
  shows "le_word (le_bytes n (w :: 'a word)) = w"
proof (rule bit_word_eqI)
  fix i
  assume i: "i < LENGTH('a)"
  then have "i div 8 < n"
    using assms by linarith
  moreover have "8 * (i div 8) + i mod 8 = i"
    by simp
  ultimately show "bit (le_word (le_bytes n w) :: 'a word) i = bit w i"
    using i by (simp add: bit_le_word nth_le_bytes bit_ucast_iff bit_drop_bit_eq)
qed

section \<open>Field types\<close>

definition PB_LTYPE_BOOL :: uint8 where "PB_LTYPE_BOOL = 0x00"
definition PB_LTYPE_VARINT :: uint8 where "PB_LTYPE_VARINT = 0x01"
definition PB_LTYPE_UVARINT :: uint8 where "PB_LTYPE_UVARINT = 0x02"
definition PB_LTYPE_SVARINT :: uint8 where "PB_LTYPE_SVARINT = 0x03"
definition PB_LTYPE_FIXED32 :: uint8 where "PB_LTYPE_FIXED32 = 0x04"
definition PB_LTYPE_FIXED64 :: uint8 where "PB_LTYPE_FIXED64 = 0x05"
definition PB_LTYPE_LAST_PACKABLE :: uint8 where "PB_LTYPE_LAST_PACKABLE = 0x05"
definition PB_LTYPE_BYTES :: uint8 where "PB_LTYPE_BYTES = 0x06"
definition PB_LTYPE_STRING :: uint8 where "PB_LTYPE_STRING = 0x07"
definition PB_LTYPE_SUBMESSAGE :: uint8 where "PB_LTYPE_SUBMESSAGE = 0x08"
definition PB_LTYPE_SUBMSG_W_CB :: uint8 where "PB_LTYPE_SUBMSG_W_CB = 0x09"
definition PB_LTYPE_EXTENSION :: uint8 where "PB_LTYPE_EXTENSION = 0x0A"
definition PB_LTYPE_FIXED_LENGTH_BYTES :: uint8 where "PB_LTYPE_FIXED_LENGTH_BYTES = 0x0B"
definition PB_LTYPE_MASK :: uint8 where "PB_LTYPE_MASK = 0x0F"
definition PB_HTYPE_REQUIRED :: uint8 where "PB_HTYPE_REQUIRED = 0x00"
definition PB_HTYPE_OPTIONAL :: uint8 where "PB_HTYPE_OPTIONAL = 0x10"
definition PB_HTYPE_SINGULAR :: uint8 where "PB_HTYPE_SINGULAR = 0x10"
definition PB_HTYPE_REPEATED :: uint8 where "PB_HTYPE_REPEATED = 0x20"
definition PB_HTYPE_FIXARRAY :: uint8 where "PB_HTYPE_FIXARRAY = 0x20"
definition PB_HTYPE_ONEOF :: uint8 where "PB_HTYPE_ONEOF = 0x30"
definition PB_HTYPE_MASK :: uint8 where "PB_HTYPE_MASK = 0x30"
definition PB_ATYPE_STATIC :: uint8 where "PB_ATYPE_STATIC = 0x00"
definition PB_ATYPE_POINTER :: uint8 where "PB_ATYPE_POINTER = 0x80"
definition PB_ATYPE_CALLBACK :: uint8 where "PB_ATYPE_CALLBACK = 0x40"
definition PB_ATYPE_MASK :: uint8 where "PB_ATYPE_MASK = 0xC0"

lemmas pb_types =
  PB_LTYPE_BOOL_def PB_LTYPE_VARINT_def PB_LTYPE_UVARINT_def PB_LTYPE_SVARINT_def
  PB_LTYPE_FIXED32_def PB_LTYPE_FIXED64_def PB_LTYPE_LAST_PACKABLE_def PB_LTYPE_BYTES_def
  PB_LTYPE_STRING_def PB_LTYPE_SUBMESSAGE_def PB_LTYPE_SUBMSG_W_CB_def PB_LTYPE_EXTENSION_def
  PB_LTYPE_FIXED_LENGTH_BYTES_def PB_LTYPE_MASK_def PB_HTYPE_REQUIRED_def PB_HTYPE_OPTIONAL_def
  PB_HTYPE_SINGULAR_def PB_HTYPE_REPEATED_def PB_HTYPE_FIXARRAY_def PB_HTYPE_ONEOF_def
  PB_HTYPE_MASK_def PB_ATYPE_STATIC_def PB_ATYPE_POINTER_def PB_ATYPE_CALLBACK_def
  PB_ATYPE_MASK_def

definition PB_ATYPE :: "uint8 \<Rightarrow> uint8" where "PB_ATYPE x = x AND PB_ATYPE_MASK"
definition PB_HTYPE :: "uint8 \<Rightarrow> uint8" where "PB_HTYPE x = x AND PB_HTYPE_MASK"
definition PB_LTYPE :: "uint8 \<Rightarrow> uint8" where "PB_LTYPE x = x AND PB_LTYPE_MASK"

definition PB_LTYPE_IS_SUBMSG :: "uint8 \<Rightarrow> bool" where
  "PB_LTYPE_IS_SUBMSG x \<longleftrightarrow> PB_LTYPE x = PB_LTYPE_SUBMESSAGE \<or> PB_LTYPE x = PB_LTYPE_SUBMSG_W_CB"

lemmas pb_type_parts = PB_ATYPE_def PB_HTYPE_def PB_LTYPE_def PB_LTYPE_IS_SUBMSG_def

definition PB_SIZE_MAX :: uint16 where "PB_SIZE_MAX = 0xFFFF"
definition PB_MAX_REQUIRED_FIELDS :: uint16 where "PB_MAX_REQUIRED_FIELDS = 64"

text \<open>Wire types; the enumeration's values as they stand in a tag.\<close>

definition PB_WT_VARINT :: uint8 where "PB_WT_VARINT = 0"
definition PB_WT_64BIT :: uint8 where "PB_WT_64BIT = 1"
definition PB_WT_STRING :: uint8 where "PB_WT_STRING = 2"
definition PB_WT_32BIT :: uint8 where "PB_WT_32BIT = 5"
definition PB_WT_PACKED :: uint8 where "PB_WT_PACKED = 0xFF"

lemmas pb_wire_types =
  PB_WT_VARINT_def PB_WT_64BIT_def PB_WT_STRING_def PB_WT_32BIT_def PB_WT_PACKED_def

section \<open>Descriptors\<close>

datatype field_callback = No_callback | Default_callback | User_callback nat

text \<open>
  \<open>struct pb_msgdesc_s\<close>. \<open>submsg_info\<close> is the array without its terminating NULL,
  \<open>default_value\<close> an address (0 for NULL).
\<close>

datatype msgdesc =
  Msgdesc (field_info: "uint32 list") (submsg_info: "msgdesc list") (default_value: nat)
    (field_callback: field_callback) (field_count: uint16) (required_field_count: uint16)
    (largest_tag: uint16)

definition field_word :: "msgdesc \<Rightarrow> nat \<Rightarrow> uint32" where
  "field_word d i = (if i < length (field_info d) then field_info d ! i else 0)"

definition submsg_at :: "msgdesc \<Rightarrow> nat \<Rightarrow> msgdesc option" where
  "submsg_at d i = (if i < length (submsg_info d) then Some (submsg_info d ! i) else None)"

text \<open>
  What \<open>pSize\<close> points to: nothing, an object in memory, the iterator's own
  \<open>array_size\<close>, or the local \<open>fixed_count_size\<close> of \<open>pb_decode_inner\<close>.
\<close>

datatype size_ptr = Size_null | Size_at nat | Size_self | Size_fixed

record field_iter =
  descriptor :: msgdesc
  message :: nat
  index :: uint16
  field_info_index :: uint16
  required_field_index :: uint16
  submessage_index :: uint16
  tag :: uint16
  data_size :: uint16
  array_size :: uint16
  ftype :: uint8
  pField :: nat
  pData :: nat
  pSize :: size_ptr
  submsg_desc :: "msgdesc option"

section \<open>Descriptor words\<close>

text \<open>The macros \<open>PB_FIELDINFO_n(tag, type, data_offset, data_size, size_offset, array_size)\<close>.\<close>

definition fieldinfo_head :: "uint32 \<Rightarrow> uint32 \<Rightarrow> uint32 \<Rightarrow> uint32" where
  "fieldinfo_head width tag' type' = width OR (push_bit 2 tag' AND 0xFF) OR push_bit 8 type'"

definition PB_FIELDINFO_1 ::
  "uint32 \<Rightarrow> uint32 \<Rightarrow> uint32 \<Rightarrow> uint32 \<Rightarrow> uint32 \<Rightarrow> uint32 \<Rightarrow> uint32 list" where
  "PB_FIELDINFO_1 tag' type' data_offset data_size' size_offset array_size' =
     [fieldinfo_head 0 tag' type' OR push_bit 16 (data_offset AND 0xFF) OR
      push_bit 24 (size_offset AND 0x0F) OR push_bit 28 (data_size' AND 0x0F)]"

definition PB_FIELDINFO_2 ::
  "uint32 \<Rightarrow> uint32 \<Rightarrow> uint32 \<Rightarrow> uint32 \<Rightarrow> uint32 \<Rightarrow> uint32 \<Rightarrow> uint32 list" where
  "PB_FIELDINFO_2 tag' type' data_offset data_size' size_offset array_size' =
     [fieldinfo_head 1 tag' type' OR push_bit 16 (array_size' AND 0xFFF) OR
      push_bit 28 (size_offset AND 0x0F),
      (data_offset AND 0xFFFF) OR push_bit 16 (data_size' AND 0xFFF) OR
      push_bit 22 (tag' AND 0x3c0)]"

text \<open>\<open>(uint32_t)(int_least8_t)\<close> sign-extends the offset.\<close>

definition fieldinfo_wide_offset :: "uint32 \<Rightarrow> uint32 \<Rightarrow> uint32" where
  "fieldinfo_wide_offset tag' size_offset =
     scast (ucast size_offset :: uint8) OR (push_bit 2 tag' AND 0xFFFFFF00)"

definition PB_FIELDINFO_4 ::
  "uint32 \<Rightarrow> uint32 \<Rightarrow> uint32 \<Rightarrow> uint32 \<Rightarrow> uint32 \<Rightarrow> uint32 \<Rightarrow> uint32 list" where
  "PB_FIELDINFO_4 tag' type' data_offset data_size' size_offset array_size' =
     [fieldinfo_head 2 tag' type' OR push_bit 16 (array_size' AND 0xFFFF),
      fieldinfo_wide_offset tag' size_offset, data_offset, data_size']"

definition PB_FIELDINFO_8 ::
  "uint32 \<Rightarrow> uint32 \<Rightarrow> uint32 \<Rightarrow> uint32 \<Rightarrow> uint32 \<Rightarrow> uint32 \<Rightarrow> uint32 list" where
  "PB_FIELDINFO_8 tag' type' data_offset data_size' size_offset array_size' =
     [fieldinfo_head 3 tag' type',
      fieldinfo_wide_offset tag' size_offset, data_offset, data_size', array_size', 0, 0, 0]"

section \<open>Streams and the state\<close>

datatype os_callback = Os_null | Os_buf_write

record ostream =
  os_callback :: os_callback
  os_state :: nat
  max_size :: nat
  bytes_written :: nat
  os_errmsg :: "string option"

record istream =
  is_state :: nat
  bytes_left :: nat
  is_errmsg :: "string option"

record pb =
  mem :: mem
  ostr :: ostream
  istr :: istream
  fixed_count_size :: uint16
  stuck :: bool

text \<open>
  What the library is compiled and linked with: the width of \<open>size_t\<close> and of a
  pointer, the user's functions, which descriptors and structures name by pointer or
  identifier, and where the stack buffer of \<open>decode_callback_field\<close> lies.
\<close>

record pb_env =
  size_bits :: nat
  ptr_bytes :: nat
  user_field_callback :: "nat \<Rightarrow> bool \<Rightarrow> field_iter \<Rightarrow> (pb, bool) state"
  decode_fn :: "nat \<Rightarrow> field_iter \<Rightarrow> nat \<Rightarrow> (pb, bool) state"
  encode_fn :: "nat \<Rightarrow> field_iter \<Rightarrow> nat \<Rightarrow> (pb, bool) state"
  ext_decode_fn :: "nat \<Rightarrow> nat \<Rightarrow> uint32 \<Rightarrow> uint8 \<Rightarrow> (pb, bool) state"
  ext_encode_fn :: "nat \<Rightarrow> nat \<Rightarrow> (pb, bool) state"
  raw_buffer_at :: nat
  msgdesc_at :: "nat \<Rightarrow> msgdesc"

text \<open>Arithmetic on \<open>size_t\<close> wraps.\<close>

definition wrap :: "pb_env \<Rightarrow> nat \<Rightarrow> nat" where
  "wrap env n = n mod 2 ^ size_bits env"

definition load_ptr :: "pb_env \<Rightarrow> mem \<Rightarrow> nat \<Rightarrow> nat" where
  "load_ptr env m a = unat (load_word (ptr_bytes env) m a :: uint64)"

definition sizeof_callback :: "pb_env \<Rightarrow> nat" where
  "sizeof_callback env = 2 * ptr_bytes env"

section \<open>Copying bytes\<close>

text \<open>The source of a copy: an array on the stack, or an address (0 for NULL).\<close>

datatype pb_buf = Buf_local "uint8 list" | Buf_at nat

definition buf_byte :: "mem \<Rightarrow> pb_buf \<Rightarrow> nat \<Rightarrow> uint8" where
  "buf_byte m b i = (case b of Buf_local bs \<Rightarrow> bs ! i | Buf_at a \<Rightarrow> m (a + i))"

text \<open>The copying loop of \<open>buf_write\<close> and \<open>buf_read\<close>: \<open>n\<close> bytes from index \<open>i\<close> on.\<close>

primrec buf_copy :: "nat \<Rightarrow> pb_buf \<Rightarrow> nat \<Rightarrow> nat \<Rightarrow> mem \<Rightarrow> mem" where
  "buf_copy dest b i 0 m = m"
| "buf_copy dest b i (Suc n) m = buf_copy dest b (Suc i) n (m(dest + i := buf_byte m b i))"

section \<open>Control flow\<close>

text \<open>\<open>if (!f()) return false; rest\<close>, and the same where \<open>f\<close> delivers a value.\<close>

definition check :: "('s, bool) state \<Rightarrow> ('s, bool) state \<Rightarrow> ('s, bool) state" where
  "check m rest = do { ok \<leftarrow> m; if ok then rest else State_Monad.return False }"

definition check_some :: "('s, 'a option) state \<Rightarrow> ('a \<Rightarrow> ('s, bool) state) \<Rightarrow> ('s, bool) state" where
  "check_some m f = do { r \<leftarrow> m; case r of None \<Rightarrow> State_Monad.return False | Some x \<Rightarrow> f x }"

definition get_stuck :: "(pb, bool) state" where
  "get_stuck = do { modify (stuck_update (\<lambda>_. True)); State_Monad.return False }"

lemma run_check [simp]:
  "run_state (check m rest) s =
     (if fst (run_state m s) then run_state rest (snd (run_state m s))
      else (False, snd (run_state m s)))"
  by (simp add: check_def)

lemma run_check_some [simp]:
  "run_state (check_some m f) s =
     (case fst (run_state m s) of None \<Rightarrow> (False, snd (run_state m s))
      | Some x \<Rightarrow> run_state (f x) (snd (run_state m s)))"
  by (simp add: check_some_def split: option.split)

lemma run_get_stuck [simp]: "run_state get_stuck s = (False, s\<lparr>stuck := True\<rparr>)"
  by (simp add: get_stuck_def)

text \<open>\<open>PB_RETURN_ERROR\<close> on the output and on the input stream.\<close>

definition set_error :: "string \<Rightarrow> string option \<Rightarrow> string option" where
  "set_error msg old = (case old of None \<Rightarrow> Some msg | Some m \<Rightarrow> Some m)"

definition os_return_error :: "string \<Rightarrow> (pb, bool) state" where
  "os_return_error msg = do {
     modify (\<lambda>s. s\<lparr>ostr := (ostr s)\<lparr>os_errmsg := set_error msg (os_errmsg (ostr s))\<rparr>\<rparr>);
     State_Monad.return False
   }"

definition is_set_error :: "string \<Rightarrow> (pb, unit) state" where
  "is_set_error msg =
     modify (\<lambda>s. s\<lparr>istr := (istr s)\<lparr>is_errmsg := set_error msg (is_errmsg (istr s))\<rparr>\<rparr>)"

definition is_return_error :: "string \<Rightarrow> (pb, bool) state" where
  "is_return_error msg = do { is_set_error msg; State_Monad.return False }"

definition is_return_none :: "string \<Rightarrow> (pb, 'a option) state" where
  "is_return_none msg = do { is_set_error msg; State_Monad.return None }"

lemma run_os_return_error [simp]:
  "run_state (os_return_error msg) s =
     (False, s\<lparr>ostr := (ostr s)\<lparr>os_errmsg := set_error msg (os_errmsg (ostr s))\<rparr>\<rparr>)"
  by (simp add: os_return_error_def)

lemma run_is_return_error [simp]:
  "run_state (is_return_error msg) s =
     (False, s\<lparr>istr := (istr s)\<lparr>is_errmsg := set_error msg (is_errmsg (istr s))\<rparr>\<rparr>)"
  by (simp add: is_return_error_def is_set_error_def)

lemma run_is_return_none [simp]:
  "run_state (is_return_none msg) s =
     (None, s\<lparr>istr := (istr s)\<lparr>is_errmsg := set_error msg (is_errmsg (istr s))\<rparr>\<rparr>)"
  by (simp add: is_return_none_def is_set_error_def)

text \<open>Reading and writing typed objects in memory.\<close>

definition get_u8 :: "nat \<Rightarrow> (pb, uint8) state" where
  "get_u8 a = gets (\<lambda>s. mem s a)"

definition get_u16 :: "nat \<Rightarrow> (pb, uint16) state" where
  "get_u16 a = gets (\<lambda>s. load_word 2 (mem s) a)"

definition get_ptr :: "pb_env \<Rightarrow> nat \<Rightarrow> (pb, nat) state" where
  "get_ptr env a = gets (\<lambda>s. load_ptr env (mem s) a)"

definition put_bytes :: "nat \<Rightarrow> uint8 list \<Rightarrow> (pb, unit) state" where
  "put_bytes a bs = modify (mem_update (store a bs))"

definition put_u16 :: "nat \<Rightarrow> uint16 \<Rightarrow> (pb, unit) state" where
  "put_u16 a w = put_bytes a (le_bytes 2 w)"

lemma run_mem_ops [simp]:
  "run_state (get_u8 a) s = (mem s a, s)"
  "run_state (get_u16 a) s = (load_word 2 (mem s) a, s)"
  "run_state (get_ptr env a) s = (load_ptr env (mem s) a, s)"
  "run_state (put_bytes a bs) s = ((), s\<lparr>mem := store a bs (mem s)\<rparr>)"
  "run_state (put_u16 a w) s = ((), s\<lparr>mem := store a (le_bytes 2 w) (mem s)\<rparr>)"
  by (simp_all add: get_u8_def get_u16_def get_ptr_def put_bytes_def put_u16_def)

text \<open>\<open>*(pb_size_t*\<close>\<open>)field->pSize\<close>, read and written.\<close>

definition get_size :: "field_iter \<Rightarrow> (pb, uint16) state" where
  "get_size it =
     (case pSize it of
        Size_null \<Rightarrow> do { ignore get_stuck; State_Monad.return 0 }
      | Size_at a \<Rightarrow> get_u16 a
      | Size_self \<Rightarrow> State_Monad.return (array_size it)
      | Size_fixed \<Rightarrow> gets fixed_count_size)"

definition put_size :: "uint16 \<Rightarrow> field_iter \<Rightarrow> (pb, field_iter) state" where
  "put_size n it =
     (case pSize it of
        Size_null \<Rightarrow> do { ignore get_stuck; State_Monad.return it }
      | Size_at a \<Rightarrow> do { put_u16 a n; State_Monad.return it }
      | Size_self \<Rightarrow> State_Monad.return (it\<lparr>array_size := n\<rparr>)
      | Size_fixed \<Rightarrow> do { modify (fixed_count_size_update (\<lambda>_. n)); State_Monad.return it })"

text \<open>\<open>*(bool*\<close>\<open>)field->pSize = b\<close>: one byte, the low one where the object is a counter.\<close>

definition put_has :: "bool \<Rightarrow> field_iter \<Rightarrow> (pb, field_iter) state" where
  "put_has b it =
     (case pSize it of
        Size_null \<Rightarrow> do { ignore get_stuck; State_Monad.return it }
      | Size_at a \<Rightarrow> do { put_bytes a [of_bool b]; State_Monad.return it }
      | Size_self \<Rightarrow>
          State_Monad.return (it\<lparr>array_size := (array_size it AND 0xFF00) OR of_bool b\<rparr>)
      | Size_fixed \<Rightarrow> do {
          modify (fixed_count_size_update (\<lambda>n. (n AND 0xFF00) OR of_bool b));
          State_Monad.return it
        })"

end
