(* ===== verification/Pb_Common.thy ===== *)
theory Pb_Common
  imports Pb_Core
begin

text \<open>
  \<open>firmware/pb_codec/nanopb/pb_common.c\<close>: walking a message descriptor, the default
  field callback, and the validation of UTF-8 text. The iterator functions read
  memory (pointer fields) but do not change it, so they are functions of it.
\<close>

section \<open>The field iterator\<close>

text \<open>
  The decoding of one descriptor entry: \<open>array_size\<close>, \<open>tag\<close>, \<open>size_offset\<close>,
  \<open>data_offset\<close> and \<open>data_size\<close> of the four formats.
\<close>

record field_values =
  fv_array_size :: uint16
  fv_tag :: uint16
  fv_size_offset :: uint8
  fv_data_offset :: uint32
  fv_data_size :: uint16

definition descriptor_values :: "(nat \<Rightarrow> uint32) \<Rightarrow> field_values" where
  "descriptor_values word =
     (let word0 = word 0 in
      if word0 AND 3 = 0 then
        \<lparr> fv_array_size = 1,
          fv_tag = ucast (drop_bit 2 word0 AND 0x3F),
          fv_size_offset = ucast (drop_bit 24 word0 AND 0x0F),
          fv_data_offset = drop_bit 16 word0 AND 0xFF,
          fv_data_size = ucast (drop_bit 28 word0 AND 0x0F) \<rparr>
      else if word0 AND 3 = 1 then
        (let word1 = word 1 in
         \<lparr> fv_array_size = ucast (drop_bit 16 word0 AND 0x0FFF),
           fv_tag = ucast ((drop_bit 2 word0 AND 0x3F) OR push_bit 6 (drop_bit 28 word1)),
           fv_size_offset = ucast (drop_bit 28 word0 AND 0x0F),
           fv_data_offset = word1 AND 0xFFFF,
           fv_data_size = ucast (drop_bit 16 word1 AND 0x0FFF) \<rparr>)
      else if word0 AND 3 = 2 then
        (let word1 = word 1; word2 = word 2; word3 = word 3 in
         \<lparr> fv_array_size = ucast (drop_bit 16 word0),
           fv_tag = ucast ((drop_bit 2 word0 AND 0x3F) OR push_bit 6 (drop_bit 8 word1)),
           fv_size_offset = ucast (word1 AND 0xFF),
           fv_data_offset = word2,
           fv_data_size = ucast word3 \<rparr>)
      else
        (let word1 = word 1; word2 = word 2; word3 = word 3; word4 = word 4 in
         \<lparr> fv_array_size = ucast word4,
           fv_tag = ucast ((drop_bit 2 word0 AND 0x3F) OR push_bit 6 (drop_bit 8 word1)),
           fv_size_offset = ucast (word1 AND 0xFF),
           fv_data_offset = word2,
           fv_data_size = ucast word3 \<rparr>))"

definition load_descriptor_values :: "pb_env \<Rightarrow> mem \<Rightarrow> field_iter \<Rightarrow> bool \<times> field_iter" where
  "load_descriptor_values env m it =
     (if field_count (descriptor it) \<le> index it then (False, it)
      else
        let base = unat (field_info_index it);
            word0 = field_word (descriptor it) base;
            it = it\<lparr>ftype := ucast (drop_bit 8 word0 AND 0xFF)\<rparr>;
            fv = descriptor_values (\<lambda>k. field_word (descriptor it) (base + k));
            it = it\<lparr>array_size := fv_array_size fv, tag := fv_tag fv, data_size := fv_data_size fv\<rparr>;
            it =
              (if message it = 0 then it\<lparr>pField := 0, pSize := Size_null\<rparr>
               else
                 let it = it\<lparr>pField := message it + unat (fv_data_offset fv)\<rparr>;
                     it = it\<lparr>pSize :=
                       (if fv_size_offset fv \<noteq> 0
                        then Size_at (nat (int (pField it) - sint (fv_size_offset fv)))
                        else if PB_HTYPE (ftype it) = PB_HTYPE_REPEATED \<and>
                          (PB_ATYPE (ftype it) = PB_ATYPE_STATIC \<or>
                           PB_ATYPE (ftype it) = PB_ATYPE_POINTER)
                        then Size_self else Size_null)\<rparr>
                 in it\<lparr>pData :=
                      (if PB_ATYPE (ftype it) = PB_ATYPE_POINTER \<and> pField it \<noteq> 0
                       then load_ptr env m (pField it) else pField it)\<rparr>)
        in (True, it\<lparr>submsg_desc :=
              (if PB_LTYPE_IS_SUBMSG (ftype it)
               then submsg_at (descriptor it) (unat (submessage_index it)) else None)\<rparr>))"

definition advance_iterator :: "field_iter \<Rightarrow> field_iter" where
  "advance_iterator it =
     (let it = it\<lparr>index := index it + 1\<rparr> in
      if field_count (descriptor it) \<le> index it
      then it\<lparr>index := 0, field_info_index := 0, submessage_index := 0, required_field_index := 0\<rparr>
      else
        let prev_descriptor = field_word (descriptor it) (unat (field_info_index it));
            prev_type = (ucast (drop_bit 8 prev_descriptor AND 0xFF) :: uint8);
            descriptor_len = (push_bit (unat (prev_descriptor AND 3)) 1 :: uint16)
        in it\<lparr>field_info_index := field_info_index it + descriptor_len,
              required_field_index := required_field_index it +
                of_bool (PB_HTYPE prev_type = PB_HTYPE_REQUIRED),
              submessage_index := submessage_index it + of_bool (PB_LTYPE_IS_SUBMSG prev_type)\<rparr>)"

text \<open>\<open>memset(iter, 0, sizeof( *iter))\<close> and the two assignments after it.\<close>

definition iter_zero :: "msgdesc \<Rightarrow> nat \<Rightarrow> field_iter" where
  "iter_zero desc msg =
     \<lparr> descriptor = desc, message = msg, index = 0, field_info_index = 0,
       required_field_index = 0, submessage_index = 0, tag = 0, data_size = 0, array_size = 0,
       ftype = 0, pField = 0, pData = 0, pSize = Size_null, submsg_desc = None \<rparr>"

definition pb_field_iter_begin ::
  "pb_env \<Rightarrow> mem \<Rightarrow> msgdesc \<Rightarrow> nat \<Rightarrow> bool \<times> field_iter" where
  "pb_field_iter_begin env m desc msg = load_descriptor_values env m (iter_zero desc msg)"

definition pb_field_iter_begin_const ::
  "pb_env \<Rightarrow> mem \<Rightarrow> msgdesc \<Rightarrow> nat \<Rightarrow> bool \<times> field_iter" where
  "pb_field_iter_begin_const env m desc msg = pb_field_iter_begin env m desc msg"

text \<open>
  The fields of \<open>pb_extension_t\<close> and \<open>pb_extension_type_t\<close> in memory, in the order
  the structures declare them.
\<close>

definition ext_type :: "pb_env \<Rightarrow> mem \<Rightarrow> nat \<Rightarrow> nat" where
  "ext_type env m ext = load_ptr env m ext"

definition ext_dest_addr :: "pb_env \<Rightarrow> nat \<Rightarrow> nat" where
  "ext_dest_addr env ext = ext + ptr_bytes env"

definition ext_next :: "pb_env \<Rightarrow> mem \<Rightarrow> nat \<Rightarrow> nat" where
  "ext_next env m ext = load_ptr env m (ext + 2 * ptr_bytes env)"

definition ext_found_addr :: "pb_env \<Rightarrow> nat \<Rightarrow> nat" where
  "ext_found_addr env ext = ext + 3 * ptr_bytes env"

definition ext_type_decode :: "pb_env \<Rightarrow> mem \<Rightarrow> nat \<Rightarrow> nat" where
  "ext_type_decode env m t = load_ptr env m t"

definition ext_type_encode :: "pb_env \<Rightarrow> mem \<Rightarrow> nat \<Rightarrow> nat" where
  "ext_type_encode env m t = load_ptr env m (t + ptr_bytes env)"

definition ext_type_arg :: "pb_env \<Rightarrow> mem \<Rightarrow> nat \<Rightarrow> nat" where
  "ext_type_arg env m t = load_ptr env m (t + 2 * ptr_bytes env)"

definition pb_field_iter_begin_extension :: "pb_env \<Rightarrow> mem \<Rightarrow> nat \<Rightarrow> bool \<times> field_iter" where
  "pb_field_iter_begin_extension env m ext =
     (let msg = msgdesc_at env (ext_type_arg env m (ext_type env m ext));
          word0 = field_word msg 0;
          (status, it) =
            (if drop_bit 8 word0 AND 0xC0 = 0x80
             then pb_field_iter_begin env m msg (ext_dest_addr env ext)
             else pb_field_iter_begin env m msg (load_ptr env m (ext_dest_addr env ext)))
      in (status, it\<lparr>pSize := Size_at (ext_found_addr env ext)\<rparr>))"

definition pb_field_iter_next :: "pb_env \<Rightarrow> mem \<Rightarrow> field_iter \<Rightarrow> bool \<times> field_iter" where
  "pb_field_iter_next env m it =
     (let it = snd (load_descriptor_values env m (advance_iterator it)) in (index it \<noteq> 0, it))"

text \<open>
  The two searches run once around the descriptor. The fuel of their loops is one
  more than its number of fields; \<open>None\<close> means that it did not suffice.
\<close>

fun find_tag_loop ::
  "pb_env \<Rightarrow> mem \<Rightarrow> uint32 \<Rightarrow> uint16 \<Rightarrow> nat \<Rightarrow> field_iter \<Rightarrow> (bool \<times> field_iter) option" where
  "find_tag_loop env m t start 0 it = None"
| "find_tag_loop env m t start (Suc n) it =
     (let it = advance_iterator it;
          fieldinfo = field_word (descriptor it) (unat (field_info_index it));
          candidate = (drop_bit 2 fieldinfo AND 0x3F = t AND 0x3F);
          it = (if candidate then snd (load_descriptor_values env m it) else it)
      in if candidate \<and> ucast (tag it) = t \<and> PB_LTYPE (ftype it) \<noteq> PB_LTYPE_EXTENSION
         then Some (True, it)
         else if index it \<noteq> start then find_tag_loop env m t start n it
         else Some (False, snd (load_descriptor_values env m it)))"

definition pb_field_iter_find ::
  "pb_env \<Rightarrow> mem \<Rightarrow> field_iter \<Rightarrow> uint32 \<Rightarrow> (bool \<times> field_iter) option" where
  "pb_field_iter_find env m it t =
     (if ucast (tag it) = t then Some (True, it)
      else if ucast (largest_tag (descriptor it)) < t then Some (False, it)
      else
        let start = index it;
            it = (if t < ucast (tag it) then it\<lparr>index := field_count (descriptor it)\<rparr> else it)
        in find_tag_loop env m t start (unat (field_count (descriptor it)) + 1) it)"

fun find_extension_loop ::
  "pb_env \<Rightarrow> mem \<Rightarrow> uint16 \<Rightarrow> nat \<Rightarrow> field_iter \<Rightarrow> (bool \<times> field_iter) option" where
  "find_extension_loop env m start 0 it = None"
| "find_extension_loop env m start (Suc n) it =
     (let it = advance_iterator it;
          fieldinfo = field_word (descriptor it) (unat (field_info_index it))
      in if PB_LTYPE (ucast (drop_bit 8 fieldinfo AND 0xFF)) = PB_LTYPE_EXTENSION
         then Some (load_descriptor_values env m it)
         else if index it \<noteq> start then find_extension_loop env m start n it
         else Some (False, snd (load_descriptor_values env m it)))"

definition pb_field_iter_find_extension ::
  "pb_env \<Rightarrow> mem \<Rightarrow> field_iter \<Rightarrow> (bool \<times> field_iter) option" where
  "pb_field_iter_find_extension env m it =
     (if PB_LTYPE (ftype it) = PB_LTYPE_EXTENSION then Some (True, it)
      else find_extension_loop env m (index it) (unat (field_count (descriptor it)) + 1) it)"

section \<open>The default field callback\<close>

text \<open>
  \<open>decoding\<close> tells which of the two stream arguments is not NULL. The callback
  structure is a function pointer followed by its argument.
\<close>

definition pb_default_field_callback :: "pb_env \<Rightarrow> bool \<Rightarrow> field_iter \<Rightarrow> (pb, bool) state" where
  "pb_default_field_callback env decoding field =
     (if unat (data_size field) = sizeof_callback env then
        (let pCallback = pData field in
         if pCallback \<noteq> 0 then do {
           fn \<leftarrow> get_ptr env pCallback;
           if decoding \<and> fn \<noteq> 0 then decode_fn env fn field (pCallback + ptr_bytes env)
           else if \<not> decoding \<and> fn \<noteq> 0 then encode_fn env fn field (pCallback + ptr_bytes env)
           else State_Monad.return True
         } else State_Monad.return True)
      else State_Monad.return True)"

definition call_field_callback ::
  "pb_env \<Rightarrow> field_callback \<Rightarrow> bool \<Rightarrow> field_iter \<Rightarrow> (pb, bool) state" where
  "call_field_callback env cb decoding field =
     (case cb of
        No_callback \<Rightarrow> get_stuck
      | Default_callback \<Rightarrow> pb_default_field_callback env decoding field
      | User_callback n \<Rightarrow> user_field_callback env n decoding field)"

section \<open>UTF-8 validation\<close>

text \<open>
  \<open>pb_validate_utf8\<close> on the bytes from \<open>str\<close> on; reading past the end of the list
  finds the terminating zero.
\<close>

definition byte_at :: "uint8 list \<Rightarrow> nat \<Rightarrow> uint8" where
  "byte_at s i = (if i < length s then s ! i else 0)"

function pb_validate_utf8 :: "uint8 list \<Rightarrow> bool" where
  "pb_validate_utf8 s =
     (if byte_at s 0 = 0 then True
      else if byte_at s 0 < 0x80 then pb_validate_utf8 (drop 1 s)
      else if byte_at s 0 AND 0xe0 = 0xc0 then
        (if byte_at s 1 AND 0xc0 \<noteq> 0x80 \<or> byte_at s 0 AND 0xfe = 0xc0 then False
         else pb_validate_utf8 (drop 2 s))
      else if byte_at s 0 AND 0xf0 = 0xe0 then
        (if byte_at s 1 AND 0xc0 \<noteq> 0x80 \<or> byte_at s 2 AND 0xc0 \<noteq> 0x80 \<or>
            byte_at s 0 = 0xe0 \<and> byte_at s 1 AND 0xe0 = 0x80 \<or>
            byte_at s 0 = 0xed \<and> byte_at s 1 AND 0xe0 = 0xa0 \<or>
            byte_at s 0 = 0xef \<and> byte_at s 1 = 0xbf \<and> byte_at s 2 AND 0xfe = 0xbe then False
         else pb_validate_utf8 (drop 3 s))
      else if byte_at s 0 AND 0xf8 = 0xf0 then
        (if byte_at s 1 AND 0xc0 \<noteq> 0x80 \<or> byte_at s 2 AND 0xc0 \<noteq> 0x80 \<or>
            byte_at s 3 AND 0xc0 \<noteq> 0x80 \<or>
            byte_at s 0 = 0xf0 \<and> byte_at s 1 AND 0xf0 = 0x80 \<or>
            byte_at s 0 = 0xf4 \<and> 0x8f < byte_at s 1 \<or> 0xf4 < byte_at s 0 then False
         else pb_validate_utf8 (drop 4 s))
      else False)"
  by pat_completeness auto
termination
  by (relation "measure length") (auto simp: byte_at_def split: if_splits)

declare pb_validate_utf8.simps [simp del]

end
