(* ===== verification/Pb_Encode.thy ===== *)
theory Pb_Encode
  imports Pb_Common
begin

text \<open>
  \<open>firmware/pb_codec/nanopb/pb_encode.c\<close>. The only stream callbacks are the two of
  the library: NULL (measure the size, write nothing) and \<open>buf_write\<close>. A function
  that recurses through a submessage takes the encoder of the submessage as its
  argument \<open>enc\<close>; \<open>pb_encode\<close> closes the recursion with its nesting depth as fuel.
\<close>

section \<open>Output streams\<close>

definition buf_write :: "pb_buf \<Rightarrow> nat \<Rightarrow> (pb, bool) state" where
  "buf_write b count = do {
     modify (\<lambda>s. let dest = os_state (ostr s)
       in s\<lparr>ostr := (ostr s)\<lparr>os_state := dest + count\<rparr>, mem := buf_copy dest b 0 count (mem s)\<rparr>);
     State_Monad.return True
   }"

definition pb_ostream_from_buffer :: "nat \<Rightarrow> nat \<Rightarrow> ostream" where
  "pb_ostream_from_buffer buf bufsize =
     \<lparr> os_callback = Os_buf_write, os_state = buf, max_size = bufsize, bytes_written = 0,
       os_errmsg = None \<rparr>"

definition PB_OSTREAM_SIZING :: ostream where
  "PB_OSTREAM_SIZING =
     \<lparr> os_callback = Os_null, os_state = 0, max_size = 0, bytes_written = 0, os_errmsg = None \<rparr>"

definition call_os_callback :: "pb_buf \<Rightarrow> nat \<Rightarrow> (pb, bool) state" where
  "call_os_callback b count = do {
     cb \<leftarrow> gets (\<lambda>s. os_callback (ostr s));
     case cb of Os_buf_write \<Rightarrow> buf_write b count | Os_null \<Rightarrow> get_stuck
   }"

definition add_written :: "pb_env \<Rightarrow> nat \<Rightarrow> (pb, bool) state" where
  "add_written env count = do {
     modify (\<lambda>s. s\<lparr>ostr := (ostr s)\<lparr>bytes_written := wrap env (bytes_written (ostr s) + count)\<rparr>\<rparr>);
     State_Monad.return True
   }"

definition pb_write :: "pb_env \<Rightarrow> pb_buf \<Rightarrow> nat \<Rightarrow> (pb, bool) state" where
  "pb_write env b count = do {
     st \<leftarrow> gets ostr;
     if 0 < count \<and> os_callback st \<noteq> Os_null then
       if wrap env (bytes_written st + count) < bytes_written st \<or>
          max_size st < wrap env (bytes_written st + count)
       then os_return_error ''stream full''
       else do {
         ok \<leftarrow> call_os_callback b count;
         if \<not> ok then os_return_error ''io error'' else add_written env count
       }
     else add_written env count
   }"

text \<open>A local stream variable: run on it, then go on with the original stream.\<close>

definition with_ostream :: "ostream \<Rightarrow> (pb, 'a) state \<Rightarrow> (pb, 'a \<times> ostream) state" where
  "with_ostream sub m = do {
     st \<leftarrow> gets ostr;
     modify (ostr_update (\<lambda>_. sub));
     r \<leftarrow> m;
     sub' \<leftarrow> gets ostr;
     modify (ostr_update (\<lambda>_. st));
     State_Monad.return (r, sub')
   }"

section \<open>Scalars\<close>

text \<open>\<open>sizeof(bool)\<close> is 1 on both targets.\<close>

definition safe_read_bool :: "nat \<Rightarrow> (pb, bool) state" where
  "safe_read_bool p = do { b \<leftarrow> get_u8 p; State_Monad.return (b \<noteq> 0) }"

text \<open>
  \<open>pb_encode_varint_32\<close>: the bytes it assembles in \<open>buffer\<close>. The first loop emits at
  most four bytes of \<open>low\<close>, the second runs while \<open>high\<close> is not zero.
\<close>

fun varint_low :: "nat \<Rightarrow> uint32 \<Rightarrow> uint32 \<Rightarrow> uint8 \<Rightarrow> uint8 list \<times> uint8" where
  "varint_low 0 low high byte = ([], byte)"
| "varint_low (Suc n) low high byte =
     (if low \<noteq> 0 \<or> high \<noteq> 0 then
        (let (bs, last) = varint_low n (drop_bit 7 low) high (ucast (low AND 0x7F))
         in ((byte OR 0x80) # bs, last))
      else ([], byte))"

fun varint_high :: "nat \<Rightarrow> uint32 \<Rightarrow> uint8 \<Rightarrow> uint8 list" where
  "varint_high 0 high byte = [byte]"
| "varint_high (Suc n) high byte =
     (if high \<noteq> 0 then (byte OR 0x80) # varint_high n (drop_bit 7 high) (ucast (high AND 0x7F))
      else [byte])"

definition varint_32_bytes :: "uint32 \<Rightarrow> uint32 \<Rightarrow> uint8 list" where
  "varint_32_bytes low high =
     (let (bs, byte) = varint_low 4 (drop_bit 7 low) high (ucast (low AND 0x7F)) in
      if high \<noteq> 0
      then bs @ varint_high 5 (drop_bit 3 high) (byte OR ucast (push_bit 4 (high AND 0x07)))
      else bs @ [byte])"

definition pb_encode_varint_32 :: "pb_env \<Rightarrow> uint32 \<Rightarrow> uint32 \<Rightarrow> (pb, bool) state" where
  "pb_encode_varint_32 env low high =
     (let buffer = varint_32_bytes low high in pb_write env (Buf_local buffer) (length buffer))"

definition pb_encode_varint :: "pb_env \<Rightarrow> uint64 \<Rightarrow> (pb, bool) state" where
  "pb_encode_varint env val =
     (if val \<le> 0x7F then pb_write env (Buf_local [ucast val]) 1
      else pb_encode_varint_32 env (ucast val) (ucast (drop_bit 32 val)))"

text \<open>\<open>pb_encode_svarint\<close>; the argument is the two's complement pattern of the \<open>int64_t\<close>.\<close>

definition pb_encode_svarint :: "pb_env \<Rightarrow> uint64 \<Rightarrow> (pb, bool) state" where
  "pb_encode_svarint env val =
     (let zigzagged = (if sint val < 0 then NOT (push_bit 1 val) else push_bit 1 val)
      in pb_encode_varint env zigzagged)"

definition pb_encode_fixed32 :: "pb_env \<Rightarrow> nat \<Rightarrow> (pb, bool) state" where
  "pb_encode_fixed32 env p = do {
     val \<leftarrow> gets (\<lambda>s. load_word 4 (mem s) p :: uint32);
     pb_write env (Buf_local
       [ucast (val AND 0xFF), ucast (drop_bit 8 val AND 0xFF), ucast (drop_bit 16 val AND 0xFF),
        ucast (drop_bit 24 val AND 0xFF)]) 4
   }"

text \<open>The eight bytes of \<open>val\<close>, however the argument of the function was passed.\<close>

definition encode_fixed64_value :: "pb_env \<Rightarrow> uint64 \<Rightarrow> (pb, bool) state" where
  "encode_fixed64_value env val =
     pb_write env (Buf_local
       [ucast (val AND 0xFF), ucast (drop_bit 8 val AND 0xFF), ucast (drop_bit 16 val AND 0xFF),
        ucast (drop_bit 24 val AND 0xFF), ucast (drop_bit 32 val AND 0xFF),
        ucast (drop_bit 40 val AND 0xFF), ucast (drop_bit 48 val AND 0xFF),
        ucast (drop_bit 56 val AND 0xFF)]) 8"

definition pb_encode_fixed64 :: "pb_env \<Rightarrow> nat \<Rightarrow> (pb, bool) state" where
  "pb_encode_fixed64 env p = do {
     val \<leftarrow> gets (\<lambda>s. load_word 8 (mem s) p :: uint64);
     encode_fixed64_value env val
   }"

definition pb_encode_tag :: "pb_env \<Rightarrow> uint8 \<Rightarrow> uint32 \<Rightarrow> (pb, bool) state" where
  "pb_encode_tag env wiretype field_number =
     pb_encode_varint env (push_bit 3 (ucast field_number) OR ucast wiretype)"

definition pb_encode_tag_for_field :: "pb_env \<Rightarrow> field_iter \<Rightarrow> (pb, bool) state" where
  "pb_encode_tag_for_field env field =
     (let lt = PB_LTYPE (ftype field) in
      if lt = PB_LTYPE_BOOL \<or> lt = PB_LTYPE_VARINT \<or> lt = PB_LTYPE_UVARINT \<or> lt = PB_LTYPE_SVARINT
      then pb_encode_tag env PB_WT_VARINT (ucast (tag field))
      else if lt = PB_LTYPE_FIXED32 then pb_encode_tag env PB_WT_32BIT (ucast (tag field))
      else if lt = PB_LTYPE_FIXED64 then pb_encode_tag env PB_WT_64BIT (ucast (tag field))
      else if lt = PB_LTYPE_BYTES \<or> lt = PB_LTYPE_STRING \<or> lt = PB_LTYPE_SUBMESSAGE \<or>
        lt = PB_LTYPE_SUBMSG_W_CB \<or> lt = PB_LTYPE_FIXED_LENGTH_BYTES
      then pb_encode_tag env PB_WT_STRING (ucast (tag field))
      else os_return_error ''invalid field type'')"

definition pb_encode_string :: "pb_env \<Rightarrow> pb_buf \<Rightarrow> nat \<Rightarrow> (pb, bool) state" where
  "pb_encode_string env buffer sz =
     check (pb_encode_varint env (of_nat sz)) (pb_write env buffer sz)"

section \<open>Field encoders\<close>

definition pb_enc_bool :: "pb_env \<Rightarrow> field_iter \<Rightarrow> (pb, bool) state" where
  "pb_enc_bool env field = do {
     b \<leftarrow> safe_read_bool (pData field);
     pb_encode_varint env (if b then 1 else 0)
   }"

text \<open>The unsigned and the signed extension of the field's value to 64 bits.\<close>

definition pb_enc_varint :: "pb_env \<Rightarrow> field_iter \<Rightarrow> (pb, bool) state" where
  "pb_enc_varint env field = do {
     m \<leftarrow> gets mem;
     let p = pData field; n = data_size field in
     if PB_LTYPE (ftype field) = PB_LTYPE_UVARINT then
       (if n = 1 then pb_encode_varint env (ucast (load_word 1 m p :: uint8))
        else if n = 2 then pb_encode_varint env (ucast (load_word 2 m p :: uint16))
        else if n = 4 then pb_encode_varint env (ucast (load_word 4 m p :: uint32))
        else if n = 8 then pb_encode_varint env (load_word 8 m p :: uint64)
        else os_return_error ''invalid data_size'')
     else
       (let encode = (if PB_LTYPE (ftype field) = PB_LTYPE_SVARINT
                      then pb_encode_svarint env else pb_encode_varint env)
        in if n = 1 then encode (scast (load_word 1 m p :: uint8))
        else if n = 2 then encode (scast (load_word 2 m p :: uint16))
        else if n = 4 then encode (scast (load_word 4 m p :: uint32))
        else if n = 8 then encode (load_word 8 m p :: uint64)
        else os_return_error ''invalid data_size'')
   }"

definition pb_enc_fixed :: "pb_env \<Rightarrow> field_iter \<Rightarrow> (pb, bool) state" where
  "pb_enc_fixed env field =
     (if data_size field = 4 then pb_encode_fixed32 env (pData field)
      else if data_size field = 8 then pb_encode_fixed64 env (pData field)
      else os_return_error ''invalid data_size'')"

text \<open>\<open>offsetof(pb_bytes_array_t, bytes)\<close> is the size of a \<open>pb_size_t\<close>.\<close>

definition pb_bytes_offset :: nat where "pb_bytes_offset = 2"

definition pb_enc_bytes :: "pb_env \<Rightarrow> field_iter \<Rightarrow> (pb, bool) state" where
  "pb_enc_bytes env field =
     (if pData field = 0 then pb_encode_string env (Buf_at 0) 0
      else do {
        sz \<leftarrow> get_u16 (pData field);
        if PB_ATYPE (ftype field) = PB_ATYPE_STATIC \<and>
           wrap env (2 ^ size_bits env + unat (data_size field) - pb_bytes_offset) < unat sz
        then os_return_error ''bytes size exceeded''
        else pb_encode_string env (Buf_at (pData field + pb_bytes_offset)) (unat sz)
      })"

text \<open>The length loop of \<open>pb_enc_string\<close>: at most \<open>n\<close> more bytes before the terminator.\<close>

fun string_length :: "mem \<Rightarrow> nat \<Rightarrow> nat \<Rightarrow> nat" where
  "string_length m p 0 = 0"
| "string_length m p (Suc n) = (if m p \<noteq> 0 then Suc (string_length m (Suc p) n) else 0)"

definition pb_enc_string :: "pb_env \<Rightarrow> field_iter \<Rightarrow> (pb, bool) state" where
  "pb_enc_string env field = do {
     m \<leftarrow> gets mem;
     let str = pData field;
         pointer = (PB_ATYPE (ftype field) = PB_ATYPE_POINTER) in
     if \<not> pointer \<and> data_size field = 0 then os_return_error ''zero-length string''
     else
       let max_len = (if pointer then 2 ^ size_bits env - 1 else unat (data_size field) - 1);
           sz = (if str = 0 then 0 else string_length m str max_len)
       in if str \<noteq> 0 \<and> m (str + sz) \<noteq> 0 then os_return_error ''unterminated string''
          else pb_encode_string env (Buf_at str) sz
   }"

definition pb_enc_fixed_length_bytes :: "pb_env \<Rightarrow> field_iter \<Rightarrow> (pb, bool) state" where
  "pb_enc_fixed_length_bytes env field =
     pb_encode_string env (Buf_at (pData field)) (unat (data_size field))"

section \<open>Submessages\<close>

text \<open>\<open>enc desc src\<close> is \<open>pb_encode\<close> on the submessage.\<close>

definition pb_encode_submessage ::
  "pb_env \<Rightarrow> (msgdesc \<Rightarrow> nat \<Rightarrow> (pb, bool) state) \<Rightarrow> msgdesc \<Rightarrow> nat \<Rightarrow> (pb, bool) state" where
  "pb_encode_submessage env enc desc src = do {
     (ok, sizing) \<leftarrow> with_ostream PB_OSTREAM_SIZING (enc desc src);
     if \<not> ok then do {
       modify (\<lambda>s. s\<lparr>ostr := (ostr s)\<lparr>os_errmsg := os_errmsg sizing\<rparr>\<rparr>);
       State_Monad.return False
     } else
       (let sz = bytes_written sizing in
        check (pb_encode_varint env (of_nat sz)) (do {
          st \<leftarrow> gets ostr;
          if os_callback st = Os_null then pb_write env (Buf_at 0) sz
          else if max_size st < wrap env (bytes_written st + sz)
          then os_return_error ''stream full''
          else do {
            (status, sub) \<leftarrow> with_ostream
              \<lparr> os_callback = os_callback st, os_state = os_state st, max_size = sz,
                bytes_written = 0, os_errmsg = None \<rparr> (enc desc src);
            modify (\<lambda>s. s\<lparr>ostr := (ostr s)\<lparr>
              bytes_written := wrap env (bytes_written (ostr s) + bytes_written sub),
              os_state := os_state sub, os_errmsg := os_errmsg sub\<rparr>\<rparr>);
            if bytes_written sub \<noteq> sz then os_return_error ''submsg size changed''
            else State_Monad.return status
          }
        }))
   }"

definition pb_enc_submessage ::
  "pb_env \<Rightarrow> (msgdesc \<Rightarrow> nat \<Rightarrow> (pb, bool) state) \<Rightarrow> field_iter \<Rightarrow> (pb, bool) state" where
  "pb_enc_submessage env enc field =
     (case submsg_desc field of
        None \<Rightarrow> os_return_error ''invalid field descriptor''
      | Some d \<Rightarrow>
          check
            (if PB_LTYPE (ftype field) = PB_LTYPE_SUBMSG_W_CB then
               (case pSize field of
                  Size_null \<Rightarrow> State_Monad.return True
                | Size_at a \<Rightarrow> do {
                    let callback = a - sizeof_callback env;
                    fn \<leftarrow> get_ptr env callback;
                    if fn \<noteq> 0 then encode_fn env fn field (callback + ptr_bytes env)
                    else State_Monad.return True
                  }
                | _ \<Rightarrow> get_stuck)
             else State_Monad.return True)
            (pb_encode_submessage env enc d (pData field)))"

section \<open>Fields\<close>

definition encode_basic_field ::
  "pb_env \<Rightarrow> (msgdesc \<Rightarrow> nat \<Rightarrow> (pb, bool) state) \<Rightarrow> field_iter \<Rightarrow> (pb, bool) state" where
  "encode_basic_field env enc field =
     (if pData field = 0 then State_Monad.return True
      else check (pb_encode_tag_for_field env field)
        (let lt = PB_LTYPE (ftype field) in
         if lt = PB_LTYPE_BOOL then pb_enc_bool env field
         else if lt = PB_LTYPE_VARINT \<or> lt = PB_LTYPE_UVARINT \<or> lt = PB_LTYPE_SVARINT
         then pb_enc_varint env field
         else if lt = PB_LTYPE_FIXED32 \<or> lt = PB_LTYPE_FIXED64 then pb_enc_fixed env field
         else if lt = PB_LTYPE_BYTES then pb_enc_bytes env field
         else if lt = PB_LTYPE_STRING then pb_enc_string env field
         else if lt = PB_LTYPE_SUBMESSAGE \<or> lt = PB_LTYPE_SUBMSG_W_CB
         then pb_enc_submessage env enc field
         else if lt = PB_LTYPE_FIXED_LENGTH_BYTES then pb_enc_fixed_length_bytes env field
         else os_return_error ''invalid field type''))"

definition next_item :: "field_iter \<Rightarrow> field_iter" where
  "next_item field = field\<lparr>pData := pData field + unat (data_size field)\<rparr>"

text \<open>The loop over the items of an array.\<close>

primrec for_items :: "nat \<Rightarrow> (field_iter \<Rightarrow> (pb, bool) state) \<Rightarrow> field_iter \<Rightarrow> (pb, bool) state" where
  "for_items 0 f field = State_Monad.return True"
| "for_items (Suc n) f field = check (f field) (for_items n f (next_item field))"

definition PB_GET_ERROR :: "ostream \<Rightarrow> string" where
  "PB_GET_ERROR st = (case os_errmsg st of None \<Rightarrow> ''(none)'' | Some msg \<Rightarrow> msg)"

text \<open>One item of an unpacked array; a pointer-type string or bytes item is itself a pointer.\<close>

definition encode_unpacked_item ::
  "pb_env \<Rightarrow> (msgdesc \<Rightarrow> nat \<Rightarrow> (pb, bool) state) \<Rightarrow> field_iter \<Rightarrow> (pb, bool) state" where
  "encode_unpacked_item env enc field =
     (if PB_ATYPE (ftype field) = PB_ATYPE_POINTER \<and>
         (PB_LTYPE (ftype field) = PB_LTYPE_STRING \<or> PB_LTYPE (ftype field) = PB_LTYPE_BYTES)
      then do {
        p \<leftarrow> get_ptr env (pData field);
        if p = 0 then
          check (pb_encode_tag_for_field env (field\<lparr>pData := p\<rparr>)) (pb_encode_varint env 0)
        else encode_basic_field env enc (field\<lparr>pData := p\<rparr>)
      }
      else encode_basic_field env enc field)"

definition encode_packed_array :: "pb_env \<Rightarrow> nat \<Rightarrow> field_iter \<Rightarrow> (pb, bool) state" where
  "encode_packed_array env count field =
     check (pb_encode_tag env PB_WT_STRING (ucast (tag field))) (do {
       let lt = PB_LTYPE (ftype field);
       (ok, sizing) \<leftarrow>
         (if lt = PB_LTYPE_FIXED32 then
            State_Monad.return (True, PB_OSTREAM_SIZING\<lparr>bytes_written := wrap env (4 * count)\<rparr>)
          else if lt = PB_LTYPE_FIXED64 then
            State_Monad.return (True, PB_OSTREAM_SIZING\<lparr>bytes_written := wrap env (8 * count)\<rparr>)
          else with_ostream PB_OSTREAM_SIZING (for_items count (pb_enc_varint env) field));
       if \<not> ok then os_return_error (PB_GET_ERROR sizing)
       else
         (let sz = bytes_written sizing in
          check (pb_encode_varint env (of_nat sz)) (do {
            st \<leftarrow> gets ostr;
            if os_callback st = Os_null then pb_write env (Buf_at 0) sz
            else if lt = PB_LTYPE_FIXED32 \<or> lt = PB_LTYPE_FIXED64
            then for_items count (pb_enc_fixed env) field
            else for_items count (pb_enc_varint env) field
          }))
     })"

definition encode_array ::
  "pb_env \<Rightarrow> (msgdesc \<Rightarrow> nat \<Rightarrow> (pb, bool) state) \<Rightarrow> field_iter \<Rightarrow> (pb, bool) state" where
  "encode_array env enc field = do {
     count \<leftarrow> get_size field;
     if count = 0 then State_Monad.return True
     else if PB_ATYPE (ftype field) \<noteq> PB_ATYPE_POINTER \<and> array_size field < count
     then os_return_error ''array max size exceeded''
     else if PB_LTYPE (ftype field) \<le> PB_LTYPE_LAST_PACKABLE
     then encode_packed_array env (unat count) field
     else for_items (unat count) (encode_unpacked_item env enc) field
   }"

text \<open>Whether all \<open>n\<close> bytes from \<open>p\<close> on are zero.\<close>

definition all_zero :: "mem \<Rightarrow> nat \<Rightarrow> nat \<Rightarrow> bool" where
  "all_zero m p n = list_all (\<lambda>b. b = 0) (load m p n)"

text \<open>
  The do-while loop over the fields of a message. An iterator that has been started
  runs through all fields, so their number suffices as fuel.
\<close>

primrec for_fields ::
  "pb_env \<Rightarrow> nat \<Rightarrow> (field_iter \<Rightarrow> (pb, bool) state) \<Rightarrow> field_iter \<Rightarrow> (pb, bool) state" where
  "for_fields env 0 f it = get_stuck"
| "for_fields env (Suc n) f it =
     check (f it) (do {
       m \<leftarrow> gets mem;
       let (more, it') = pb_field_iter_next env m it in
       if more then for_fields env n f it' else State_Monad.return True
     })"

definition pb_callback_is_null :: "pb_env \<Rightarrow> field_iter \<Rightarrow> (pb, bool) state" where
  "pb_callback_is_null env field = do {
     p \<leftarrow> get_ptr env (pData field);
     State_Monad.return (p = 0)
   }"

text \<open>
  The check of a field of a proto3 message; \<open>rec\<close> is the check of a submessage's
  field, one level down.
\<close>

definition proto3_default_body ::
  "pb_env \<Rightarrow> (field_iter \<Rightarrow> (pb, bool) state) \<Rightarrow> field_iter \<Rightarrow> (pb, bool) state" where
  "proto3_default_body env rec field = do {
     m \<leftarrow> gets mem;
     let type = ftype field in
     if PB_ATYPE type = PB_ATYPE_STATIC then
       (if PB_HTYPE type = PB_HTYPE_REQUIRED then State_Monad.return False
        else if PB_HTYPE type = PB_HTYPE_REPEATED \<or> PB_HTYPE type = PB_HTYPE_ONEOF then do {
          n \<leftarrow> get_size field;
          State_Monad.return (n = 0)
        }
        else if PB_HTYPE type = PB_HTYPE_OPTIONAL \<and> pSize field \<noteq> Size_null then
          (case pSize field of
             Size_at a \<Rightarrow> do { b \<leftarrow> safe_read_bool a; State_Monad.return (\<not> b) }
           | _ \<Rightarrow> get_stuck)
        else if default_value (descriptor field) \<noteq> 0 then State_Monad.return False
        else if PB_LTYPE type \<le> PB_LTYPE_LAST_PACKABLE then
          State_Monad.return (all_zero m (pData field) (unat (data_size field)))
        else if PB_LTYPE type = PB_LTYPE_BYTES then
          State_Monad.return ((load_word 2 m (pData field) :: uint16) = 0)
        else if PB_LTYPE type = PB_LTYPE_STRING then State_Monad.return (m (pData field) = 0)
        else if PB_LTYPE type = PB_LTYPE_FIXED_LENGTH_BYTES then
          State_Monad.return (data_size field = 0)
        else if PB_LTYPE_IS_SUBMSG type then
          (case submsg_desc field of
             None \<Rightarrow> get_stuck
           | Some d \<Rightarrow>
               (let (ok, it) = pb_field_iter_begin env m d (pData field)
                in if ok then for_fields env (unat (field_count d)) rec it
                   else State_Monad.return True))
        else State_Monad.return False)
     else if PB_ATYPE type = PB_ATYPE_POINTER then State_Monad.return (pData field = 0)
     else if PB_ATYPE type = PB_ATYPE_CALLBACK then
       (if PB_LTYPE type = PB_LTYPE_EXTENSION then pb_callback_is_null env field
        else if field_callback (descriptor field) = Default_callback
        then pb_callback_is_null env field
        else State_Monad.return (field_callback (descriptor field) = No_callback))
     else State_Monad.return False
   }"

primrec pb_check_proto3_default_value :: "pb_env \<Rightarrow> nat \<Rightarrow> field_iter \<Rightarrow> (pb, bool) state" where
  "pb_check_proto3_default_value env 0 = (\<lambda>field. get_stuck)"
| "pb_check_proto3_default_value env (Suc n) =
     proto3_default_body env (pb_check_proto3_default_value env n)"

definition encode_callback_field :: "pb_env \<Rightarrow> field_iter \<Rightarrow> (pb, bool) state" where
  "encode_callback_field env field =
     (if field_callback (descriptor field) \<noteq> No_callback then do {
        ok \<leftarrow> call_field_callback env (field_callback (descriptor field)) False field;
        if \<not> ok then os_return_error ''callback error'' else State_Monad.return True
      } else State_Monad.return True)"

text \<open>
  \<open>encode_field\<close>: whether the field is present, then its contents. \<open>dflt\<close> is the
  proto3 default check.
\<close>

definition field_absent ::
  "pb_env \<Rightarrow> (field_iter \<Rightarrow> (pb, bool) state) \<Rightarrow> field_iter \<Rightarrow> (pb, bool) state" where
  "field_absent env dflt field =
     (if PB_HTYPE (ftype field) = PB_HTYPE_ONEOF then do {
        which \<leftarrow> get_size field;
        State_Monad.return (which \<noteq> tag field)
      }
      else if PB_HTYPE (ftype field) = PB_HTYPE_OPTIONAL then
        (if pSize field \<noteq> Size_null then
           (case pSize field of
              Size_at a \<Rightarrow> do { b \<leftarrow> safe_read_bool a; State_Monad.return (\<not> b) }
            | _ \<Rightarrow> get_stuck)
         else if PB_ATYPE (ftype field) = PB_ATYPE_STATIC then dflt field
         else State_Monad.return False)
      else State_Monad.return False)"

definition encode_field ::
  "pb_env \<Rightarrow> (field_iter \<Rightarrow> (pb, bool) state) \<Rightarrow> (msgdesc \<Rightarrow> nat \<Rightarrow> (pb, bool) state) \<Rightarrow>
     field_iter \<Rightarrow> (pb, bool) state" where
  "encode_field env dflt enc field = do {
     absent \<leftarrow> field_absent env dflt field;
     if absent then State_Monad.return True
     else if pData field = 0 then
       (if PB_HTYPE (ftype field) = PB_HTYPE_REQUIRED
        then os_return_error ''missing required field'' else State_Monad.return True)
     else if PB_ATYPE (ftype field) = PB_ATYPE_CALLBACK then encode_callback_field env field
     else if PB_HTYPE (ftype field) = PB_HTYPE_REPEATED then encode_array env enc field
     else encode_basic_field env enc field
   }"

section \<open>Extensions\<close>

definition default_extension_encoder ::
  "pb_env \<Rightarrow> (field_iter \<Rightarrow> (pb, bool) state) \<Rightarrow> (msgdesc \<Rightarrow> nat \<Rightarrow> (pb, bool) state) \<Rightarrow>
     nat \<Rightarrow> (pb, bool) state" where
  "default_extension_encoder env dflt enc ext = do {
     m \<leftarrow> gets mem;
     let (ok, it) = pb_field_iter_begin_extension env m ext in
     if \<not> ok then os_return_error ''invalid extension'' else encode_field env dflt enc it
   }"

text \<open>The linked list of extensions; a list longer than the fuel is left open.\<close>

primrec encode_extensions ::
  "pb_env \<Rightarrow> nat \<Rightarrow> (field_iter \<Rightarrow> (pb, bool) state) \<Rightarrow> (msgdesc \<Rightarrow> nat \<Rightarrow> (pb, bool) state) \<Rightarrow>
     nat \<Rightarrow> (pb, bool) state" where
  "encode_extensions env 0 dflt enc ext =
     (if ext = 0 then State_Monad.return True else get_stuck)"
| "encode_extensions env (Suc n) dflt enc ext =
     (if ext = 0 then State_Monad.return True
      else do {
        m \<leftarrow> gets mem;
        let fn = ext_type_encode env m (ext_type env m ext) in
        check (if fn \<noteq> 0 then ext_encode_fn env fn ext
               else default_extension_encoder env dflt enc ext)
          (do {
             m' \<leftarrow> gets mem;
             encode_extensions env n dflt enc (ext_next env m' ext)
           })
      })"

definition encode_extension_field ::
  "pb_env \<Rightarrow> nat \<Rightarrow> (field_iter \<Rightarrow> (pb, bool) state) \<Rightarrow> (msgdesc \<Rightarrow> nat \<Rightarrow> (pb, bool) state) \<Rightarrow>
     field_iter \<Rightarrow> (pb, bool) state" where
  "encode_extension_field env n dflt enc field = do {
     ext \<leftarrow> get_ptr env (pData field);
     encode_extensions env n dflt enc ext
   }"

section \<open>Messages\<close>

definition pb_encode_body ::
  "pb_env \<Rightarrow> nat \<Rightarrow> (msgdesc \<Rightarrow> nat \<Rightarrow> (pb, bool) state) \<Rightarrow> msgdesc \<Rightarrow> nat \<Rightarrow> (pb, bool) state" where
  "pb_encode_body env n enc desc src = do {
     m \<leftarrow> gets mem;
     let (ok, it) = pb_field_iter_begin_const env m desc src in
     if \<not> ok then State_Monad.return True
     else for_fields env (unat (field_count desc))
       (\<lambda>it. if PB_LTYPE (ftype it) = PB_LTYPE_EXTENSION
             then encode_extension_field env n (pb_check_proto3_default_value env n) enc it
             else encode_field env (pb_check_proto3_default_value env n) enc it) it
   }"

text \<open>The fuel bounds the nesting of submessages and the length of extension lists.\<close>

primrec pb_encode :: "pb_env \<Rightarrow> nat \<Rightarrow> msgdesc \<Rightarrow> nat \<Rightarrow> (pb, bool) state" where
  "pb_encode env 0 = (\<lambda>desc src. get_stuck)"
| "pb_encode env (Suc n) = pb_encode_body env n (pb_encode env n)"

definition PB_ENCODE_DELIMITED :: uint32 where "PB_ENCODE_DELIMITED = 0x02"
definition PB_ENCODE_NULLTERMINATED :: uint32 where "PB_ENCODE_NULLTERMINATED = 0x04"

definition pb_encode_ex ::
  "pb_env \<Rightarrow> nat \<Rightarrow> msgdesc \<Rightarrow> nat \<Rightarrow> uint32 \<Rightarrow> (pb, bool) state" where
  "pb_encode_ex env n desc src flags =
     (if flags AND PB_ENCODE_DELIMITED \<noteq> 0
      then pb_encode_submessage env (pb_encode env n) desc src
      else if flags AND PB_ENCODE_NULLTERMINATED \<noteq> 0
      then check (pb_encode env n desc src) (pb_write env (Buf_local [0]) 1)
      else pb_encode env n desc src)"

definition pb_get_encoded_size :: "pb_env \<Rightarrow> nat \<Rightarrow> msgdesc \<Rightarrow> nat \<Rightarrow> (pb, nat option) state" where
  "pb_get_encoded_size env n desc src = do {
     (ok, sizing) \<leftarrow> with_ostream PB_OSTREAM_SIZING (pb_encode env n desc src);
     State_Monad.return (if ok then Some (bytes_written sizing) else None)
   }"

end
