(* ===== verification/Pb_Decode.thy ===== *)
theory Pb_Decode
  imports Pb_Common
begin

text \<open>
  \<open>firmware/pb_codec/nanopb/pb_decode.c\<close>, built without \<open>PB_ENABLE_MALLOC\<close>. Input
  streams read from memory (\<open>buf_read\<close>). Out parameters are returned: \<open>None\<close> is
  \<open>false\<close>. Functions that recurse take the decoder of a submessage, \<open>dec\<close>, and the
  initialisation of a message, \<open>dfl\<close>; \<open>pb_decode_inner\<close> and
  \<open>pb_message_set_to_defaults\<close> close the recursion with fuel.
\<close>

section \<open>Input streams\<close>

definition pb_istream_from_buffer :: "nat \<Rightarrow> nat \<Rightarrow> istream" where
  "pb_istream_from_buffer buf msglen = \<lparr> is_state = buf, bytes_left = msglen, is_errmsg = None \<rparr>"

definition PB_ISTREAM_EMPTY :: istream where
  "PB_ISTREAM_EMPTY = \<lparr> is_state = 0, bytes_left = 0, is_errmsg = None \<rparr>"

text \<open>\<open>buf_read\<close> into memory; a NULL destination (0) only moves on.\<close>

definition buf_read :: "nat \<Rightarrow> nat \<Rightarrow> (pb, bool) state" where
  "buf_read buf count = do {
     modify (\<lambda>s. let source = is_state (istr s) in
       s\<lparr>istr := (istr s)\<lparr>is_state := source + count\<rparr>,
         mem := (if buf \<noteq> 0 then buf_copy buf (Buf_at source) 0 count (mem s) else mem s)\<rparr>);
     State_Monad.return True
   }"

definition take_left :: "nat \<Rightarrow> (pb, unit) state" where
  "take_left count = modify (\<lambda>s. s\<lparr>istr := (istr s)\<lparr>bytes_left := bytes_left (istr s) - count\<rparr>\<rparr>)"

definition pb_read :: "nat \<Rightarrow> nat \<Rightarrow> (pb, bool) state" where
  "pb_read buf count =
     (if count = 0 then State_Monad.return True
      else do {
        left \<leftarrow> gets (\<lambda>s. bytes_left (istr s));
        if left < count then is_return_error ''end-of-stream''
        else do {
          ok \<leftarrow> buf_read buf count;
          if \<not> ok then is_return_error ''io error''
          else do { take_left count; State_Monad.return True }
        }
      })"

text \<open>\<open>pb_read\<close> into an array on the stack: the bytes it holds afterwards.\<close>

definition pb_read_local :: "nat \<Rightarrow> (pb, uint8 list option) state" where
  "pb_read_local count =
     (if count = 0 then State_Monad.return (Some [])
      else do {
        st \<leftarrow> gets istr;
        if bytes_left st < count then is_return_none ''end-of-stream''
        else do {
          bs \<leftarrow> gets (\<lambda>s. load (mem s) (is_state st) count);
          ignore (buf_read 0 count);
          take_left count;
          State_Monad.return (Some bs)
        }
      })"

definition pb_readbyte :: "(pb, uint8 option) state" where
  "pb_readbyte = do {
     st \<leftarrow> gets istr;
     if bytes_left st = 0 then is_return_none ''end-of-stream''
     else do {
       byte \<leftarrow> gets (\<lambda>s. mem s (is_state st));
       ignore (buf_read 0 1);
       take_left 1;
       State_Monad.return (Some byte)
     }
   }"

text \<open>A local stream variable: run on it, then go on with the original stream.\<close>

definition with_istream :: "istream \<Rightarrow> (pb, 'a) state \<Rightarrow> (pb, 'a \<times> istream) state" where
  "with_istream sub m = do {
     st \<leftarrow> gets istr;
     modify (istr_update (\<lambda>_. sub));
     r \<leftarrow> m;
     sub' \<leftarrow> gets istr;
     modify (istr_update (\<lambda>_. st));
     State_Monad.return (r, sub')
   }"

section \<open>Varints and tags\<close>

text \<open>
  The loop of \<open>pb_decode_varint32_eof\<close>. It fails at \<open>bitpos\<close> 70 at the latest, so ten
  rounds suffice.
\<close>

primrec varint32_loop :: "nat \<Rightarrow> nat \<Rightarrow> uint32 \<Rightarrow> (pb, (uint32 \<times> nat \<times> uint8) option) state" where
  "varint32_loop 0 bitpos result = do { ignore get_stuck; State_Monad.return None }"
| "varint32_loop (Suc n) bitpos result = do {
     r \<leftarrow> pb_readbyte;
     case r of
       None \<Rightarrow> State_Monad.return None
     | Some byte \<Rightarrow>
         (let sign_extension = (if bitpos < 63 then 0xFF else 0x01 :: uint8);
              valid_extension = (byte AND 0x7F = 0 \<or>
                drop_bit 31 result \<noteq> 0 \<and> byte = sign_extension) in
          if 32 \<le> bitpos \<and> (64 \<le> bitpos \<or> \<not> valid_extension)
          then is_return_none ''varint overflow''
          else
            let result = (if 32 \<le> bitpos then result
                          else result OR push_bit bitpos (ucast (byte AND 0x7F)))
            in if byte AND 0x80 \<noteq> 0 then varint32_loop n (bitpos + 7) result
               else State_Monad.return (Some (result, bitpos + 7, byte)))
   }"

text \<open>The second component is whether \<open>*eof\<close> has been set.\<close>

definition pb_decode_varint32_eof :: "(pb, uint32 option \<times> bool) state" where
  "pb_decode_varint32_eof = do {
     r \<leftarrow> pb_readbyte;
     case r of
       None \<Rightarrow> do {
         left \<leftarrow> gets (\<lambda>s. bytes_left (istr s));
         State_Monad.return (None, left = 0)
       }
     | Some byte \<Rightarrow>
         (if byte AND 0x80 = 0 then State_Monad.return (Some (ucast byte), False)
          else do {
            r \<leftarrow> varint32_loop 10 7 (ucast (byte AND 0x7F));
            case r of
              None \<Rightarrow> State_Monad.return (None, False)
            | Some (result, bitpos, byte) \<Rightarrow>
                (if bitpos = 35 \<and> byte AND 0x70 \<noteq> 0 then do {
                   is_set_error ''varint overflow'';
                   State_Monad.return (None, False)
                 } else State_Monad.return (Some result, False))
          })
   }"

definition pb_decode_varint32 :: "(pb, uint32 option) state" where
  "pb_decode_varint32 = do { (r, _) \<leftarrow> pb_decode_varint32_eof; State_Monad.return r }"

primrec varint_loop :: "nat \<Rightarrow> nat \<Rightarrow> uint64 \<Rightarrow> (pb, uint64 option) state" where
  "varint_loop 0 bitpos result = is_return_none ''varint overflow''"
| "varint_loop (Suc n) bitpos result =
     (if 64 \<le> bitpos then is_return_none ''varint overflow''
      else do {
        r \<leftarrow> pb_readbyte;
        case r of
          None \<Rightarrow> State_Monad.return None
        | Some byte \<Rightarrow>
            (let result = result OR push_bit bitpos (ucast (byte AND 0x7F)) in
             if byte AND 0x80 \<noteq> 0 then varint_loop n (bitpos + 7) result
             else State_Monad.return (Some result))
      })"

text \<open>After ten bytes \<open>bitpos\<close> is 70: the eleventh round is the error, as in the code.\<close>

definition pb_decode_varint :: "(pb, uint64 option) state" where
  "pb_decode_varint = varint_loop 11 0 0"

text \<open>The skipping loop consumes a byte in every round.\<close>

primrec skip_varint_loop :: "nat \<Rightarrow> (pb, bool) state" where
  "skip_varint_loop 0 = get_stuck"
| "skip_varint_loop (Suc n) =
     check_some (pb_read_local 1)
       (\<lambda>bs. if bs ! 0 AND 0x80 \<noteq> 0 then skip_varint_loop n else State_Monad.return True)"

definition pb_skip_varint :: "(pb, bool) state" where
  "pb_skip_varint = do {
     left \<leftarrow> gets (\<lambda>s. bytes_left (istr s));
     skip_varint_loop (left + 1)
   }"

definition pb_skip_string :: "pb_env \<Rightarrow> (pb, bool) state" where
  "pb_skip_string env =
     check_some pb_decode_varint32
       (\<lambda>length'. if wrap env (unat length') \<noteq> unat length' then is_return_error ''size too large''
                  else pb_read 0 (wrap env (unat length')))"

text \<open>\<open>pb_decode_tag\<close>: the wire type and the tag, and whether \<open>*eof\<close> has been set.\<close>

definition pb_decode_tag :: "(pb, (uint8 \<times> uint32) option \<times> bool) state" where
  "pb_decode_tag = do {
     (r, eof) \<leftarrow> pb_decode_varint32_eof;
     State_Monad.return
       (case r of None \<Rightarrow> None | Some temp \<Rightarrow> Some (ucast (temp AND 7), drop_bit 3 temp), eof)
   }"

definition pb_skip_field :: "pb_env \<Rightarrow> uint8 \<Rightarrow> (pb, bool) state" where
  "pb_skip_field env wire_type =
     (if wire_type = PB_WT_VARINT then pb_skip_varint
      else if wire_type = PB_WT_64BIT then pb_read 0 8
      else if wire_type = PB_WT_STRING then pb_skip_string env
      else if wire_type = PB_WT_32BIT then pb_read 0 4
      else is_return_error ''invalid wire_type'')"

text \<open>
  \<open>read_raw_value\<close> into the buffer at \<open>buf\<close> of \<open>max_len\<close> bytes; it returns the
  length of the value.
\<close>

primrec raw_varint_loop :: "nat \<Rightarrow> nat \<Rightarrow> nat \<Rightarrow> (pb, nat option) state" where
  "raw_varint_loop 0 buf sz = is_return_none ''varint overflow''"
| "raw_varint_loop (Suc n) buf sz = do {
     ok \<leftarrow> pb_read buf 1;
     if \<not> ok then State_Monad.return None
     else do {
       byte \<leftarrow> get_u8 buf;
       if byte AND 0x80 \<noteq> 0 then raw_varint_loop n (buf + 1) (sz + 1)
       else State_Monad.return (Some (sz + 1))
     }
   }"

definition read_raw_value :: "uint8 \<Rightarrow> nat \<Rightarrow> nat \<Rightarrow> (pb, nat option) state" where
  "read_raw_value wire_type buf max_len =
     (if wire_type = PB_WT_VARINT then raw_varint_loop max_len buf 0
      else if wire_type = PB_WT_64BIT then do {
        ok \<leftarrow> pb_read buf 8;
        State_Monad.return (if ok then Some 8 else None)
      }
      else if wire_type = PB_WT_32BIT then do {
        ok \<leftarrow> pb_read buf 4;
        State_Monad.return (if ok then Some 4 else None)
      }
      else is_return_none ''invalid wire_type'')"

section \<open>Substreams\<close>

definition pb_make_string_substream :: "(pb, istream option) state" where
  "pb_make_string_substream = do {
     r \<leftarrow> pb_decode_varint32;
     case r of
       None \<Rightarrow> State_Monad.return None
     | Some sz \<Rightarrow> do {
         substream \<leftarrow> gets istr;
         if bytes_left substream < unat sz then is_return_none ''parent stream too short''
         else do {
           take_left (unat sz);
           State_Monad.return (Some (substream\<lparr>bytes_left := unat sz\<rparr>))
         }
       }
   }"

definition pb_close_string_substream :: "istream \<Rightarrow> (pb, bool) state" where
  "pb_close_string_substream substream = do {
     (ok, sub) \<leftarrow>
       (if bytes_left substream \<noteq> 0 then with_istream substream (pb_read 0 (bytes_left substream))
        else State_Monad.return (True, substream));
     if \<not> ok then State_Monad.return False
     else do {
       modify (\<lambda>s. s\<lparr>istr := (istr s)\<lparr>is_state := is_state sub, is_errmsg := is_errmsg sub\<rparr>\<rparr>);
       State_Monad.return True
     }
   }"

section \<open>Field decoders\<close>

definition pb_decode_bool :: "nat \<Rightarrow> (pb, bool) state" where
  "pb_decode_bool dest =
     check_some pb_decode_varint32
       (\<lambda>val. do { put_bytes dest [of_bool (val \<noteq> 0)]; State_Monad.return True })"

text \<open>The result is the two's complement pattern of the \<open>int64_t\<close>.\<close>

definition pb_decode_svarint :: "(pb, uint64 option) state" where
  "pb_decode_svarint = do {
     r \<leftarrow> pb_decode_varint;
     State_Monad.return
       (case r of None \<Rightarrow> None
        | Some val \<Rightarrow> Some (if val AND 1 \<noteq> 0 then NOT (drop_bit 1 val) else drop_bit 1 val))
   }"

definition pb_decode_fixed32 :: "nat \<Rightarrow> (pb, bool) state" where
  "pb_decode_fixed32 dest =
     check_some (pb_read_local 4) (\<lambda>bs. do {
       put_bytes dest (le_bytes 4 (le_word bs :: uint32));
       State_Monad.return True
     })"

definition pb_decode_fixed64 :: "nat \<Rightarrow> (pb, bool) state" where
  "pb_decode_fixed64 dest =
     check_some (pb_read_local 8) (\<lambda>bs. do {
       put_bytes dest (le_bytes 8 (le_word bs :: uint64));
       State_Monad.return True
     })"

definition pb_dec_bool :: "field_iter \<Rightarrow> (pb, bool) state" where
  "pb_dec_bool field = pb_decode_bool (pData field)"

text \<open>Store the value in the field's size and compare what was stored with it.\<close>

definition store_clamped ::
  "field_iter \<Rightarrow> uint64 \<Rightarrow> (uint64 \<Rightarrow> uint64) \<Rightarrow> nat \<Rightarrow> (pb, bool) state" where
  "store_clamped field val clamp n = do {
     put_bytes (pData field) (le_bytes n val);
     if clamp val \<noteq> val then is_return_error ''integer too large'' else State_Monad.return True
   }"

definition pb_dec_varint :: "field_iter \<Rightarrow> (pb, bool) state" where
  "pb_dec_varint field =
     (if PB_LTYPE (ftype field) = PB_LTYPE_UVARINT then
        check_some pb_decode_varint (\<lambda>val.
          if data_size field = 8 then store_clamped field val id 8
          else if data_size field = 4 then store_clamped field val (\<lambda>v. ucast (ucast v :: uint32)) 4
          else if data_size field = 2 then store_clamped field val (\<lambda>v. ucast (ucast v :: uint16)) 2
          else if data_size field = 1 then store_clamped field val (\<lambda>v. ucast (ucast v :: uint8)) 1
          else is_return_error ''invalid data_size'')
      else
        check_some
          (if PB_LTYPE (ftype field) = PB_LTYPE_SVARINT then pb_decode_svarint
           else do {
             r \<leftarrow> pb_decode_varint;
             State_Monad.return
               (case r of None \<Rightarrow> None
                | Some val \<Rightarrow> Some (if data_size field = 8 then val
                                    else scast (ucast val :: uint32)))
           })
          (\<lambda>svalue.
             if data_size field = 8 then store_clamped field svalue id 8
             else if data_size field = 4
             then store_clamped field svalue (\<lambda>v. scast (ucast v :: uint32)) 4
             else if data_size field = 2
             then store_clamped field svalue (\<lambda>v. scast (ucast v :: uint16)) 2
             else if data_size field = 1
             then store_clamped field svalue (\<lambda>v. scast (ucast v :: uint8)) 1
             else is_return_error ''invalid data_size''))"

text \<open>\<open>offsetof(pb_bytes_array_t, bytes)\<close> is 2.\<close>

definition pb_dec_bytes :: "pb_env \<Rightarrow> field_iter \<Rightarrow> (pb, bool) state" where
  "pb_dec_bytes env field =
     check_some pb_decode_varint32 (\<lambda>sz.
       if ucast PB_SIZE_MAX < sz then is_return_error ''bytes overflow''
       else
         let alloc_size = wrap env (unat sz + 2) in
         if alloc_size < unat sz then is_return_error ''size too large''
         else if PB_ATYPE (ftype field) = PB_ATYPE_POINTER
         then is_return_error ''no malloc support''
         else if unat (data_size field) < alloc_size then is_return_error ''bytes overflow''
         else do {
           put_u16 (pData field) (ucast sz);
           pb_read (pData field + 2) (unat sz)
         })"

definition pb_dec_string :: "pb_env \<Rightarrow> field_iter \<Rightarrow> (pb, bool) state" where
  "pb_dec_string env field =
     check_some pb_decode_varint32 (\<lambda>sz.
       if sz = 0xFFFFFFFF then is_return_error ''size too large''
       else
         let alloc_size = wrap env (unat (sz + 1)) in
         if alloc_size < unat sz then is_return_error ''size too large''
         else if PB_ATYPE (ftype field) = PB_ATYPE_POINTER
         then is_return_error ''no malloc support''
         else if unat (data_size field) < alloc_size then is_return_error ''string overflow''
         else do {
           put_bytes (pData field + unat sz) [0];
           pb_read (pData field) (unat sz)
         })"

definition pb_dec_fixed_length_bytes :: "field_iter \<Rightarrow> (pb, bool) state" where
  "pb_dec_fixed_length_bytes field =
     check_some pb_decode_varint32 (\<lambda>sz.
       if ucast PB_SIZE_MAX < sz then is_return_error ''bytes overflow''
       else if sz = 0 then do {
         put_bytes (pData field) (replicate (unat (data_size field)) 0);
         State_Monad.return True
       }
       else if sz \<noteq> ucast (data_size field)
       then is_return_error ''incorrect fixed length bytes size''
       else pb_read (pData field) (unat (data_size field)))"

definition PB_DECODE_NOINIT :: uint32 where "PB_DECODE_NOINIT = 0x01"
definition PB_DECODE_DELIMITED :: uint32 where "PB_DECODE_DELIMITED = 0x02"
definition PB_DECODE_NULLTERMINATED :: uint32 where "PB_DECODE_NULLTERMINATED = 0x04"

type_synonym decoder = "msgdesc \<Rightarrow> nat \<Rightarrow> uint32 \<Rightarrow> (pb, bool) state"
type_synonym initialiser = "field_iter \<Rightarrow> (pb, field_iter option) state"

text \<open>
  \<open>pb_message_set_to_defaults\<close> delivers the iterator it was given as it leaves it;
  most callers only test its status.
\<close>

definition run_dfl :: "initialiser \<Rightarrow> field_iter \<Rightarrow> (pb, bool) state" where
  "run_dfl dfl it = do { r \<leftarrow> dfl it; State_Monad.return (r \<noteq> None) }"

text \<open>The message callback of a submessage: its status, and whether it consumed all.\<close>

definition submsg_callback :: "pb_env \<Rightarrow> field_iter \<Rightarrow> (pb, bool \<times> bool) state" where
  "submsg_callback env field =
     (if PB_LTYPE (ftype field) = PB_LTYPE_SUBMSG_W_CB then
        (case pSize field of
           Size_null \<Rightarrow> State_Monad.return (True, False)
         | Size_at a \<Rightarrow> do {
             let callback = a - sizeof_callback env;
             fn \<leftarrow> get_ptr env callback;
             if fn \<noteq> 0 then do {
               status \<leftarrow> decode_fn env fn field (callback + ptr_bytes env);
               left \<leftarrow> gets (\<lambda>s. bytes_left (istr s));
               State_Monad.return (status, left = 0)
             } else State_Monad.return (True, False)
           }
         | _ \<Rightarrow> do { ignore get_stuck; State_Monad.return (False, False) })
      else State_Monad.return (True, False))"

definition pb_dec_submessage :: "pb_env \<Rightarrow> decoder \<Rightarrow> field_iter \<Rightarrow> (pb, bool) state" where
  "pb_dec_submessage env dec field =
     check_some pb_make_string_substream (\<lambda>substream.
       case submsg_desc field of
         None \<Rightarrow> is_return_error ''invalid field descriptor''
       | Some d \<Rightarrow> do {
           (status, sub) \<leftarrow> with_istream substream (do {
             (status, submsg_consumed) \<leftarrow> submsg_callback env field;
             if status \<and> \<not> submsg_consumed then
               (let flags = (if PB_ATYPE (ftype field) = PB_ATYPE_STATIC \<and>
                     PB_HTYPE (ftype field) \<noteq> PB_HTYPE_REPEATED then PB_DECODE_NOINIT else 0)
                in dec d (pData field) flags)
             else State_Monad.return status
           });
           check (pb_close_string_substream sub) (State_Monad.return status)
         })"

section \<open>Fields\<close>

text \<open>A wire type that does not fit the field.\<close>

definition wrong_wire_type :: "uint8 list \<Rightarrow> uint8 \<Rightarrow> (pb, bool) state \<Rightarrow> (pb, bool) state" where
  "wrong_wire_type accepted wire_type m =
     (if wire_type \<notin> set accepted then is_return_error ''wrong wire type'' else m)"

definition decode_basic_field ::
  "pb_env \<Rightarrow> decoder \<Rightarrow> uint8 \<Rightarrow> field_iter \<Rightarrow> (pb, bool) state" where
  "decode_basic_field env dec wire_type field =
     (let lt = PB_LTYPE (ftype field) in
      if lt = PB_LTYPE_BOOL then
        wrong_wire_type [PB_WT_VARINT, PB_WT_PACKED] wire_type (pb_dec_bool field)
      else if lt = PB_LTYPE_VARINT \<or> lt = PB_LTYPE_UVARINT \<or> lt = PB_LTYPE_SVARINT then
        wrong_wire_type [PB_WT_VARINT, PB_WT_PACKED] wire_type (pb_dec_varint field)
      else if lt = PB_LTYPE_FIXED32 then
        wrong_wire_type [PB_WT_32BIT, PB_WT_PACKED] wire_type (pb_decode_fixed32 (pData field))
      else if lt = PB_LTYPE_FIXED64 then
        wrong_wire_type [PB_WT_64BIT, PB_WT_PACKED] wire_type (pb_decode_fixed64 (pData field))
      else if lt = PB_LTYPE_BYTES then
        wrong_wire_type [PB_WT_STRING] wire_type (pb_dec_bytes env field)
      else if lt = PB_LTYPE_STRING then
        wrong_wire_type [PB_WT_STRING] wire_type (pb_dec_string env field)
      else if lt = PB_LTYPE_SUBMESSAGE \<or> lt = PB_LTYPE_SUBMSG_W_CB then
        wrong_wire_type [PB_WT_STRING] wire_type (pb_dec_submessage env dec field)
      else if lt = PB_LTYPE_FIXED_LENGTH_BYTES then
        wrong_wire_type [PB_WT_STRING] wire_type (pb_dec_fixed_length_bytes field)
      else is_return_error ''invalid field type'')"

definition dec_next_item :: "field_iter \<Rightarrow> field_iter" where
  "dec_next_item field = field\<lparr>pData := pData field + unat (data_size field)\<rparr>"

text \<open>
  The loop of a packed array, on its substream. Every round stores one item, so the
  array's capacity plus one is enough fuel.
\<close>

primrec packed_loop :: "pb_env \<Rightarrow> decoder \<Rightarrow> nat \<Rightarrow> field_iter \<Rightarrow> (pb, bool) state" where
  "packed_loop env dec 0 field = get_stuck"
| "packed_loop env dec (Suc k) field = do {
     left \<leftarrow> gets (\<lambda>s. bytes_left (istr s));
     n \<leftarrow> get_size field;
     if 0 < left \<and> n < array_size field then
       check (decode_basic_field env dec PB_WT_PACKED field) (do {
         n' \<leftarrow> get_size field;
         field' \<leftarrow> put_size (n' + 1) field;
         packed_loop env dec k (dec_next_item field')
       })
     else State_Monad.return True
   }"

text \<open>Whether a message needs more than zeroes as its default.\<close>

definition has_defaults :: "msgdesc \<Rightarrow> bool" where
  "has_defaults d \<longleftrightarrow>
     default_value d \<noteq> 0 \<or> field_callback d \<noteq> No_callback \<or> submsg_info d \<noteq> []"

definition decode_static_field ::
  "pb_env \<Rightarrow> decoder \<Rightarrow> initialiser \<Rightarrow> uint8 \<Rightarrow> field_iter \<Rightarrow> (pb, bool) state" where
  "decode_static_field env dec dfl wire_type field =
     (let ht = PB_HTYPE (ftype field) in
      if ht = PB_HTYPE_REQUIRED then decode_basic_field env dec wire_type field
      else if ht = PB_HTYPE_OPTIONAL then do {
        field \<leftarrow> (if pSize field \<noteq> Size_null then put_has True field else State_Monad.return field);
        decode_basic_field env dec wire_type field
      }
      else if ht = PB_HTYPE_REPEATED then do {
        n \<leftarrow> get_size field;
        let field = field\<lparr>pData := pField field + unat (data_size field) * unat n\<rparr>;
        if wire_type = PB_WT_STRING \<and> PB_LTYPE (ftype field) \<le> PB_LTYPE_LAST_PACKABLE then
          check_some pb_make_string_substream (\<lambda>substream. do {
            (status, sub) \<leftarrow> with_istream substream
              (packed_loop env dec (unat (array_size field) + 1) field);
            if bytes_left sub \<noteq> 0 then is_return_error ''array overflow''
            else check (pb_close_string_substream sub) (State_Monad.return status)
          })
        else do {
          field' \<leftarrow> put_size (n + 1) field;
          if array_size field \<le> n then is_return_error ''array overflow''
          else decode_basic_field env dec wire_type field'
        }
      }
      else do {
        which \<leftarrow> get_size field;
        check
          (if PB_LTYPE_IS_SUBMSG (ftype field) \<and> which \<noteq> tag field then do {
             put_bytes (pData field) (replicate (unat (data_size field)) 0);
             case submsg_desc field of
               None \<Rightarrow> get_stuck
             | Some d \<Rightarrow>
                 (if has_defaults d then do {
                    m \<leftarrow> gets mem;
                    let (ok, submsg_iter) = pb_field_iter_begin env m d (pData field) in
                    if ok then do {
                      ok \<leftarrow> run_dfl dfl submsg_iter;
                      if \<not> ok then is_return_error ''failed to set defaults''
                      else State_Monad.return True
                    } else State_Monad.return True
                  } else State_Monad.return True)
           } else State_Monad.return True)
          (do {
             field \<leftarrow> put_size (tag field) field;
             decode_basic_field env dec wire_type field
           })
      })"

definition decode_pointer_field :: "(pb, bool) state" where
  "decode_pointer_field = is_return_error ''no malloc support''"

text \<open>The do-while loop of a string callback: it goes on while the callback makes progress.\<close>

primrec callback_loop :: "pb_env \<Rightarrow> nat \<Rightarrow> field_iter \<Rightarrow> (pb, bool) state" where
  "callback_loop env 0 field = get_stuck"
| "callback_loop env (Suc n) field = do {
     prev \<leftarrow> gets (\<lambda>s. bytes_left (istr s));
     check (call_field_callback env (field_callback (descriptor field)) True field) (do {
       left \<leftarrow> gets (\<lambda>s. bytes_left (istr s));
       if 0 < left \<and> left < prev then callback_loop env n field else State_Monad.return True
     })
   }"

definition decode_callback_field :: "pb_env \<Rightarrow> uint8 \<Rightarrow> field_iter \<Rightarrow> (pb, bool) state" where
  "decode_callback_field env wire_type field =
     (if field_callback (descriptor field) = No_callback then pb_skip_field env wire_type
      else if wire_type = PB_WT_STRING then
        check_some pb_make_string_substream (\<lambda>substream. do {
          (ok, sub) \<leftarrow> with_istream substream
            (callback_loop env (bytes_left substream + 1) field);
          if \<not> ok then is_return_error ''callback failed''
          else check (pb_close_string_substream sub) (State_Monad.return True)
        })
      else
        check_some (read_raw_value wire_type (raw_buffer_at env) 10) (\<lambda>sz. do {
          (ok, sub) \<leftarrow> with_istream (pb_istream_from_buffer (raw_buffer_at env) sz)
            (call_field_callback env (field_callback (descriptor field)) True field);
          State_Monad.return ok
        }))"

definition decode_field ::
  "pb_env \<Rightarrow> decoder \<Rightarrow> initialiser \<Rightarrow> uint8 \<Rightarrow> field_iter \<Rightarrow> (pb, bool) state" where
  "decode_field env dec dfl wire_type field =
     (let at = PB_ATYPE (ftype field) in
      if at = PB_ATYPE_STATIC then decode_static_field env dec dfl wire_type field
      else if at = PB_ATYPE_POINTER then decode_pointer_field
      else if at = PB_ATYPE_CALLBACK then decode_callback_field env wire_type field
      else is_return_error ''invalid field type'')"

section \<open>Extensions\<close>

definition default_extension_decoder ::
  "pb_env \<Rightarrow> decoder \<Rightarrow> initialiser \<Rightarrow> nat \<Rightarrow> uint32 \<Rightarrow> uint8 \<Rightarrow> (pb, bool) state" where
  "default_extension_decoder env dec dfl ext t wire_type = do {
     m \<leftarrow> gets mem;
     let (ok, it) = pb_field_iter_begin_extension env m ext in
     if \<not> ok then is_return_error ''invalid extension''
     else if ucast (tag it) \<noteq> t \<or> message it = 0 then State_Monad.return True
     else do {
       put_bytes (ext_found_addr env ext) [1];
       decode_field env dec dfl wire_type it
     }
   }"

text \<open>The list of extensions, until one of them has consumed input.\<close>

primrec decode_extensions ::
  "pb_env \<Rightarrow> decoder \<Rightarrow> initialiser \<Rightarrow> nat \<Rightarrow> nat \<Rightarrow> uint32 \<Rightarrow> uint8 \<Rightarrow> nat \<Rightarrow> (pb, bool) state" where
  "decode_extensions env dec dfl 0 pos t wire_type ext = do {
     left \<leftarrow> gets (\<lambda>s. bytes_left (istr s));
     if ext \<noteq> 0 \<and> pos = left then get_stuck else State_Monad.return True
   }"
| "decode_extensions env dec dfl (Suc n) pos t wire_type ext = do {
     left \<leftarrow> gets (\<lambda>s. bytes_left (istr s));
     if ext \<noteq> 0 \<and> pos = left then do {
       m \<leftarrow> gets mem;
       let fn = ext_type_decode env m (ext_type env m ext);
       check (if fn \<noteq> 0 then ext_decode_fn env fn ext t wire_type
              else default_extension_decoder env dec dfl ext t wire_type)
         (do {
            m' \<leftarrow> gets mem;
            decode_extensions env dec dfl n pos t wire_type (ext_next env m' ext)
          })
     } else State_Monad.return True
   }"

definition decode_extension ::
  "pb_env \<Rightarrow> decoder \<Rightarrow> initialiser \<Rightarrow> nat \<Rightarrow> uint32 \<Rightarrow> uint8 \<Rightarrow> nat \<Rightarrow> (pb, bool) state" where
  "decode_extension env dec dfl n t wire_type ext = do {
     pos \<leftarrow> gets (\<lambda>s. bytes_left (istr s));
     decode_extensions env dec dfl n pos t wire_type ext
   }"

end
