(* ===== verification/Pb_Decode_Message.thy ===== *)
theory Pb_Decode_Message
  imports Pb_Decode
begin

text \<open>
  The rest of \<open>pb_decode.c\<close>: default values, the loop over the fields of a message,
  and the entry points.
\<close>

section \<open>Default values\<close>

primrec default_extensions :: "pb_env \<Rightarrow> initialiser \<Rightarrow> nat \<Rightarrow> nat \<Rightarrow> (pb, bool) state" where
  "default_extensions env dfl 0 ext = (if ext = 0 then State_Monad.return True else get_stuck)"
| "default_extensions env dfl (Suc n) ext =
     (if ext = 0 then State_Monad.return True
      else do {
        m \<leftarrow> gets mem;
        let (ok, ext_iter) = pb_field_iter_begin_extension env m ext;
        check (if ok then do {
                 put_bytes (ext_found_addr env ext) [0];
                 run_dfl dfl ext_iter
               } else State_Monad.return True)
          (do {
             m' \<leftarrow> gets mem;
             default_extensions env dfl n (ext_next env m' ext)
           })
      })"

definition pb_field_set_to_default ::
  "pb_env \<Rightarrow> initialiser \<Rightarrow> nat \<Rightarrow> field_iter \<Rightarrow> (pb, bool) state" where
  "pb_field_set_to_default env dfl n field =
     (let type = ftype field in
      if PB_LTYPE type = PB_LTYPE_EXTENSION then do {
        ext \<leftarrow> get_ptr env (pData field);
        default_extensions env dfl n ext
      }
      else if PB_ATYPE type = PB_ATYPE_STATIC then
        (if PB_HTYPE type = PB_HTYPE_REPEATED \<or> PB_HTYPE type = PB_HTYPE_ONEOF then do {
           ignore (put_size 0 field);
           State_Monad.return True
         }
         else do {
           if_then (PB_HTYPE type = PB_HTYPE_OPTIONAL \<and> pSize field \<noteq> Size_null)
             (ignore (put_has False field));
           if PB_LTYPE_IS_SUBMSG type \<and> submsg_desc field = None then get_stuck
           else if PB_LTYPE_IS_SUBMSG type \<and> has_defaults (the (submsg_desc field)) then do {
             m \<leftarrow> gets mem;
             let (ok, submsg_iter) =
               pb_field_iter_begin env m (the (submsg_desc field)) (pData field);
             if ok then run_dfl dfl submsg_iter else State_Monad.return True
           }
           else do {
             put_bytes (pData field) (replicate (unat (data_size field)) 0);
             State_Monad.return True
           }
         })
      else if PB_ATYPE type = PB_ATYPE_POINTER then do {
        put_bytes (pField field) (replicate (ptr_bytes env) 0);
        if_then (PB_HTYPE type = PB_HTYPE_REPEATED \<or> PB_HTYPE type = PB_HTYPE_ONEOF)
          (ignore (put_size 0 field));
        State_Monad.return True
      }
      else State_Monad.return True)"

text \<open>\<open>defstream\<close> and the tag and wire type last read from it are locals of the function.\<close>

primrec defaults_loop ::
  "pb_env \<Rightarrow> decoder \<Rightarrow> initialiser \<Rightarrow> nat \<Rightarrow> nat \<Rightarrow> istream \<Rightarrow> uint8 \<Rightarrow> uint32 \<Rightarrow> field_iter \<Rightarrow>
     (pb, field_iter option) state" where
  "defaults_loop env dec dfl n 0 defstream wire_type t it = do {
     ignore get_stuck;
     State_Monad.return None
   }"
| "defaults_loop env dec dfl n (Suc k) defstream wire_type t it = do {
     ok \<leftarrow> pb_field_set_to_default env dfl n it;
     r \<leftarrow>
       (if \<not> ok then State_Monad.return None
        else if t \<noteq> 0 \<and> ucast (tag it) = t then do {
          (r, defstream') \<leftarrow> with_istream defstream (do {
            ok \<leftarrow> decode_field env dec dfl wire_type it;
            if \<not> ok then State_Monad.return None
            else do { (r, eof) \<leftarrow> pb_decode_tag; State_Monad.return r }
          });
          if_then (r \<noteq> None \<and> pSize it \<noteq> Size_null) (ignore (put_has False it));
          State_Monad.return (map_option (\<lambda>(w, t). (defstream', w, t)) r)
        } else State_Monad.return (Some (defstream, wire_type, t)));
     case r of
       None \<Rightarrow> State_Monad.return None
     | Some (defstream, wire_type, t) \<Rightarrow> do {
         m \<leftarrow> gets mem;
         let (more, it') = pb_field_iter_next env m it in
         if more then defaults_loop env dec dfl n k defstream wire_type t it'
         else State_Monad.return (Some it')
       }
   }"

definition set_to_defaults_body :: "pb_env \<Rightarrow> decoder \<Rightarrow> initialiser \<Rightarrow> nat \<Rightarrow> initialiser" where
  "set_to_defaults_body env dec dfl n it =
     (let d = descriptor it; k = unat (field_count d) in
      if default_value d \<noteq> 0 then do {
        ((r, eof), defstream) \<leftarrow>
          with_istream (pb_istream_from_buffer (default_value d) (2 ^ size_bits env - 1))
            pb_decode_tag;
        case r of
          None \<Rightarrow> State_Monad.return None
        | Some (wire_type, t) \<Rightarrow> defaults_loop env dec dfl n k defstream wire_type t it
      }
      else defaults_loop env dec dfl n k PB_ISTREAM_EMPTY PB_WT_VARINT 0 it)"

section \<open>The loop over a message\<close>

text \<open>The locals of \<open>pb_decode_inner\<close>, but for \<open>fixed_count_size\<close>, which is part of \<open>pb\<close>.\<close>

record inner =
  extension_range_start :: uint32
  extensions :: nat
  fixed_count_field :: uint16
  fixed_count_total_size :: uint16
  fields_seen0 :: uint32
  fields_seen1 :: uint32
  it :: field_iter

definition inner_start :: "field_iter \<Rightarrow> inner" where
  "inner_start iter =
     \<lparr> extension_range_start = 0, extensions = 0, fixed_count_field = PB_SIZE_MAX,
       fixed_count_total_size = 0, fields_seen0 = 0, fields_seen1 = 0, it = iter \<rparr>"

definition mark_seen :: "uint16 \<Rightarrow> inner \<Rightarrow> inner" where
  "mark_seen i l =
     (let tmp = push_bit (unat (i AND 31)) 1 in
      if drop_bit 5 i = 0 then l\<lparr>fields_seen0 := fields_seen0 l OR tmp\<rparr>
      else l\<lparr>fields_seen1 := fields_seen1 l OR tmp\<rparr>)"

text \<open>No field has the tag: try the extensions, then skip the data.\<close>

definition unknown_field ::
  "pb_env \<Rightarrow> decoder \<Rightarrow> initialiser \<Rightarrow> nat \<Rightarrow> uint32 \<Rightarrow> uint8 \<Rightarrow> inner \<Rightarrow> (pb, inner option) state" where
  "unknown_field env dec dfl n t wire_type l = do {
     m \<leftarrow> gets mem;
     l \<leftarrow>
       (if extension_range_start l = 0 then
          (case pb_field_iter_find_extension env m (it l) of
             None \<Rightarrow> do { ignore get_stuck; State_Monad.return l }
           | Some (found, iter) \<Rightarrow>
               (let l = l\<lparr>it := iter\<rparr>;
                    l = (if found then l\<lparr>extensions := load_ptr env m (pData iter),
                                        extension_range_start := ucast (tag iter)\<rparr> else l);
                    l = (if extensions l = 0 then l\<lparr>extension_range_start := 0xFFFFFFFF\<rparr> else l)
                in State_Monad.return l))
        else State_Monad.return l);
     pos \<leftarrow> gets (\<lambda>s. bytes_left (istr s));
     ok \<leftarrow> (if extension_range_start l \<le> t then decode_extension env dec dfl n t wire_type (extensions l)
            else State_Monad.return True);
     left \<leftarrow> gets (\<lambda>s. bytes_left (istr s));
     if \<not> ok then State_Monad.return None
     else if extension_range_start l \<le> t \<and> pos \<noteq> left then State_Monad.return (Some l)
     else do {
       ok \<leftarrow> pb_skip_field env wire_type;
       State_Monad.return (if ok then Some l else None)
     }
   }"

text \<open>A field with the tag has been found; \<open>None\<close> is \<open>return false\<close>.\<close>

definition known_field ::
  "pb_env \<Rightarrow> decoder \<Rightarrow> initialiser \<Rightarrow> uint8 \<Rightarrow> inner \<Rightarrow> (pb, inner option) state" where
  "known_field env dec dfl wire_type l = do {
     fixed_size \<leftarrow> gets fixed_count_size;
     let iter = it l;
         fixed = (PB_HTYPE (ftype iter) = PB_HTYPE_REPEATED \<and> pSize iter = Size_self);
         changed = (fixed \<and> fixed_count_field l \<noteq> index iter) in
     if changed \<and> fixed_count_field l \<noteq> PB_SIZE_MAX \<and> fixed_size \<noteq> fixed_count_total_size l
     then is_return_none ''wrong size for fixed count field''
     else do {
       if_then changed (modify (fixed_count_size_update (\<lambda>_. 0)));
       let l = (if changed then l\<lparr>fixed_count_field := index iter,
                                  fixed_count_total_size := array_size iter\<rparr> else l);
       let iter = (if fixed then iter\<lparr>pSize := Size_fixed\<rparr> else iter);
       let l = l\<lparr>it := iter\<rparr>;
       let l = (if PB_HTYPE (ftype iter) = PB_HTYPE_REQUIRED \<and>
                   required_field_index iter < PB_MAX_REQUIRED_FIELDS
                then mark_seen (required_field_index iter) l else l);
       ok \<leftarrow> decode_field env dec dfl wire_type iter;
       State_Monad.return (if ok then Some l else None)
     }
   }"

text \<open>
  The while loop; every round reads at least the tag, so the stream's length plus one
  is enough fuel. The result is whether the loop ended without an error, with the
  locals at its end.
\<close>

primrec inner_loop ::
  "pb_env \<Rightarrow> decoder \<Rightarrow> initialiser \<Rightarrow> uint32 \<Rightarrow> nat \<Rightarrow> nat \<Rightarrow> inner \<Rightarrow> (pb, inner option) state" where
  "inner_loop env dec dfl flags n 0 l = do { ignore get_stuck; State_Monad.return None }"
| "inner_loop env dec dfl flags n (Suc k) l = do {
     left \<leftarrow> gets (\<lambda>s. bytes_left (istr s));
     if left = 0 then State_Monad.return (Some l)
     else do {
       (r, eof) \<leftarrow> pb_decode_tag;
       case r of
         None \<Rightarrow> State_Monad.return (if eof then Some l else None)
       | Some (wire_type, t) \<Rightarrow>
           (if t = 0 then
              (if flags AND PB_DECODE_NULLTERMINATED \<noteq> 0 then State_Monad.return (Some l)
               else is_return_none ''zero tag'')
            else do {
              m \<leftarrow> gets mem;
              case pb_field_iter_find env m (it l) t of
                None \<Rightarrow> do { ignore get_stuck; State_Monad.return None }
              | Some (found, iter) \<Rightarrow> do {
                  r \<leftarrow> (if \<not> found \<or> PB_LTYPE (ftype iter) = PB_LTYPE_EXTENSION
                       then unknown_field env dec dfl n t wire_type (l\<lparr>it := iter\<rparr>)
                       else known_field env dec dfl wire_type (l\<lparr>it := iter\<rparr>));
                  case r of
                    None \<Rightarrow> State_Monad.return None
                  | Some l' \<Rightarrow> inner_loop env dec dfl flags n k l'
                }
            })
     }
   }"

text \<open>All required fields have been seen.\<close>

definition required_seen :: "inner \<Rightarrow> bool" where
  "required_seen l =
     (let req = required_field_count (descriptor (it l));
          req = (if PB_MAX_REQUIRED_FIELDS < req then PB_MAX_REQUIRED_FIELDS else req);
          seen = (\<lambda>i. if i = 0 then fields_seen0 l else fields_seen1 l);
          words = unat (drop_bit 5 req) in
      list_all (\<lambda>i. seen i = 0xFFFFFFFF) [0 ..< words] \<and>
      (req AND 31 \<noteq> 0 \<longrightarrow> seen words = drop_bit (32 - unat (req AND 31)) 0xFFFFFFFF))"

text \<open>A block with its own \<open>fixed_count_size\<close>.\<close>

definition with_fixed_count :: "(pb, 'a) state \<Rightarrow> (pb, 'a) state" where
  "with_fixed_count m = do {
     outer \<leftarrow> gets fixed_count_size;
     modify (fixed_count_size_update (\<lambda>_. 0));
     r \<leftarrow> m;
     modify (fixed_count_size_update (\<lambda>_. outer));
     State_Monad.return r
   }"

definition decode_inner_body ::
  "pb_env \<Rightarrow> decoder \<Rightarrow> initialiser \<Rightarrow> nat \<Rightarrow> decoder" where
  "decode_inner_body env dec dfl n desc dest flags = with_fixed_count (do {
     m \<leftarrow> gets mem;
     let (ok, iter) = pb_field_iter_begin env m desc dest;
     r \<leftarrow> (if ok \<and> flags AND PB_DECODE_NOINIT = 0 then dfl iter else State_Monad.return (Some iter));
     case r of
       None \<Rightarrow> is_return_error ''failed to set defaults''
     | Some iter \<Rightarrow> do {
         left \<leftarrow> gets (\<lambda>s. bytes_left (istr s));
         r \<leftarrow> inner_loop env dec dfl flags n (left + 1) (inner_start iter);
         fixed_size \<leftarrow> gets fixed_count_size;
         case r of
           None \<Rightarrow> State_Monad.return False
         | Some l \<Rightarrow>
             (if fixed_count_field l \<noteq> PB_SIZE_MAX \<and> fixed_size \<noteq> fixed_count_total_size l
              then is_return_error ''wrong size for fixed count field''
              else if \<not> required_seen l then is_return_error ''missing required field''
              else State_Monad.return True)
       }
   })"

text \<open>
  The two mutually recursive functions. The fuel is spent on nesting: a submessage is
  initialised and decoded with one unit less than its parent; it also bounds the
  length of extension lists.
\<close>

fun pb_message_set_to_defaults :: "pb_env \<Rightarrow> nat \<Rightarrow> initialiser"
  and pb_decode_inner :: "pb_env \<Rightarrow> nat \<Rightarrow> decoder" where
  "pb_message_set_to_defaults env 0 =
     (\<lambda>it. do { ignore get_stuck; State_Monad.return None })"
| "pb_message_set_to_defaults env (Suc n) =
     set_to_defaults_body env (pb_decode_inner env n) (pb_message_set_to_defaults env n) n"
| "pb_decode_inner env 0 = (\<lambda>desc dest flags. get_stuck)"
| "pb_decode_inner env (Suc n) =
     decode_inner_body env (pb_decode_inner env n) (pb_message_set_to_defaults env n) n"

section \<open>Entry points\<close>

definition pb_decode_ex :: "pb_env \<Rightarrow> nat \<Rightarrow> decoder" where
  "pb_decode_ex env n desc dest flags =
     (if flags AND PB_DECODE_DELIMITED = 0 then pb_decode_inner env n desc dest flags
      else
        check_some pb_make_string_substream (\<lambda>substream. do {
          (status, sub) \<leftarrow> with_istream substream (pb_decode_inner env n desc dest flags);
          check (pb_close_string_substream sub) (State_Monad.return status)
        }))"

definition pb_decode :: "pb_env \<Rightarrow> nat \<Rightarrow> msgdesc \<Rightarrow> nat \<Rightarrow> (pb, bool) state" where
  "pb_decode env n desc dest = pb_decode_inner env n desc dest 0"

end
