(* ===== verification/Pb_Bind.thy ===== *)
theory Pb_Bind
  imports Pb_Encode Pb_Decode_Message
begin

text \<open>
  The macro \<open>PB_BIND\<close> of \<open>pb.h\<close>: from the \<open>X(a, atype, htype, ltype, name, tag)\<close>
  list that the generator writes, with the offsets and sizes that the compiler fills
  in, to a message descriptor.
\<close>

datatype proto_htype = H_REQUIRED | H_SINGULAR | H_OPTIONAL | H_REPEATED | H_FIXARRAY | H_ONEOF

datatype proto_type =
    T_BOOL | T_BYTES | T_DOUBLE | T_ENUM | T_UENUM | T_FIXED32 | T_FIXED64 | T_FLOAT | T_INT32
  | T_INT64 | T_MESSAGE | T_MSG_W_CB | T_SFIXED32 | T_SFIXED64 | T_SINT32 | T_SINT64 | T_STRING
  | T_UINT32 | T_UINT64 | T_EXTENSION | T_FIXED_LENGTH_BYTES

datatype proto_atype = A_STATIC | A_POINTER | A_CALLBACK

record field_spec =
  fs_atype :: proto_atype
  fs_htype :: proto_htype
  fs_ltype :: proto_type
  fs_tag :: uint32
  fs_data_offset :: uint32
  fs_data_size :: uint32
  fs_size_offset :: uint32
  fs_array_size :: uint32
  fs_submsg :: "msgdesc option"

text \<open>\<open>PB_ATYPE_x\<close>, \<open>PB_HTYPE_x\<close> and the \<open>PB_LTYPE_MAP_x\<close> table.\<close>

definition atype_code :: "proto_atype \<Rightarrow> uint8" where
  "atype_code a = (case a of A_STATIC \<Rightarrow> PB_ATYPE_STATIC | A_POINTER \<Rightarrow> PB_ATYPE_POINTER
     | A_CALLBACK \<Rightarrow> PB_ATYPE_CALLBACK)"

definition htype_code :: "proto_htype \<Rightarrow> uint8" where
  "htype_code h = (case h of H_REQUIRED \<Rightarrow> PB_HTYPE_REQUIRED | H_SINGULAR \<Rightarrow> PB_HTYPE_SINGULAR
     | H_OPTIONAL \<Rightarrow> PB_HTYPE_OPTIONAL | H_REPEATED \<Rightarrow> PB_HTYPE_REPEATED
     | H_FIXARRAY \<Rightarrow> PB_HTYPE_FIXARRAY | H_ONEOF \<Rightarrow> PB_HTYPE_ONEOF)"

definition PB_LTYPE_MAP :: "proto_type \<Rightarrow> uint8" where
  "PB_LTYPE_MAP t =
     (case t of
        T_BOOL \<Rightarrow> PB_LTYPE_BOOL
      | T_BYTES \<Rightarrow> PB_LTYPE_BYTES
      | T_DOUBLE \<Rightarrow> PB_LTYPE_FIXED64
      | T_ENUM \<Rightarrow> PB_LTYPE_VARINT
      | T_UENUM \<Rightarrow> PB_LTYPE_UVARINT
      | T_FIXED32 \<Rightarrow> PB_LTYPE_FIXED32
      | T_FIXED64 \<Rightarrow> PB_LTYPE_FIXED64
      | T_FLOAT \<Rightarrow> PB_LTYPE_FIXED32
      | T_INT32 \<Rightarrow> PB_LTYPE_VARINT
      | T_INT64 \<Rightarrow> PB_LTYPE_VARINT
      | T_MESSAGE \<Rightarrow> PB_LTYPE_SUBMESSAGE
      | T_MSG_W_CB \<Rightarrow> PB_LTYPE_SUBMSG_W_CB
      | T_SFIXED32 \<Rightarrow> PB_LTYPE_FIXED32
      | T_SFIXED64 \<Rightarrow> PB_LTYPE_FIXED64
      | T_SINT32 \<Rightarrow> PB_LTYPE_SVARINT
      | T_SINT64 \<Rightarrow> PB_LTYPE_SVARINT
      | T_STRING \<Rightarrow> PB_LTYPE_STRING
      | T_UINT32 \<Rightarrow> PB_LTYPE_UVARINT
      | T_UINT64 \<Rightarrow> PB_LTYPE_UVARINT
      | T_EXTENSION \<Rightarrow> PB_LTYPE_EXTENSION
      | T_FIXED_LENGTH_BYTES \<Rightarrow> PB_LTYPE_FIXED_LENGTH_BYTES)"

text \<open>\<open>PB_FIELDINFO_WIDTH_AUTO\<close>: one word where it can hold the field, else two.\<close>

definition PB_FIELDINFO_WIDTH_AUTO :: "proto_atype \<Rightarrow> proto_htype \<Rightarrow> proto_type \<Rightarrow> nat" where
  "PB_FIELDINFO_WIDTH_AUTO a h t =
     (if a = A_CALLBACK then 2
      else if h = H_REPEATED \<or> h = H_FIXARRAY then 2
      else case t of
          T_BYTES \<Rightarrow> 2 | T_MESSAGE \<Rightarrow> 2 | T_MSG_W_CB \<Rightarrow> 2 | T_STRING \<Rightarrow> 2
        | T_FIXED_LENGTH_BYTES \<Rightarrow> 2 | _ \<Rightarrow> 1)"

definition field_type_code :: "field_spec \<Rightarrow> uint8" where
  "field_type_code s = atype_code (fs_atype s) OR htype_code (fs_htype s) OR PB_LTYPE_MAP (fs_ltype s)"

definition PB_GEN_FIELD_INFO_AUTO :: "field_spec \<Rightarrow> uint32 list" where
  "PB_GEN_FIELD_INFO_AUTO s =
     (if PB_FIELDINFO_WIDTH_AUTO (fs_atype s) (fs_htype s) (fs_ltype s) = 1
      then PB_FIELDINFO_1 (fs_tag s) (ucast (field_type_code s)) (fs_data_offset s)
        (fs_data_size s) (fs_size_offset s) (fs_array_size s)
      else PB_FIELDINFO_2 (fs_tag s) (ucast (field_type_code s)) (fs_data_offset s)
        (fs_data_size s) (fs_size_offset s) (fs_array_size s))"

definition PB_FITS :: "uint32 \<Rightarrow> nat \<Rightarrow> bool" where
  "PB_FITS val bits \<longleftrightarrow> unat val < 2 ^ bits"

text \<open>The static assertion that the field fits its words.\<close>

definition PB_GEN_FIELD_INFO_ASSERT_AUTO :: "field_spec \<Rightarrow> bool" where
  "PB_GEN_FIELD_INFO_ASSERT_AUTO s =
     (if PB_FIELDINFO_WIDTH_AUTO (fs_atype s) (fs_htype s) (fs_ltype s) = 1
      then PB_FITS (fs_tag s) 6 \<and> PB_FITS (fs_data_offset s) 8 \<and> PB_FITS (fs_size_offset s) 4 \<and>
        PB_FITS (fs_data_size s) 4 \<and> PB_FITS (fs_array_size s) 1
      else PB_FITS (fs_tag s) 10 \<and> PB_FITS (fs_data_offset s) 16 \<and> PB_FITS (fs_size_offset s) 4 \<and>
        PB_FITS (fs_data_size s) 12 \<and> PB_FITS (fs_array_size s) 12)"

definition PB_BIND :: "field_spec list \<Rightarrow> nat \<Rightarrow> field_callback \<Rightarrow> msgdesc" where
  "PB_BIND fs dflt cb =
     Msgdesc
       (concat (map PB_GEN_FIELD_INFO_AUTO fs) @ [0])
       (List.map_filter fs_submsg fs)
       dflt
       cb
       (of_nat (length fs))
       (of_nat (length (filter (\<lambda>s. htype_code (fs_htype s) = PB_HTYPE_REQUIRED) fs)))
       (if fs = [] then 0 else ucast (fs_tag (last fs)))"

end
