(* ===== verification/Pb_Messages.thy ===== *)
theory Pb_Messages
  imports Pb_Bind Ieee_Float
begin

text \<open>
  The two message types of the link (\<open>high_to_low.pb.[ch]\<close>, \<open>low_to_high.pb.[ch]\<close>).
  \<open>enum_bytes\<close> is the size the compiler gives to an enumeration, 1 (short enums) or 4;
  the offsets below are those of the structures for either choice.
\<close>

section \<open>Enumerators and tags\<close>

definition PWMState_ON :: uint32 where "PWMState_ON = 0"
definition PWMState_OFF :: uint32 where "PWMState_OFF = 1"
definition PWMState_F :: uint32 where "PWMState_F = 2"

definition HighToLow_set_pwm_tag :: uint16 where "HighToLow_set_pwm_tag = 1"
definition HighToLow_allow_power_on_tag :: uint16 where "HighToLow_allow_power_on_tag = 2"
definition HighToLow_enable_tag :: uint16 where "HighToLow_enable_tag = 3"
definition HighToLow_disable_tag :: uint16 where "HighToLow_disable_tag = 4"
definition HighToLow_heartbeat_tag :: uint16 where "HighToLow_heartbeat_tag = 5"
definition LowToHigh_event_tag :: uint16 where "LowToHigh_event_tag = 1"
definition LowToHigh_heartbeat_tag :: uint16 where "LowToHigh_heartbeat_tag = 2"
definition HighToLow_size :: nat where "HighToLow_size = 9"
definition LowToHigh_size :: nat where "LowToHigh_size = 2"

lemmas message_tags =
  HighToLow_set_pwm_tag_def HighToLow_allow_power_on_tag_def HighToLow_enable_tag_def
  HighToLow_disable_tag_def HighToLow_heartbeat_tag_def LowToHigh_event_tag_def
  LowToHigh_heartbeat_tag_def

text \<open>\<open>IEC61851Event\<close>, in the order of its values.\<close>

datatype iec_event =
    IEC61851Event_CAR_PLUGGED_IN | IEC61851Event_CAR_REQUESTED_POWER | IEC61851Event_POWER_ON
  | IEC61851Event_POWER_OFF | IEC61851Event_CAR_REQUESTED_STOP_POWER
  | IEC61851Event_CAR_UNPLUGGED | IEC61851Event_ERROR_E | IEC61851Event_ERROR_DF
  | IEC61851Event_ERROR_RELAIS | IEC61851Event_ERROR_RCD
  | IEC61851Event_ERROR_VENTILATION_NOT_AVAILABLE | IEC61851Event_ERROR_OVER_CURRENT
  | IEC61851Event_EF_TO_BCD | IEC61851Event_BCD_TO_EF | IEC61851Event_PERMANENT_FAULT
  | IEC61851Event_EVSE_REPLUG_STARTED | IEC61851Event_EVSE_REPLUG_FINISHED

definition iec_event_value :: "iec_event \<Rightarrow> uint32" where
  "iec_event_value e =
     (case e of
        IEC61851Event_CAR_PLUGGED_IN \<Rightarrow> 0
      | IEC61851Event_CAR_REQUESTED_POWER \<Rightarrow> 1
      | IEC61851Event_POWER_ON \<Rightarrow> 2
      | IEC61851Event_POWER_OFF \<Rightarrow> 3
      | IEC61851Event_CAR_REQUESTED_STOP_POWER \<Rightarrow> 4
      | IEC61851Event_CAR_UNPLUGGED \<Rightarrow> 5
      | IEC61851Event_ERROR_E \<Rightarrow> 6
      | IEC61851Event_ERROR_DF \<Rightarrow> 7
      | IEC61851Event_ERROR_RELAIS \<Rightarrow> 8
      | IEC61851Event_ERROR_RCD \<Rightarrow> 9
      | IEC61851Event_ERROR_VENTILATION_NOT_AVAILABLE \<Rightarrow> 10
      | IEC61851Event_ERROR_OVER_CURRENT \<Rightarrow> 11
      | IEC61851Event_EF_TO_BCD \<Rightarrow> 12
      | IEC61851Event_BCD_TO_EF \<Rightarrow> 13
      | IEC61851Event_PERMANENT_FAULT \<Rightarrow> 14
      | IEC61851Event_EVSE_REPLUG_STARTED \<Rightarrow> 15
      | IEC61851Event_EVSE_REPLUG_FINISHED \<Rightarrow> 16)"

section \<open>Descriptors\<close>

text \<open>A static field outside and inside the \<open>message\<close> union.\<close>

definition singular_field :: "proto_type \<Rightarrow> uint32 \<Rightarrow> uint32 \<Rightarrow> uint32 \<Rightarrow> field_spec" where
  "singular_field t tag' offset' sz =
     \<lparr> fs_atype = A_STATIC, fs_htype = H_SINGULAR, fs_ltype = t, fs_tag = tag',
       fs_data_offset = offset', fs_data_size = sz, fs_size_offset = 0, fs_array_size = 1,
       fs_submsg = None \<rparr>"

definition oneof_field ::
  "proto_type \<Rightarrow> uint32 \<Rightarrow> uint32 \<Rightarrow> uint32 \<Rightarrow> msgdesc option \<Rightarrow> field_spec" where
  "oneof_field t tag' offset' sz sub =
     \<lparr> fs_atype = A_STATIC, fs_htype = H_ONEOF, fs_ltype = t, fs_tag = tag',
       fs_data_offset = offset', fs_data_size = sz, fs_size_offset = offset', fs_array_size = 1,
       fs_submsg = sub \<rparr>"

definition Empty_msg :: msgdesc where
  "Empty_msg = PB_BIND [] 0 No_callback"

definition CpuHeartbeat_msg :: msgdesc where
  "CpuHeartbeat_msg = PB_BIND [] 0 No_callback"

definition McuHeartbeat_msg :: msgdesc where
  "McuHeartbeat_msg = PB_BIND [] 0 No_callback"

definition SetPWM_FIELDLIST :: "uint32 \<Rightarrow> field_spec list" where
  "SetPWM_FIELDLIST enum_bytes =
     [singular_field T_UENUM 1 0 enum_bytes, singular_field T_FLOAT 2 4 4]"

definition SetPWM_msg :: "uint32 \<Rightarrow> msgdesc" where
  "SetPWM_msg enum_bytes = PB_BIND (SetPWM_FIELDLIST enum_bytes) 0 No_callback"

definition HighToLow_FIELDLIST :: "uint32 \<Rightarrow> field_spec list" where
  "HighToLow_FIELDLIST enum_bytes =
     [oneof_field T_MESSAGE 1 4 8 (Some (SetPWM_msg enum_bytes)),
      oneof_field T_BOOL 2 4 1 None,
      oneof_field T_MESSAGE 3 4 1 (Some Empty_msg),
      oneof_field T_MESSAGE 4 4 1 (Some Empty_msg),
      oneof_field T_MESSAGE 5 4 1 (Some CpuHeartbeat_msg)]"

definition HighToLow_msg :: "uint32 \<Rightarrow> msgdesc" where
  "HighToLow_msg enum_bytes = PB_BIND (HighToLow_FIELDLIST enum_bytes) 0 No_callback"

text \<open>The union of \<open>LowToHigh\<close> is aligned as the enumeration is.\<close>

definition LowToHigh_union :: "uint32 \<Rightarrow> uint32" where
  "LowToHigh_union enum_bytes = (if enum_bytes = 4 then 4 else 2)"

definition LowToHigh_FIELDLIST :: "uint32 \<Rightarrow> field_spec list" where
  "LowToHigh_FIELDLIST enum_bytes =
     [oneof_field T_UENUM 1 (LowToHigh_union enum_bytes) enum_bytes None,
      oneof_field T_MESSAGE 2 (LowToHigh_union enum_bytes) 1 (Some McuHeartbeat_msg)]"

definition LowToHigh_msg :: "uint32 \<Rightarrow> msgdesc" where
  "LowToHigh_msg enum_bytes = PB_BIND (LowToHigh_FIELDLIST enum_bytes) 0 No_callback"

end
