(* ===== verification/Rpmsg.thy ===== *)
theory Rpmsg
  imports Sampler Pb_Messages
begin

text \<open>
  \<open>class RPMsg\<close> of \<open>firmware/bsp_drivers/rpmsg.cpp\<close>, with the message structures and
  the buffers it works on in the memory of \<open>Pb_Core\<close>. \<open>fw\<close> is everything the
  firmware keeps beside the state machine's object.
\<close>

section \<open>The firmware's state\<close>

record 'hw fw =
  drvs :: "'hw drv"
  stack :: mem
  messages_received :: uint32
  remote_peer_detected :: bool
  remote_core_id :: uint16
  remote_end_point :: uint16

text \<open>
  What the firmware is built with: the board, the nanopb library, the size of an
  enumeration, and where the locals \<open>input\<close> (\<open>main_task\<close>), \<open>msg_buffer\<close> (\<open>get_msg\<close>),
  \<open>out\<close> (\<open>push_event\<close>) and \<open>encode_buf\<close> (\<open>send_msg\<close>) lie.
\<close>

record fw_cfg =
  bd :: board
  pb_lib :: pb_env
  enum_bytes :: uint32
  input_at :: nat
  msg_buffer_at :: nat
  out_at :: nat
  encode_buf_at :: nat

definition on_drv_hw :: "('hw, 'a) state \<Rightarrow> ('hw fw, 'a) state" where
  "on_drv_hw m = State (\<lambda>f. case run_state m (hw (drvs f)) of
     (a, w) \<Rightarrow> (a, f\<lparr>drvs := (drvs f)\<lparr>hw := w\<rparr>\<rparr>))"

lemma run_on_drv_hw [simp]:
  "run_state (on_drv_hw m) f =
     (fst (run_state m (hw (drvs f))),
      f\<lparr>drvs := (drvs f)\<lparr>hw := snd (run_state m (hw (drvs f)))\<rparr>\<rparr>)"
  by (simp add: on_drv_hw_def split: prod.splits)

text \<open>The nesting of both message types is two; one unit more for good measure.\<close>

definition pb_fuel :: nat where "pb_fuel = 3"

definition pb_on :: "mem \<Rightarrow> ostream \<Rightarrow> istream \<Rightarrow> pb" where
  "pb_on m os is = \<lparr> mem = m, ostr = os, istr = is, fixed_count_size = 0, stuck = False \<rparr>"

section \<open>The link\<close>

definition RPMSG_CHAR_DEV_ENDPOINT_ID :: uint32 where "RPMSG_CHAR_DEV_ENDPOINT_ID = 14"
definition RPMSG_CHAR_DEV_CHANNEL_NAME :: string where
  "RPMSG_CHAR_DEV_CHANNEL_NAME = ''rpmsg_chrdev''"
definition MAX_MESSAGES_BACKLOG :: nat where "MAX_MESSAGES_BACKLOG = 16"
definition MSG_SEND_TIMEOUT_MS :: uint32 where "MSG_SEND_TIMEOUT_MS = 10"

text \<open>The constructor; \<open>False\<close> is a failed \<open>DebugP_assert\<close>, which stops the program.\<close>

definition rpmsg_construct :: "'hw sdk \<Rightarrow> ('hw fw, bool) state" where
  "rpmsg_construct sdk = do {
     modify (\<lambda>f. f\<lparr>remote_peer_detected := False\<rparr>);
     check (on_drv_hw (rpmessage_announce sdk RPMSG_CHAR_DEV_ENDPOINT_ID RPMSG_CHAR_DEV_CHANNEL_NAME))
       (do {
          on_drv_hw (sem_create_counting sdk MAX_MESSAGES_BACKLOG Pending_msgs);
          on_drv_hw (rpmessage_construct sdk RPMSG_CHAR_DEV_ENDPOINT_ID)
        })
   }"

definition rpmsg_wait_for_linux :: "'hw sdk \<Rightarrow> uint32 \<Rightarrow> ('hw fw, bool) state" where
  "rpmsg_wait_for_linux sdk timeout_ms =
     on_drv_hw (rpmessage_wait_for_linux_ready sdk (clock_usec_to_ticks sdk (timeout_ms * 1000)))"

definition receive_notify_cb :: "'hw sdk \<Rightarrow> ('hw fw, unit) state" where
  "receive_notify_cb sdk = do {
     ignore (on_drv_hw (sem_give_from_isr sdk Pending_msgs));
     modify (\<lambda>f. f\<lparr>messages_received := messages_received f + 1\<rparr>)
   }"

datatype rpmsg_rcv_status = RPMsg_OK | RPMsg_TIMEOUT | RPMsg_CORRUPT_MESSAGE

text \<open>
  \<open>get_msg(msg, timeout_ms)\<close> with \<open>msg\<close> at \<open>input_at\<close>; \<open>None\<close> is the failed assertion
  that a pending message can be read.
\<close>

definition decode_input :: "fw_cfg \<Rightarrow> uint8 list \<Rightarrow> ('hw fw, bool) state" where
  "decode_input cfg bs = State (\<lambda>f.
     case run_state (pb_decode (pb_lib cfg) pb_fuel (HighToLow_msg (enum_bytes cfg)) (input_at cfg))
       (pb_on (store (msg_buffer_at cfg) bs (stack f)) PB_OSTREAM_SIZING
          (pb_istream_from_buffer (msg_buffer_at cfg) (length bs)))
     of (ok, s) \<Rightarrow> (ok, f\<lparr>stack := mem s\<rparr>))"

definition get_msg :: "'hw sdk \<Rightarrow> fw_cfg \<Rightarrow> uint32 \<Rightarrow> ('hw fw, rpmsg_rcv_status option) state" where
  "get_msg sdk cfg timeout_ms = do {
     got \<leftarrow> on_drv_hw (sem_take sdk Pending_msgs (ms_to_ticks sdk timeout_ms));
     if \<not> got then State_Monad.return (Some RPMsg_TIMEOUT)
     else do {
       r \<leftarrow> on_drv_hw (rpmessage_recv sdk HighToLow_size);
       case r of
         None \<Rightarrow> State_Monad.return None
       | Some (bs, core, end_point) \<Rightarrow> do {
           modify (\<lambda>f. if remote_peer_detected f then f
             else f\<lparr>remote_core_id := core, remote_end_point := end_point,
                    remote_peer_detected := True\<rparr>);
           ok \<leftarrow> decode_input cfg bs;
           State_Monad.return (Some (if ok then RPMsg_OK else RPMsg_CORRUPT_MESSAGE))
         }
     }
   }"

text \<open>\<open>send_msg(msg)\<close> with \<open>msg\<close> at \<open>out_at\<close>: the result of the encoder is not looked at.\<close>

definition encode_output :: "fw_cfg \<Rightarrow> ('hw fw, uint8 list) state" where
  "encode_output cfg = State (\<lambda>f.
     case run_state (pb_encode (pb_lib cfg) pb_fuel (LowToHigh_msg (enum_bytes cfg)) (out_at cfg))
       (pb_on (stack f) (pb_ostream_from_buffer (encode_buf_at cfg) LowToHigh_size) PB_ISTREAM_EMPTY)
     of (_, s) \<Rightarrow> (load (mem s) (encode_buf_at cfg) (bytes_written (ostr s)), f\<lparr>stack := mem s\<rparr>))"

definition send_msg :: "'hw sdk \<Rightarrow> fw_cfg \<Rightarrow> ('hw fw, bool) state" where
  "send_msg sdk cfg = do {
     detected \<leftarrow> gets remote_peer_detected;
     if \<not> detected then State_Monad.return False
     else do {
       bs \<leftarrow> encode_output cfg;
       ep \<leftarrow> gets remote_end_point;
       on_drv_hw (rpmessage_send sdk bs ep (clock_usec_to_ticks sdk (MSG_SEND_TIMEOUT_MS * 1000)))
     }
   }"

end
