(* ===== verification/Power_Switch.thy ===== *)
theory Power_Switch
  imports Sdk
begin

text \<open>
  The drivers behind the small interfaces: \<open>PowerSwitch\<close>
  (\<open>firmware/bsp_drivers/power_switch.cpp\<close>), \<open>RCD\<close> (\<open>rcd.hpp\<close>) and
  \<open>ChargerLock\<close> (\<open>charger_lock.hpp\<close>). The latter two are stubs in the code and
  are modelled as the stubs they are.
\<close>

section \<open>The power switch\<close>

text \<open>The object's only member is \<open>enable_gpio_base_addr\<close>.\<close>

definition power_switch_is_on :: "'hw sdk \<Rightarrow> board \<Rightarrow> uint32 \<Rightarrow> ('hw, bool) state" where
  "power_switch_is_on sdk bd base = do {
     v \<leftarrow> gpio_pin_out_value_read sdk base (enable_pin bd);
     State_Monad.return (v \<noteq> 0)
   }"

definition power_switch_on :: "'hw sdk \<Rightarrow> board \<Rightarrow> uint32 \<Rightarrow> bool \<Rightarrow> ('hw, bool) state" where
  "power_switch_on sdk bd base use_three_phases = do {
     gpio_pin_write_high sdk base (enable_pin bd);
     power_switch_is_on sdk bd base
   }"

definition power_switch_off :: "'hw sdk \<Rightarrow> board \<Rightarrow> uint32 \<Rightarrow> ('hw, bool) state" where
  "power_switch_off sdk bd base = do {
     gpio_pin_write_low sdk base (enable_pin bd);
     on \<leftarrow> power_switch_is_on sdk bd base;
     State_Monad.return (\<not> on)
   }"

definition power_switch_reset_emergency_switch :: "('hw, bool) state" where
  "power_switch_reset_emergency_switch = State_Monad.return True"

text \<open>The constructor returns the member it initialises.\<close>

definition power_switch_construct :: "'hw sdk \<Rightarrow> board \<Rightarrow> ('hw, uint32) state" where
  "power_switch_construct sdk bd = do {
     let base = addr_translate sdk (enable_base_addr bd);
     gpio_set_dir_mode sdk base (enable_pin bd) (enable_dir bd);
     ignore (power_switch_off sdk bd base);
     State_Monad.return base
   }"

section \<open>The stubs\<close>

definition rcd_stub_enable :: "('w, unit) state" where
  "rcd_stub_enable = State_Monad.return ()"

definition rcd_stub_disable :: "('w, unit) state" where
  "rcd_stub_disable = State_Monad.return ()"

definition rcd_stub_got_fired :: "('w, bool) state" where
  "rcd_stub_got_fired = State_Monad.return False"

definition rcd_stub_reset :: "('w, unit) state" where
  "rcd_stub_reset = State_Monad.return ()"

definition charger_lock_lock :: "('w, unit) state" where
  "charger_lock_lock = State_Monad.return ()"

definition charger_lock_unlock :: "('w, unit) state" where
  "charger_lock_unlock = State_Monad.return ()"

definition charger_lock_is_locked :: "('w, bool) state" where
  "charger_lock_is_locked = State_Monad.return False"

lemmas stub_defs =
  rcd_stub_enable_def rcd_stub_disable_def rcd_stub_got_fired_def rcd_stub_reset_def
  charger_lock_lock_def charger_lock_unlock_def charger_lock_is_locked_def

section \<open>Behaviour over a documented pin\<close>

context gpio_pin
begin

lemma power_switch_reports:
  assumes "pin = enable_pin bd"
  shows "fst (run_state (power_switch_is_on sdk bd base) w) = out w"
    and "out (snd (run_state (power_switch_is_on sdk bd base) w)) = out w"
    and "fst (run_state (power_switch_on sdk bd base three) w)"
    and "out (snd (run_state (power_switch_on sdk bd base three) w))"
    and "fst (run_state (power_switch_off sdk bd base) w)"
    and "\<not> out (snd (run_state (power_switch_off sdk bd base) w))"
  by (simp_all add: assms [symmetric] power_switch_is_on_def power_switch_on_def
      power_switch_off_def read_out write_high write_low read_zero)

lemma power_switch_construct_open:
  assumes "pin = enable_pin bd" "base = addr_translate sdk (enable_base_addr bd)"
  shows "\<not> out (snd (run_state (power_switch_construct sdk bd) w))"
    and "fst (run_state (power_switch_construct sdk bd) w) = base"
  using assms power_switch_reports [of bd]
  by (simp_all add: power_switch_construct_def Let_def)

end

end
