(* ===== verification/Main_Loop.thy ===== *)
theory Main_Loop
  imports Rpmsg Fsm Power_Switch
begin

text \<open>
  \<open>firmware/main.cpp\<close>: the message handler, the event callback, the HAL that
  \<open>main_task\<close> builds from the drivers, its start-up and one pass of its loop.
\<close>

section \<open>Incoming messages\<close>

text \<open>The members of a \<open>HighToLow\<close> structure in memory.\<close>

definition in_which :: "fw_cfg \<Rightarrow> mem \<Rightarrow> uint16" where
  "in_which cfg m = load_word 2 m (input_at cfg)"

definition in_pwm_state :: "fw_cfg \<Rightarrow> mem \<Rightarrow> uint32" where
  "in_pwm_state cfg m = load_word (unat (enum_bytes cfg)) m (input_at cfg + 4)"

definition in_duty_cycle :: "fw_cfg \<Rightarrow> mem \<Rightarrow> float32" where
  "in_duty_cycle cfg m = load_word 4 m (input_at cfg + 8)"

definition in_allow_power_on :: "fw_cfg \<Rightarrow> mem \<Rightarrow> bool" where
  "in_allow_power_on cfg m = (m (input_at cfg + 4) \<noteq> 0)"

definition handle_incoming_message ::
  "'hw sdk \<Rightarrow> fw_cfg \<Rightarrow> ('hw fw) fsm_env \<Rightarrow> (('hw fw) fsm_sys, unit) state" where
  "handle_incoming_message sdk cfg env = do {
     m \<leftarrow> gets (\<lambda>s. stack (wld s));
     let which = in_which cfg m in
     if which = HighToLow_set_pwm_tag then
       (let st = in_pwm_state cfg m in
        if st = PWMState_F then fsm_set_pwm_f env
        else if st = PWMState_OFF then fsm_set_pwm_off env
        else if st = PWMState_ON then fsm_set_pwm_on env (in_duty_cycle cfg m)
        else State_Monad.return ())
     else if which = HighToLow_allow_power_on_tag then fsm_allow_power_on (in_allow_power_on cfg m)
     else if which = HighToLow_enable_tag then fsm_enable env
     else if which = HighToLow_disable_tag then fsm_disable env
     else if_then (which = HighToLow_heartbeat_tag)
       (on_hal (on_drv_hw (debug_log sdk ''Received a heartbeat from the CPU'')))
   }"

section \<open>Outgoing events\<close>

definition convert_event :: "event \<Rightarrow> iec_event" where
  "convert_event e =
     (case e of
        CarPluggedIn \<Rightarrow> IEC61851Event_CAR_PLUGGED_IN
      | CarRequestedPower \<Rightarrow> IEC61851Event_CAR_REQUESTED_POWER
      | CarRequestedStopPower \<Rightarrow> IEC61851Event_CAR_REQUESTED_STOP_POWER
      | CarUnplugged \<Rightarrow> IEC61851Event_CAR_UNPLUGGED
      | EF_To_BCD \<Rightarrow> IEC61851Event_EF_TO_BCD
      | Error_DF \<Rightarrow> IEC61851Event_ERROR_DF
      | Error_E \<Rightarrow> IEC61851Event_ERROR_E
      | Error_OverCurrent \<Rightarrow> IEC61851Event_ERROR_OVER_CURRENT
      | Error_RCD \<Rightarrow> IEC61851Event_ERROR_RCD
      | Error_Relais \<Rightarrow> IEC61851Event_ERROR_RELAIS
      | Error_VentilationNotAvailable \<Rightarrow> IEC61851Event_ERROR_VENTILATION_NOT_AVAILABLE
      | EvseReplugFinished \<Rightarrow> IEC61851Event_EVSE_REPLUG_FINISHED
      | EvseReplugStarted \<Rightarrow> IEC61851Event_EVSE_REPLUG_STARTED
      | BCD_To_EF \<Rightarrow> IEC61851Event_BCD_TO_EF
      | PermanentFault \<Rightarrow> IEC61851Event_PERMANENT_FAULT
      | PowerOff \<Rightarrow> IEC61851Event_POWER_OFF
      | PowerOn \<Rightarrow> IEC61851Event_POWER_ON)"

text \<open>The local \<open>out\<close>: its tag and its \<open>event\<close>, then the link.\<close>

definition put_event :: "fw_cfg \<Rightarrow> event \<Rightarrow> mem \<Rightarrow> mem" where
  "put_event cfg e m =
     (let es = unat (enum_bytes cfg);
          m = store (out_at cfg) (le_bytes 2 LowToHigh_event_tag) m
      in store (out_at cfg + unat (LowToHigh_union (enum_bytes cfg)))
           (le_bytes es (iec_event_value (convert_event e))) m)"

definition fw_push_event :: "'hw sdk \<Rightarrow> fw_cfg \<Rightarrow> event \<Rightarrow> ('hw fw, unit) state" where
  "fw_push_event sdk cfg e = do {
     modify (\<lambda>f. f\<lparr>stack := put_event cfg e (stack f)\<rparr>);
     ignore (send_msg sdk cfg)
   }"

section \<open>The HAL of the firmware\<close>

definition on_fw_drv :: "('hw drv, 'a) state \<Rightarrow> ('hw fw, 'a) state" where
  "on_fw_drv m = State (\<lambda>f. case run_state m (drvs f) of (a, d) \<Rightarrow> (a, f\<lparr>drvs := d\<rparr>))"

lemma run_on_fw_drv [simp]:
  "run_state (on_fw_drv m) f =
     (fst (run_state m (drvs f)), f\<lparr>drvs := snd (run_state m (drvs f))\<rparr>)"
  by (simp add: on_fw_drv_def split: prod.splits)

text \<open>
  \<open>ps_base\<close> and \<open>tclr\<close> are the members the constructors of the power switch and the
  control pilot have set; \<open>ub\<close> and \<open>junk\<close> are the two places where the code leaves a
  value undefined (a conversion out of range, the voltages of an invalid signal).
\<close>

definition firmware_env ::
  "(float32 \<Rightarrow> uint32) \<Rightarrow> cp_signal \<Rightarrow> 'hw sdk \<Rightarrow> fw_cfg \<Rightarrow> uint32 \<Rightarrow> uint32 \<Rightarrow> ('hw fw) fsm_env" where
  "firmware_env ub junk sdk cfg ps_base tclr =
     \<lparr> rcd_enable = rcd_stub_enable,
       rcd_disable = rcd_stub_disable,
       rcd_got_fired = rcd_stub_got_fired,
       rcd_reset = rcd_stub_reset,
       lock_lock = charger_lock_lock,
       lock_unlock = charger_lock_unlock,
       lock_is_locked = charger_lock_is_locked,
       ps_on = (\<lambda>three. on_drv_hw (power_switch_on sdk (bd cfg) ps_base three)),
       ps_off = on_drv_hw (power_switch_off sdk (bd cfg) ps_base),
       ps_is_on = on_drv_hw (power_switch_is_on sdk (bd cfg) ps_base),
       ps_reset_emergency_switch = power_switch_reset_emergency_switch,
       cp_set_pwm = (\<lambda>dc. on_drv_hw (control_pilot_set_pwm ub sdk (bd cfg) tclr dc)),
       cp_get_cp_signal = on_fw_drv (get_latest_cp_signal sdk junk),
       cp_enable = on_drv_hw (control_pilot_enable ub sdk (bd cfg) tclr),
       cp_disable = on_drv_hw (control_pilot_disable ub sdk (bd cfg) tclr),
       clk_ticks_per_ms = clock_usec_to_ticks sdk 1000,
       clk_get_current_ticks = on_drv_hw (clock_get_ticks sdk),
       push_event = fw_push_event sdk cfg \<rparr>"

section \<open>The main task\<close>

definition CHORE_INTERVAL_MS :: uint32 where "CHORE_INTERVAL_MS = 1000"
definition FSM_WAIT_INTERVAL_MS :: uint32 where "FSM_WAIT_INTERVAL_MS = 50"

text \<open>
  Start-up, up to the construction of the state machine: the members \<open>ps_base\<close> and
  \<open>tclr\<close>, or \<open>None\<close> where an assertion stops the program.
\<close>

definition main_task_drivers ::
  "'hw sdk \<Rightarrow> fw_cfg \<Rightarrow> sampler \<Rightarrow> ('hw fw, (uint32 \<times> uint32) option) state" where
  "main_task_drivers sdk cfg junk = do {
     on_drv_hw (debug_log sdk ''Hello from ti am62x charger firmware!'');
     linux \<leftarrow> rpmsg_wait_for_linux sdk (10 * 1000);
     if \<not> linux then State_Monad.return None
     else do {
       link \<leftarrow> rpmsg_construct sdk;
       if \<not> link then State_Monad.return None
       else do {
         on_drv_hw (debug_log sdk ''RPMsg link init done ...'');
         ps_base \<leftarrow> on_drv_hw (power_switch_construct sdk (bd cfg));
         on_fw_drv (sampler_construct sdk junk);
         tclr \<leftarrow> on_drv_hw (control_pilot_construct sdk (bd cfg));
         State_Monad.return (Some (ps_base, tclr))
       }
     }
   }"

text \<open>The rest of the start-up: the sampling task and the chore timestamp.\<close>

definition main_task_start :: "'hw sdk \<Rightarrow> (('hw fw) fsm_sys, uint32 option) state" where
  "main_task_start sdk = do {
     created \<leftarrow> on_hal (on_drv_hw (task_create sdk ''sampling_task''));
     if \<not> created then State_Monad.return None
     else do {
       last_chore_ts \<leftarrow> on_hal (on_drv_hw (clock_get_ticks sdk));
       State_Monad.return (Some last_chore_ts)
     }
   }"

text \<open>The chore at the end of a pass: once a second the pilot signal is logged.\<close>

definition main_loop_chore ::
  "cp_signal \<Rightarrow> 'hw sdk \<Rightarrow> uint32 \<Rightarrow> (('hw fw) fsm_sys, uint32 option) state" where
  "main_loop_chore junk sdk last_chore_ts = do {
     current_ts \<leftarrow> on_hal (on_drv_hw (clock_get_ticks sdk));
     if clock_usec_to_ticks sdk (CHORE_INTERVAL_MS * 1000) < current_ts - last_chore_ts then do {
       ignore (on_hal (on_fw_drv (get_latest_cp_signal sdk junk)));
       on_hal (on_drv_hw (debug_log sdk ''CP''));
       State_Monad.return (Some current_ts)
     } else State_Monad.return (Some last_chore_ts)
   }"

text \<open>
  One pass of the loop, with \<open>env\<close> the environment the state machine was constructed
  with; the result is the new \<open>last_chore_ts\<close>, or \<open>None\<close> after a failed assertion.
\<close>

definition main_loop_pass ::
  "cp_signal \<Rightarrow> 'hw sdk \<Rightarrow> fw_cfg \<Rightarrow> ('hw fw) fsm_env \<Rightarrow> uint32 \<Rightarrow>
     (('hw fw) fsm_sys, uint32 option) state" where
  "main_loop_pass junk sdk cfg env last_chore_ts = do {
     status \<leftarrow> on_hal (get_msg sdk cfg FSM_WAIT_INTERVAL_MS);
     if status = None then State_Monad.return None
     else do {
       if_then (status = Some RPMsg_OK) (handle_incoming_message sdk cfg env);
       fsm_run env;
       main_loop_chore junk sdk last_chore_ts
     }
   }"

text \<open>The whole task: start-up, the state machine, then \<open>n\<close> passes.\<close>

primrec main_loop ::
  "cp_signal \<Rightarrow> 'hw sdk \<Rightarrow> fw_cfg \<Rightarrow> ('hw fw) fsm_env \<Rightarrow> nat \<Rightarrow> uint32 \<Rightarrow>
     (('hw fw) fsm_sys, uint32 option) state" where
  "main_loop junk sdk cfg env 0 ts = State_Monad.return (Some ts)"
| "main_loop junk sdk cfg env (Suc n) ts = do {
     r \<leftarrow> main_loop_pass junk sdk cfg env ts;
     case r of None \<Rightarrow> State_Monad.return None | Some ts \<Rightarrow> main_loop junk sdk cfg env n ts
   }"

end
