(* ===== verification/Sampler_Tasks.thy ===== *)
theory Sampler_Tasks
  imports Sampler
begin

text \<open>
  The interleavings of the sampler: the sampling task, split at its semaphores, the
  task that reads the pilot signal, and the two interrupts (PWM timer, SPI
  completion), which run to completion. \<open>rtos\<close> states what the code relies on of
  FreeRTOS binary semaphores (all but the counting one of pending messages) and of the SPI
  driver; the invariants are proved inside
  it.
\<close>

section \<open>The kernel and the SPI driver, as documented\<close>

locale rtos =
  fixes sdk :: "'hw sdk" and sem :: "'hw \<Rightarrow> semaphore \<Rightarrow> bool" and busy :: "'hw \<Rightarrow> bool"
  assumes take_isr_result: "s \<noteq> Pending_msgs \<Longrightarrow> fst (run_state (sem_take_from_isr sdk s) w) = sem w s"
    and take_isr_sem: "s \<noteq> Pending_msgs \<Longrightarrow> sem (snd (run_state (sem_take_from_isr sdk s) w)) = (sem w)(s := False)"
    and take_isr_busy: "keeps busy (sem_take_from_isr sdk s)"
    and give_isr_sem: "s \<noteq> Pending_msgs \<Longrightarrow> sem (snd (run_state (sem_give_from_isr sdk s) w)) = (sem w)(s := True)"
    and give_isr_busy: "keeps busy (sem_give_from_isr sdk s)"
    and take_result: "s \<noteq> Pending_msgs \<Longrightarrow> sem w s \<Longrightarrow> fst (run_state (sem_take sdk s t) w)"
    and take_sem: "s \<noteq> Pending_msgs \<Longrightarrow> sem w s \<Longrightarrow> sem (snd (run_state (sem_take sdk s t) w)) = (sem w)(s := False)"
    and take_busy: "keeps busy (sem_take sdk s t)"
    and give_sem: "s \<noteq> Pending_msgs \<Longrightarrow> sem (snd (run_state (sem_give sdk s) w)) = (sem w)(s := True)"
    and give_busy: "keeps busy (sem_give sdk s)"
    and create_sem: "s \<noteq> Pending_msgs \<Longrightarrow> sem (snd (run_state (sem_create_binary sdk s) w)) = (sem w)(s := False)"
    and create_busy: "keeps busy (sem_create_binary sdk s)"
    and init_sem: "keeps sem (mcspi_transaction_init sdk)"
    and init_busy: "\<not> busy (snd (run_state (mcspi_transaction_init sdk) w))"
    and completed_result: "fst (run_state (mcspi_completed sdk) w) = (\<not> busy w)"
    and completed_sem: "keeps sem (mcspi_completed sdk)"
    and completed_busy: "keeps busy (mcspi_completed sdk)"
    and transfer_sem: "keeps sem (mcspi_transfer sdk cmds rx)"
    and transfer_busy: "busy (snd (run_state (mcspi_transfer sdk cmds rx) w)) \<longrightarrow>
      busy w \<or> fst (run_state (mcspi_transfer sdk cmds rx) w)"
    and read_sem: "keeps sem (reg32_read sdk base off)"
    and read_busy: "keeps busy (reg32_read sdk base off)"
    and write_sem: "keeps sem (reg32_write sdk base off v)"
    and write_busy: "keeps busy (reg32_write sdk base off v)"
begin

lemmas rtos_keeps [simp] =
  take_isr_busy [THEN keepsD] give_isr_busy [THEN keepsD] take_busy [THEN keepsD]
  give_busy [THEN keepsD] create_busy [THEN keepsD] init_sem [THEN keepsD]
  completed_sem [THEN keepsD] completed_busy [THEN keepsD] transfer_sem [THEN keepsD]
  read_sem [THEN keepsD] read_busy [THEN keepsD] write_sem [THEN keepsD] write_busy [THEN keepsD]

lemmas rtos_values [simp] =
  take_isr_result take_isr_sem give_isr_sem take_result take_sem give_sem create_sem
  init_busy completed_result

end

section \<open>Tasks\<close>

text \<open>Where the sampling task is in its loop, and the reader in \<open>get_latest_cp_signal\<close>.\<close>

datatype loop_pc =
    Wait_new | Take_buf | Decode_high | Decode_low | Give_buf | Averages | Take_raw | Publish
  | Give_raw

datatype reader_pc = Reader_idle | Reader_read | Reader_give

record 'hw tasks =
  drv :: "'hw drv"
  pc :: loop_pc
  loc_high :: combined_adc_sample
  loc_low :: combined_adc_sample
  reader :: reader_pc
  loc_signal :: cp_signal

definition on_drv :: "('hw drv, 'a) state \<Rightarrow> 'hw tasks \<Rightarrow> 'hw tasks" where
  "on_drv m t = t\<lparr>drv := snd (run_state m (drv t))\<rparr>"

text \<open>What the sampling task waits for at each point, and the statement it then runs.\<close>

definition loop_waits :: "loop_pc \<Rightarrow> semaphore option" where
  "loop_waits p =
     (case p of Wait_new \<Rightarrow> Some New_sample_available | Take_buf \<Rightarrow> Some Sample_buf_mutex
      | Take_raw \<Rightarrow> Some Raw_cp_signal_mutex | _ \<Rightarrow> None)"

definition loop_step :: "'hw sdk \<Rightarrow> 'hw tasks \<Rightarrow> 'hw tasks" where
  "loop_step sdk t =
     (case pc t of
        Wait_new \<Rightarrow>
          (let t' = on_drv (ignore (on_hw (sem_take sdk New_sample_available portMAX_DELAY))) t
           in if fst (run_state (on_hw (sem_take sdk New_sample_available portMAX_DELAY)) (drv t))
              then (on_drv (modify (sigs_update (\<lambda>n. n + 1))) t')\<lparr>pc := Take_buf\<rparr> else t')
      | Take_buf \<Rightarrow>
          (on_drv (ignore (on_hw (sem_take sdk Sample_buf_mutex portMAX_DELAY))) t)\<lparr>pc := Decode_high\<rparr>
      | Decode_high \<Rightarrow>
          t\<lparr>loc_high := decode_burst_adc_samples (high_samples (adc_sample (smp (drv t)))),
            pc := Decode_low\<rparr>
      | Decode_low \<Rightarrow>
          t\<lparr>loc_low := decode_burst_adc_samples (low_samples (adc_sample (smp (drv t)))),
            pc := Give_buf\<rparr>
      | Give_buf \<Rightarrow> (on_drv (ignore (on_hw (sem_give sdk Sample_buf_mutex))) t)\<lparr>pc := Averages\<rparr>
      | Averages \<Rightarrow> (on_drv (on_smp (add_averages (loc_high t) (loc_low t))) t)\<lparr>pc := Take_raw\<rparr>
      | Take_raw \<Rightarrow>
          (on_drv (ignore (on_hw (sem_take sdk Raw_cp_signal_mutex portMAX_DELAY))) t)\<lparr>pc := Publish\<rparr>
      | Publish \<Rightarrow> (on_drv (on_smp publish_raw) t)\<lparr>pc := Give_raw\<rparr>
      | Give_raw \<Rightarrow> (on_drv (ignore (on_hw (sem_give sdk Raw_cp_signal_mutex))) t)\<lparr>pc := Wait_new\<rparr>)"

text \<open>Run without interruption, the statements are the loop body.\<close>

lemma loop_step_body:
  assumes "pc t = Wait_new"
    and "fst (run_state (sem_take sdk New_sample_available portMAX_DELAY) (hw (drv t)))"
  shows "drv ((loop_step sdk ^^ 9) t) = snd (run_state (sampler_loop_body sdk) (drv t))"
  using assms
  by (simp add: eval_nat_numeral loop_step_def on_drv_def sampler_loop_body_def Let_def)

text \<open>The statements of \<open>get_latest_cp_signal\<close>.\<close>

definition reader_waits :: "reader_pc \<Rightarrow> semaphore option" where
  "reader_waits r = (case r of Reader_idle \<Rightarrow> Some Raw_cp_signal_mutex | _ \<Rightarrow> None)"

definition reader_step :: "'hw sdk \<Rightarrow> 'hw tasks \<Rightarrow> 'hw tasks" where
  "reader_step sdk t =
     (case reader t of
        Reader_idle \<Rightarrow>
          (on_drv (ignore (on_hw (sem_take sdk Raw_cp_signal_mutex portMAX_DELAY))) t)
            \<lparr>reader := Reader_read\<rparr>
      | Reader_read \<Rightarrow>
          t\<lparr>loc_signal := cp_signal_of_raw (loc_signal t) (raw_signal (smp (drv t))),
            reader := Reader_give\<rparr>
      | Reader_give \<Rightarrow>
          (on_drv (ignore (on_hw (sem_give sdk Raw_cp_signal_mutex))) t)\<lparr>reader := Reader_idle\<rparr>)"

lemma reader_step_body:
  assumes "reader t = Reader_idle"
  shows "drv ((reader_step sdk ^^ 3) t) =
      snd (run_state (get_latest_cp_signal sdk (loc_signal t)) (drv t))"
    and "loc_signal ((reader_step sdk ^^ 3) t) =
      fst (run_state (get_latest_cp_signal sdk (loc_signal t)) (drv t))"
  using assms
  by (simp_all add: eval_nat_numeral reader_step_def on_drv_def get_latest_cp_signal_def Let_def)

text \<open>The SPI peripheral delivers a burst into the buffer the transaction points to.\<close>

definition store_burst :: "uint16 list \<Rightarrow> sampler \<Rightarrow> sampler" where
  "store_burst rx o' =
     (case rx_buf o' of
        Some HIGH \<Rightarrow> o'\<lparr>adc_sample := (adc_sample o')\<lparr>high_samples := rx\<rparr>\<rparr>
      | Some LOW \<Rightarrow> o'\<lparr>adc_sample := (adc_sample o')\<lparr>low_samples := rx\<rparr>\<rparr>
      | None \<Rightarrow> o')"

definition spi_interrupt :: "'hw sdk \<Rightarrow> 'hw \<Rightarrow> uint16 list \<Rightarrow> 'hw tasks \<Rightarrow> 'hw tasks" where
  "spi_interrupt sdk w rx t =
     on_drv (adc_spi_cb sdk) (t\<lparr>drv := (drv t)\<lparr>hw := w, smp := store_burst rx (smp (drv t))\<rparr>\<rparr>)"

inductive sampler_step ::
  "'hw sdk \<Rightarrow> ('hw \<Rightarrow> semaphore \<Rightarrow> bool) \<Rightarrow> ('hw \<Rightarrow> bool) \<Rightarrow> board \<Rightarrow> 'hw tasks \<Rightarrow> 'hw tasks \<Rightarrow> bool"
  for sdk sem busy bd where
    timer_irq: "sampler_step sdk sem busy bd t (on_drv (pwm_timer_isr sdk bd) t)"
  | spi_irq: "busy (hw (drv t)) \<Longrightarrow> \<not> busy w \<Longrightarrow> sem w = sem (hw (drv t)) \<Longrightarrow>
      sampler_step sdk sem busy bd t (spi_interrupt sdk w rx t)"
  | loop: "\<forall>s. loop_waits (pc t) = Some s \<longrightarrow> sem (hw (drv t)) s \<Longrightarrow>
      sampler_step sdk sem busy bd t (loop_step sdk t)"
  | reader: "\<forall>s. reader_waits (reader t) = Some s \<longrightarrow> sem (hw (drv t)) s \<Longrightarrow>
      sampler_step sdk sem busy bd t (reader_step sdk t)"
  | hardware: "busy w = busy (hw (drv t)) \<Longrightarrow> sem w = sem (hw (drv t)) \<Longrightarrow>
      sampler_step sdk sem busy bd t (t\<lparr>drv := (drv t)\<lparr>hw := w\<rparr>\<rparr>)"

text \<open>Runs start when the constructor has returned and the tasks have not.\<close>

inductive sampler_reach ::
  "'hw sdk \<Rightarrow> ('hw \<Rightarrow> semaphore \<Rightarrow> bool) \<Rightarrow> ('hw \<Rightarrow> bool) \<Rightarrow> board \<Rightarrow> 'hw tasks \<Rightarrow> bool"
  for sdk sem busy bd where
    start: "pc t = Wait_new \<Longrightarrow> reader t = Reader_idle \<Longrightarrow>
      sampler_reach sdk sem busy bd (on_drv (sampler_construct sdk junk) t)"
  | step: "sampler_reach sdk sem busy bd t \<Longrightarrow> sampler_step sdk sem busy bd t t' \<Longrightarrow>
      sampler_reach sdk sem busy bd t'"

section \<open>The invariant\<close>

abbreviation buf_critical :: "loop_pc \<Rightarrow> bool" where
  "buf_critical p \<equiv> p \<in> {Decode_high, Decode_low, Give_buf}"

abbreviation raw_critical :: "loop_pc \<Rightarrow> bool" where
  "raw_critical p \<equiv> p \<in> {Publish, Give_raw}"

abbreviation write_access :: "'hw tasks \<Rightarrow> bool" where
  "write_access t \<equiv> adc_sample_write_access_aquired (smp (drv t))"

abbreviation sample_of :: "'hw tasks \<Rightarrow> burst_adc_samples" where
  "sample_of t \<equiv> adc_sample (smp (drv t))"

text \<open>Exactly one of three holds: the mutex is free, the interrupts own it, the task owns it.\<close>

definition buf_owner_inv :: "('hw \<Rightarrow> semaphore \<Rightarrow> bool) \<Rightarrow> 'hw tasks \<Rightarrow> bool" where
  "buf_owner_inv sem t \<longleftrightarrow>
     (if sem (hw (drv t)) Sample_buf_mutex then \<not> write_access t \<and> \<not> buf_critical (pc t)
      else write_access t = (\<not> buf_critical (pc t)))"

text \<open>A transfer is in flight only while the interrupts own the buffer.\<close>

definition transfer_inv :: "('hw \<Rightarrow> bool) \<Rightarrow> 'hw tasks \<Rightarrow> bool" where
  "transfer_inv busy t \<longleftrightarrow>
     (busy (hw (drv t)) \<longrightarrow> write_access t \<and> rx_buf (smp (drv t)) = Some (tbd (sample_of t)))"

text \<open>Once a sample has been announced, a buffer the interrupts do not own is complete.\<close>

definition complete_inv :: "('hw \<Rightarrow> semaphore \<Rightarrow> bool) \<Rightarrow> 'hw tasks \<Rightarrow> bool" where
  "complete_inv sem t \<longleftrightarrow>
     ((sem (hw (drv t)) New_sample_available \<or> pc t = Take_buf \<or> buf_critical (pc t)) \<and>
        \<not> write_access t \<longrightarrow> high_done (sample_of t) \<and> low_done (sample_of t))"

text \<open>The raw signal has exactly one owner, too.\<close>

definition raw_owner_inv :: "('hw \<Rightarrow> semaphore \<Rightarrow> bool) \<Rightarrow> 'hw tasks \<Rightarrow> bool" where
  "raw_owner_inv sem t \<longleftrightarrow>
     (if sem (hw (drv t)) Raw_cp_signal_mutex
      then \<not> raw_critical (pc t) \<and> reader t = Reader_idle
      else raw_critical (pc t) = (reader t = Reader_idle))"

definition sampler_inv :: "('hw \<Rightarrow> semaphore \<Rightarrow> bool) \<Rightarrow> ('hw \<Rightarrow> bool) \<Rightarrow> 'hw tasks \<Rightarrow> bool" where
  "sampler_inv sem busy t \<longleftrightarrow>
     buf_owner_inv sem t \<and> transfer_inv busy t \<and> complete_inv sem t \<and> raw_owner_inv sem t"

lemmas sampler_invs =
  sampler_inv_def buf_owner_inv_def transfer_inv_def complete_inv_def raw_owner_inv_def

context rtos
begin

lemma trigger_keeps_inv:
  assumes "sampler_inv sem busy t"
  shows "sampler_inv sem busy (on_drv (trigger_adc_readout sdk b) t)"
proof (cases "busy (hw (drv t))")
  case True
  then show ?thesis
    using assms by (auto simp: sampler_invs on_drv_def trigger_adc_readout_def split: if_splits)
next
  case False
  then show ?thesis
    using assms transfer_busy
    by (auto simp: sampler_invs on_drv_def trigger_adc_readout_def start_adc_transfer_def
        aquire_adc_sample_write_access_def)
qed

text \<open>Interrupt-side hardware accesses that the invariant does not see.\<close>

lemma inv_same_view:
  assumes "sampler_inv sem busy (t\<lparr>drv := d\<rparr>)"
    and "sem (hw d') = sem (hw d)" "busy (hw d') = busy (hw d)" "smp d' = smp d"
  shows "sampler_inv sem busy (t\<lparr>drv := d'\<rparr>)"
  using assms by (auto simp: sampler_invs split: if_splits)

lemma counted_trigger_keeps_inv:
  assumes "sampler_inv sem busy (t\<lparr>drv := d\<rparr>)" "\<And>d. hw (f d) = hw d" "\<And>d. smp (f d) = smp d"
  shows "sampler_inv sem busy (t\<lparr>drv := snd (run_state (do {
       _ \<leftarrow> on_hw (reg32_read sdk base off);
       modify f;
       trigger_adc_readout sdk b;
       on_hw (reg32_write sdk base off v)}) d)\<rparr>)"
proof -
  let ?d2 = "f (d\<lparr>hw := snd (run_state (reg32_read sdk base off) (hw d))\<rparr>)"
  let ?d3 = "snd (run_state (trigger_adc_readout sdk b) ?d2)"
  have "sampler_inv sem busy (t\<lparr>drv := ?d2\<rparr>)"
    by (rule inv_same_view [OF assms(1)]) (simp_all add: assms(2,3))
  from trigger_keeps_inv [OF this, of b] have "sampler_inv sem busy (t\<lparr>drv := ?d3\<rparr>)"
    by (simp add: on_drv_def)
  then show ?thesis
    by (rule inv_same_view) simp_all
qed

lemma timer_keeps_inv:
  assumes "sampler_inv sem busy t"
  shows "sampler_inv sem busy (on_drv (pwm_timer_isr sdk bd) t)"
proof -
  have inv: "sampler_inv sem busy (t\<lparr>drv := drv t\<rparr>)"
    using assms by simp
  have idle: "sampler_inv sem busy (t\<lparr>drv := (drv t)\<lparr>hw :=
      snd (run_state (reg32_read sdk (pwm_timer_base bd) TIMER_IRQSTATUS_OFFSET) (hw (drv t)))\<rparr>\<rparr>)"
    by (rule inv_same_view [OF inv]) simp_all
  show ?thesis
    using counted_trigger_keeps_inv [OF inv, of "ovfls_update (\<lambda>n. n + 1)" "pwm_timer_base bd"
        TIMER_IRQSTATUS_OFFSET True TIMER_IRQSTATUS_OVERFLOW_FLAG]
      counted_trigger_keeps_inv [OF inv, of "matchs_update (\<lambda>n. n + 1)" "pwm_timer_base bd"
        TIMER_IRQSTATUS_OFFSET False TIMER_IRQSTATUS_MATCH_FLAG] idle
    by (simp add: on_drv_def pwm_timer_isr_def trigger_high_def trigger_low_def)
qed

lemma spi_keeps_inv:
  assumes "sampler_inv sem busy t" "busy (hw (drv t))" "\<not> busy w" "sem w = sem (hw (drv t))"
  shows "sampler_inv sem busy (spi_interrupt sdk w rx t)"
  using assms
  by (cases "tbd (sample_of t)")
    (auto simp: sampler_invs on_drv_def spi_interrupt_def adc_spi_cb_def store_burst_def
      release_adc_sample_write_access_def split: if_splits)

lemma loop_keeps_inv:
  assumes "sampler_inv sem busy t" "\<forall>s. loop_waits (pc t) = Some s \<longrightarrow> sem (hw (drv t)) s"
  shows "sampler_inv sem busy (loop_step sdk t)"
  using assms
  by (cases "pc t")
    (auto simp: sampler_invs on_drv_def loop_step_def loop_waits_def add_averages_def publish_raw_def
      Let_def split: if_splits)

lemma reader_keeps_inv:
  assumes "sampler_inv sem busy t" "\<forall>s. reader_waits (reader t) = Some s \<longrightarrow> sem (hw (drv t)) s"
  shows "sampler_inv sem busy (reader_step sdk t)"
  using assms
  by (cases "reader t")
    (auto simp: sampler_invs on_drv_def reader_step_def reader_waits_def split: if_splits)

lemma construct_inv:
  assumes "pc t = Wait_new" "reader t = Reader_idle"
  shows "sampler_inv sem busy (on_drv (sampler_construct sdk junk) t)"
  using assms by (simp add: sampler_invs on_drv_def sampler_construct_def)

lemma step_keeps_inv:
  assumes "sampler_step sdk sem busy bd t t'" "sampler_inv sem busy t"
  shows "sampler_inv sem busy t'"
  using assms
proof (cases rule: sampler_step.cases)
  case (hardware w)
  then show ?thesis
    using assms(2) inv_same_view [where t = t and d = "drv t" and d' = "(drv t)\<lparr>hw := w\<rparr>"] by simp
qed (simp_all add: timer_keeps_inv spi_keeps_inv loop_keeps_inv reader_keeps_inv)

lemma reach_sampler_inv: "sampler_reach sdk sem busy bd t \<Longrightarrow> sampler_inv sem busy t"
  by (induction rule: sampler_reach.induct) (blast intro: construct_inv step_keeps_inv)+

end

end
