(* ===== verification/Sim_Board.thy ===== *)
theory Sim_Board
  imports Main_Loop Sampler_Tasks
begin

text \<open>
  A simulated board: the smallest hardware state on which every SDK service the
  firmware calls can be executed. It keeps all three contracts on the SDK, so their
  assumptions can hold together, and it is what the witnesses of the driver and
  firmware properties run on.
\<close>

section \<open>The hardware\<close>

record sim =
  sim_latch :: "uint32 \<times> uint32 \<Rightarrow> bool"
  sim_regs :: "uint32 \<Rightarrow> uint32"
  sim_sems :: "semaphore \<Rightarrow> bool"
  sim_pending :: nat
  sim_busy :: bool
  sim_ticks :: uint32
  sim_inbox :: "(uint8 list \<times> uint16 \<times> uint16) list"
  sim_outbox :: "(uint8 list \<times> uint16) list"
  sim_log :: "string list"

definition sim_take :: "semaphore \<Rightarrow> (sim, bool) state" where
  "sim_take s =
     (if s = Pending_msgs then do {
        n \<leftarrow> gets sim_pending;
        modify (sim_pending_update (\<lambda>n. n - 1));
        State_Monad.return (n \<noteq> 0)
      } else do {
        free \<leftarrow> gets (\<lambda>w. sim_sems w s);
        modify (sim_sems_update (\<lambda>f. f(s := False)));
        State_Monad.return free
      })"

definition sim_give :: "semaphore \<Rightarrow> (sim, bool) state" where
  "sim_give s =
     (if s = Pending_msgs then do {
        n \<leftarrow> gets sim_pending;
        modify (sim_pending_update (\<lambda>n. if n < MAX_MESSAGES_BACKLOG then n + 1 else n));
        State_Monad.return (n < MAX_MESSAGES_BACKLOG)
      } else do {
        free \<leftarrow> gets (\<lambda>w. sim_sems w s);
        modify (sim_sems_update (\<lambda>f. f(s := True)));
        State_Monad.return (\<not> free)
      })"

definition sim_recv :: "nat \<Rightarrow> (sim, (uint8 list \<times> uint16 \<times> uint16) option) state" where
  "sim_recv n = do {
     box \<leftarrow> gets sim_inbox;
     case box of
       [] \<Rightarrow> State_Monad.return None
     | (bs, core, ep) # rest \<Rightarrow> do {
         modify (sim_inbox_update (\<lambda>_. rest));
         State_Monad.return (Some (take n bs, core, ep))
       }
   }"

text \<open>
  The messages in the inbox have arrived, and have been notified, by the time the
  semaphore that counts them exists; later ones are notified by \<open>receive_notify_cb\<close>.
\<close>

definition sim_sdk :: "sim sdk" where
  "sim_sdk =
     \<lparr> addr_translate = (\<lambda>a. a),
       gpio_set_dir_mode = (\<lambda>base pin dir. State_Monad.return ()),
       gpio_pin_write_high = (\<lambda>base pin. modify (sim_latch_update (\<lambda>f. f((base, pin) := True)))),
       gpio_pin_write_low = (\<lambda>base pin. modify (sim_latch_update (\<lambda>f. f((base, pin) := False)))),
       gpio_pin_out_value_read = (\<lambda>base pin. gets (\<lambda>w. if sim_latch w (base, pin) then 1 else 0)),
       reg32_read = (\<lambda>base off. gets (\<lambda>w. sim_regs w (base + off))),
       reg32_write = (\<lambda>base off v. modify (sim_regs_update (\<lambda>f. f(base + off := v)))),
       clock_usleep = (\<lambda>us. State_Monad.return ()),
       clock_get_ticks = gets sim_ticks,
       clock_usec_to_ticks = (\<lambda>us. us div 1000),
       pinmux_config = State_Monad.return (),
       hwi_construct = State_Monad.return True,
       sem_create_binary = (\<lambda>s. modify (sim_sems_update (\<lambda>f. f(s := False)))),
       sem_take = (\<lambda>s t. sim_take s),
       sem_give = sim_give,
       sem_take_from_isr = sim_take,
       sem_give_from_isr = sim_give,
       mcspi_transaction_init = modify (sim_busy_update (\<lambda>_. False)),
       mcspi_transfer = (\<lambda>cmds rx. do { modify (sim_busy_update (\<lambda>_. True)); State_Monad.return True }),
       mcspi_completed = gets (\<lambda>w. \<not> sim_busy w),
       sem_create_counting = (\<lambda>n s. modify (\<lambda>w. w\<lparr>sim_pending := length (sim_inbox w)\<rparr>)),
       ms_to_ticks = (\<lambda>ms. ms),
       rpmessage_announce = (\<lambda>ep nm. State_Monad.return True),
       rpmessage_construct = (\<lambda>ep. State_Monad.return True),
       rpmessage_wait_for_linux_ready = (\<lambda>t. State_Monad.return True),
       task_create = (\<lambda>nm. State_Monad.return True),
       rpmessage_send = (\<lambda>bs ep t. do {
         modify (sim_outbox_update (\<lambda>b. b @ [(bs, ep)])); State_Monad.return True }),
       rpmessage_recv = sim_recv,
       debug_log = (\<lambda>msg. modify (sim_log_update (\<lambda>l. l @ [msg]))) \<rparr>"

definition sim_board :: board where
  "sim_board = \<lparr> enable_base_addr = 0x4201000, enable_pin = 9, enable_dir = 0,
     pwm_timer_base = 0x4820000, pwm_timer_input_clk_hz = 25000000, pwm_timer_input_pre_scaler = 1 \<rparr>"

lemma sim_sdk_simps [simp]:
  "addr_translate sim_sdk = (\<lambda>a. a)"
  "gpio_set_dir_mode sim_sdk = (\<lambda>base pin dir. State_Monad.return ())"
  "gpio_pin_write_high sim_sdk = (\<lambda>base pin. modify (sim_latch_update (\<lambda>f. f((base, pin) := True))))"
  "gpio_pin_write_low sim_sdk = (\<lambda>base pin. modify (sim_latch_update (\<lambda>f. f((base, pin) := False))))"
  "gpio_pin_out_value_read sim_sdk = (\<lambda>base pin. gets (\<lambda>w. if sim_latch w (base, pin) then 1 else 0))"
  "reg32_read sim_sdk = (\<lambda>base off. gets (\<lambda>w. sim_regs w (base + off)))"
  "reg32_write sim_sdk = (\<lambda>base off v. modify (sim_regs_update (\<lambda>f. f(base + off := v))))"
  "clock_usleep sim_sdk = (\<lambda>us. State_Monad.return ())"
  "clock_get_ticks sim_sdk = gets sim_ticks"
  "clock_usec_to_ticks sim_sdk = (\<lambda>us. us div 1000)"
  "pinmux_config sim_sdk = State_Monad.return ()"
  "hwi_construct sim_sdk = State_Monad.return True"
  "sem_create_binary sim_sdk = (\<lambda>s. modify (sim_sems_update (\<lambda>f. f(s := False))))"
  "sem_take sim_sdk = (\<lambda>s t. sim_take s)"
  "sem_give sim_sdk = sim_give"
  "sem_take_from_isr sim_sdk = sim_take"
  "sem_give_from_isr sim_sdk = sim_give"
  "mcspi_transaction_init sim_sdk = modify (sim_busy_update (\<lambda>_. False))"
  "mcspi_transfer sim_sdk = (\<lambda>cmds rx. do { modify (sim_busy_update (\<lambda>_. True)); State_Monad.return True })"
  "mcspi_completed sim_sdk = gets (\<lambda>w. \<not> sim_busy w)"
  "sem_create_counting sim_sdk = (\<lambda>n s. modify (\<lambda>w. w\<lparr>sim_pending := length (sim_inbox w)\<rparr>))"
  "ms_to_ticks sim_sdk = (\<lambda>ms. ms)"
  "rpmessage_announce sim_sdk = (\<lambda>ep nm. State_Monad.return True)"
  "rpmessage_construct sim_sdk = (\<lambda>ep. State_Monad.return True)"
  "rpmessage_wait_for_linux_ready sim_sdk = (\<lambda>t. State_Monad.return True)"
  "task_create sim_sdk = (\<lambda>nm. State_Monad.return True)"
  "rpmessage_send sim_sdk = (\<lambda>bs ep t. do { modify (sim_outbox_update (\<lambda>b. b @ [(bs, ep)])); State_Monad.return True })"
  "rpmessage_recv sim_sdk = sim_recv"
  "debug_log sim_sdk = (\<lambda>msg. modify (sim_log_update (\<lambda>l. l @ [msg])))"
  by (simp_all add: sim_sdk_def)

text \<open>
  The library as a 32-bit target configures it, without callbacks, and a memory layout;
  enumerations take four bytes. No structure lies at address 0, which is NULL.
\<close>

definition sim_lib :: pb_env where
  "sim_lib =
     \<lparr> size_bits = 32, ptr_bytes = 4,
       user_field_callback = (\<lambda>n decoding it. State_Monad.return True),
       decode_fn = (\<lambda>fn it arg. State_Monad.return True),
       encode_fn = (\<lambda>fn it arg. State_Monad.return True),
       ext_decode_fn = (\<lambda>fn ext t wt. State_Monad.return True),
       ext_encode_fn = (\<lambda>fn ext. State_Monad.return True),
       raw_buffer_at = 256, msgdesc_at = (\<lambda>a. Empty_msg) \<rparr>"

definition sim_cfg :: fw_cfg where
  "sim_cfg = \<lparr> bd = sim_board, pb_lib = sim_lib, enum_bytes = 4, input_at = 16,
     msg_buffer_at = 64, out_at = 96, encode_buf_at = 128 \<rparr>"

lemma sim_cfg_simps [simp]:
  "bd sim_cfg = sim_board" "pb_lib sim_cfg = sim_lib" "enum_bytes sim_cfg = 4"
  "input_at sim_cfg = 16" "msg_buffer_at sim_cfg = 64" "out_at sim_cfg = 96"
  "encode_buf_at sim_cfg = 128"
  by (simp_all add: sim_cfg_def)

text \<open>The board at power-up: the latches in any state, here high, nothing received, no semaphore given.\<close>

definition sim_init :: sim where
  "sim_init = \<lparr> sim_latch = (\<lambda>p. True), sim_regs = (\<lambda>r. 0), sim_sems = (\<lambda>s. False),
     sim_pending = 0, sim_busy = False, sim_ticks = 0, sim_inbox = [], sim_outbox = [],
     sim_log = [] \<rparr>"

text \<open>What the storage of the sampler holds before its constructor runs.\<close>

definition sim_sampler :: sampler where
  "sim_sampler = \<lparr> adc_sample_write_access_aquired = False, adc_spi_commands = [], rx_buf = None,
     adc_sample = \<lparr> high_samples = [0, 0, 0], low_samples = [0, 0, 0], tbd = HIGH,
                    high_done = False, low_done = False \<rparr>,
     cp_high_avg = ring_buffer_new CP_SAMPLE_MAX_DEVIATION,
     cp_low_avg = ring_buffer_new CP_SAMPLE_MAX_DEVIATION,
     pp_avg = ring_buffer_new PP_SAMPLE_MAX_DEVIATION,
     raw_signal = \<lparr> raw_high = 0, raw_low = 0, raw_valid = False \<rparr> \<rparr>"

definition sim_drv :: "sim drv" where
  "sim_drv = \<lparr> hw = sim_init, smp = sim_sampler, sigs = 0, adcs = 0, ovfls = 0, matchs = 0 \<rparr>"

definition sim_fw :: "sim fw" where
  "sim_fw = \<lparr> drvs = sim_drv, stack = (\<lambda>a. 0), messages_received = 0,
     remote_peer_detected = False, remote_core_id = 0, remote_end_point = 0 \<rparr>"

section \<open>The contracts hold\<close>

interpretation sim_pin: gpio_pin sim_sdk base pin "\<lambda>w. sim_latch w (base, pin)" for base pin
  by unfold_locales (simp_all add: keeps_def)

interpretation sim_hw: board_contract sim_sdk base pin "\<lambda>w. sim_latch w (base, pin)" for base pin
  by unfold_locales
    (simp_all add: keeps_def sim_take_def sim_give_def sim_recv_def split: list.splits)

interpretation sim_rtos: rtos sim_sdk sim_sems sim_busy
  by unfold_locales (simp_all add: keeps_def sim_take_def sim_give_def)

end
