(* ===== verification/Firmware.thy ===== *)
theory Firmware
  imports Fsm_Safety Sim_Board
begin

text \<open>
  The firmware as a whole: the drivers keep the contract of the state machine on any
  board that behaves as documented, so what is proved of the state machine holds of
  the main task, whatever messages arrive.
\<close>

section \<open>The drivers keep the relay contract\<close>

context board_contract
begin

lemma set_pwm_keeps: "keeps out (control_pilot_set_pwm ub sdk b tclr dc)"
  unfolding control_pilot_set_pwm_def Let_def
  by (intro keeps_intros reg_write_keeps)

lemma cp_signal_keeps: "keeps (\<lambda>d. out (hw d)) (get_latest_cp_signal sdk junk)"
  by (simp add: keeps_def get_latest_cp_signal_def Let_def)

lemma send_msg_keeps: "keeps (\<lambda>f. out (hw (drvs f))) (send_msg sdk cfg)"
  by (simp add: keeps_def send_msg_def encode_output_def split: prod.splits)

lemma fw_push_keeps: "keeps (\<lambda>f. out (hw (drvs f))) (fw_push_event sdk cfg e)"
  using send_msg_keeps [THEN keepsD] by (simp add: keeps_def fw_push_event_def)

lemma get_msg_keeps: "keeps (\<lambda>f. out (hw (drvs f))) (get_msg sdk cfg t)"
  by (simp add: keeps_def get_msg_def decode_input_def split: option.splits prod.splits)

end

locale firmware_board = board_contract +
  fixes ub :: "float32 \<Rightarrow> uint32" and junk :: cp_signal and cfg :: fw_cfg and tclr :: uint32
  assumes pin_of_cfg: "pin = enable_pin (bd cfg)"

sublocale firmware_board \<subseteq> fw: relay_contract "firmware_env ub junk sdk cfg base tclr"
  "\<lambda>f. out (hw (drvs f))"
proof
  note ps = power_switch_reports [OF pin_of_cfg]
  show "keeps (\<lambda>f. out (hw (drvs f))) (cp_set_pwm (firmware_env ub junk sdk cfg base tclr) dc)" for dc
    using set_pwm_keeps [THEN keepsD] by (simp add: firmware_env_def keeps_def)
  show "keeps (\<lambda>f. out (hw (drvs f))) (cp_get_cp_signal (firmware_env ub junk sdk cfg base tclr))"
    using cp_signal_keeps [THEN keepsD] by (simp add: firmware_env_def keeps_def)
  show "keeps (\<lambda>f. out (hw (drvs f))) (push_event (firmware_env ub junk sdk cfg base tclr) e)" for e
    using fw_push_keeps by (simp add: firmware_env_def)
  show "keeps (\<lambda>f. out (hw (drvs f))) (cp_enable (firmware_env ub junk sdk cfg base tclr))"
    "keeps (\<lambda>f. out (hw (drvs f))) (cp_disable (firmware_env ub junk sdk cfg base tclr))"
    using set_pwm_keeps [THEN keepsD]
    by (simp_all add: firmware_env_def keeps_def control_pilot_enable_def control_pilot_disable_def)
qed (use power_switch_reports [OF pin_of_cfg] in
    \<open>simp_all add: firmware_env_def keeps_def stub_defs power_switch_reset_emergency_switch_def\<close>)

section \<open>The main task\<close>

text \<open>What a received message makes of the state machine: one request, or nothing but a log line.\<close>

lemma handle_cases:
  "(\<exists>r. run_state (handle_incoming_message sdk cfg env) s = run_state (fsm_request env r) s) \<or>
   run_state (handle_incoming_message sdk cfg env) s = ((), s) \<or>
   run_state (handle_incoming_message sdk cfg env) s =
     run_state (on_hal (on_drv_hw (debug_log sdk ''Received a heartbeat from the CPU''))) s"
proof -
  let ?m = "stack (wld s)"
  have f: "\<exists>r. fsm_set_pwm_f env = fsm_request env r"
    by (rule exI [of _ Req_set_pwm_f]) (simp add: fsm_request_def)
  have off: "\<exists>r. fsm_set_pwm_off env = fsm_request env r"
    by (rule exI [of _ Req_set_pwm_off]) (simp add: fsm_request_def)
  have on: "\<exists>r. fsm_set_pwm_on env dc = fsm_request env r" for dc
    by (rule exI [of _ "Req_set_pwm_on dc"]) (simp add: fsm_request_def)
  have allow: "\<exists>r. fsm_allow_power_on b = fsm_request env r" for b
    by (rule exI [of _ "Req_allow_power_on b"]) (simp add: fsm_request_def)
  have en: "\<exists>r. fsm_enable env = fsm_request env r"
    by (rule exI [of _ Req_enable]) (simp add: fsm_request_def)
  have dis: "\<exists>r. fsm_disable env = fsm_request env r"
    by (rule exI [of _ Req_disable]) (simp add: fsm_request_def)
  show ?thesis
    using f off on [of "in_duty_cycle cfg ?m"] allow [of "in_allow_power_on cfg ?m"] en dis
    by (auto simp: handle_incoming_message_def Let_def)
qed

context firmware_board
begin

abbreviation relay :: "'a fw \<Rightarrow> bool" where
  "relay f \<equiv> out (hw (drvs f))"

abbreviation env :: "('a fw) fsm_env" where
  "env \<equiv> firmware_env ub junk sdk cfg base tclr"

text \<open>A computation on the world that leaves the latch alone is a move of the world.\<close>

lemma reach_world:
  assumes "fsm_reach env relay s" "keeps relay m"
  shows "fsm_reach env relay (snd (run_state (on_hal m) s))"
  using fsm_reach.world [OF assms(1), of "snd (run_state m (wld s))"] keepsD [OF assms(2)] by simp

lemma log_keeps_relay: "keeps relay (on_drv_hw (debug_log sdk msg))"
  by (simp add: keeps_def)

lemma reach_handle:
  assumes "fsm_reach env relay s"
  shows "fsm_reach env relay (snd (run_state (handle_incoming_message sdk cfg env) s))"
  using handle_cases [of sdk cfg env s] assms fsm_reach.request [OF assms]
    reach_world [OF assms log_keeps_relay]
  by auto

lemma reach_chore:
  assumes "fsm_reach env relay s"
  shows "fsm_reach env relay (snd (run_state (main_loop_chore junk sdk ts) s))"
proof -
  let ?t1 = "snd (run_state (on_hal (on_drv_hw (clock_get_ticks sdk))) s)"
  let ?t2 = "snd (run_state (on_hal (on_fw_drv (get_latest_cp_signal sdk junk))) ?t1)"
  have t1: "fsm_reach env relay ?t1"
    by (rule reach_world [OF assms]) (simp add: keeps_def)
  have t2: "fsm_reach env relay ?t2"
    by (rule reach_world [OF t1]) (use cp_signal_keeps in \<open>simp add: keeps_def\<close>)
  have "fsm_reach env relay (snd (run_state (on_hal (on_drv_hw (debug_log sdk ''CP''))) ?t2))"
    by (rule reach_world [OF t2 log_keeps_relay])
  then show ?thesis
    using t1 by (simp add: main_loop_chore_def del: run_on_drv_hw)
qed

lemma reach_main_loop_pass:
  assumes "fsm_reach env relay s"
  shows "fsm_reach env relay (snd (run_state (main_loop_pass junk sdk cfg env ts) s))"
proof -
  let ?s1 = "snd (run_state (on_hal (get_msg sdk cfg FSM_WAIT_INTERVAL_MS)) s)"
  have s1: "fsm_reach env relay ?s1"
    by (rule reach_world [OF assms get_msg_keeps])
  note parts = s1 reach_chore [OF fsm_reach.pass [OF s1]]
    reach_chore [OF fsm_reach.pass [OF reach_handle [OF s1]]]
  show ?thesis
    using parts by (simp add: main_loop_pass_def)
qed

lemma reach_main_loop:
  "fsm_reach env relay s \<Longrightarrow> fsm_reach env relay (snd (run_state (main_loop junk sdk cfg env n ts) s))"
proof (induction n arbitrary: s ts)
  case (Suc n)
  then show ?case
    using reach_main_loop_pass [OF Suc.prems, of ts] by (simp split: option.splits)
qed simp

lemma reach_task_start:
  "fsm_reach env relay s \<Longrightarrow> fsm_reach env relay (snd (run_state (main_task_start sdk) s))"
  using reach_world [of s "on_drv_hw (task_create sdk ''sampling_task'')"]
    reach_world [of "snd (run_state (on_hal (on_drv_hw (task_create sdk ''sampling_task''))) s)"
      "on_drv_hw (clock_get_ticks sdk)"]
  by (simp add: main_task_start_def keeps_def)

end

context board_contract
begin

lemma pilot_construct_keeps: "keeps out (control_pilot_construct sdk b)"
  unfolding control_pilot_construct_def get_default_tclr_def Let_def
  by (intro keeps_intros sdk_keeps)

lemma sampler_construct_keeps: "keeps (\<lambda>d. out (hw d)) (sampler_construct sdk sjunk)"
  by (simp add: keeps_def sampler_construct_def)

text \<open>The power switch is constructed open, and the constructors after it leave it so.\<close>

lemma drivers_open:
  assumes "pin = enable_pin (bd cfg)" "base = addr_translate sdk (enable_base_addr (bd cfg))"
    and "run_state (main_task_drivers sdk cfg sjunk) f = (Some (ps_base, tclr), f')"
  shows "ps_base = base \<and> \<not> out (hw (drvs f'))"
  using assms(3) power_switch_construct_open [OF assms(1,2)] pilot_construct_keeps [THEN keepsD]
    sampler_construct_keeps [THEN keepsD]
  by (auto simp: main_task_drivers_def split: if_splits)

end

section \<open>The firmware from power-up\<close>

definition firmware_run ::
  "(float32 \<Rightarrow> uint32) \<Rightarrow> cp_signal \<Rightarrow> sampler \<Rightarrow> bool \<Rightarrow> 'hw sdk \<Rightarrow> fw_cfg \<Rightarrow> nat \<Rightarrow> 'hw fw \<Rightarrow>
     (('hw fw) fsm_sys) option" where
  "firmware_run ub junk sjunk simplified sdk cfg n f =
     (case run_state (main_task_drivers sdk cfg sjunk) f of
        (None, _) \<Rightarrow> None
      | (Some (ps_base, tclr), f') \<Rightarrow>
          (let env = firmware_env ub junk sdk cfg ps_base tclr;
               s = fsm_construct env simplified f'
           in case run_state (main_task_start sdk) s of
                (None, _) \<Rightarrow> None
              | (Some ts, s') \<Rightarrow> Some (snd (run_state (main_loop junk sdk cfg env n ts) s'))))"

text \<open>What comes out of a run is a system the state machine can reach.\<close>

context firmware_board
begin

lemma reach_after_start:
  assumes "\<not> relay f"
  shows "fsm_reach env relay
    (snd (run_state (main_task_start sdk) (fsm_construct env simplified f)))"
  using reach_task_start [OF fsm_reach.construct] assms by blast

lemma run_relay_inv:
  assumes "run_state (main_task_drivers sdk cfg sjunk) f = (Some (base, tclr), f')"
    and "\<not> relay f'"
    and "firmware_run ub junk sjunk simplified sdk cfg n f = Some s"
  shows "relay_inv relay s"
  using assms reach_main_loop [OF reach_after_start [OF assms(2), of simplified]] fw.reach_relay_inv
  by (auto simp: firmware_run_def Let_def split: prod.splits option.splits)

end

lemma firmware_run_relay_inv:
  assumes contract: "board_contract sdk base (enable_pin (bd cfg)) out"
    and base: "base = addr_translate sdk (enable_base_addr (bd cfg))"
    and run: "firmware_run ub junk sjunk simplified sdk cfg n f = Some s"
  shows "relay_inv (\<lambda>f. out (hw (drvs f))) s"
proof -
  obtain b tclr f' where d: "run_state (main_task_drivers sdk cfg sjunk) f = (Some (b, tclr), f')"
    using run by (auto simp: firmware_run_def split: prod.splits option.splits)
  note opened = board_contract.drivers_open [OF contract refl base d]
  have fb: "firmware_board sdk base (enable_pin (bd cfg)) out cfg"
    by (rule firmware_board.intro [OF contract]) (simp add: firmware_board_axioms_def)
  show ?thesis
    using opened firmware_board.run_relay_inv [OF fb _ _ run] d by simp
qed

end
