(* ===== verification/Pb_Varint.thy ===== *)
theory Pb_Varint
  imports Pb_Encode Pb_Decode_Message
begin

text \<open>
  Base-128 varints: the encoder that works on two 32-bit halves, the two decoders and
  the skipping loop, against one reference definition on natural numbers.
\<close>

section \<open>The reference\<close>

function leb128 :: "nat \<Rightarrow> uint8 list" where
  "leb128 n = (if n < 128 then [of_nat n] else of_nat (n mod 128 + 128) # leb128 (n div 128))"
  by pat_completeness auto
termination
  by (relation "measure id") auto

declare leb128.simps [simp del]

lemma leb128_small: "n < 128 \<Longrightarrow> leb128 n = [of_nat n]"
  by (simp add: leb128.simps)

lemma leb128_big: "128 \<le> n \<Longrightarrow> leb128 n = of_nat (n mod 128 + 128) # leb128 (n div 128)"
  by (subst leb128.simps) simp

lemma leb128_nonempty [simp]: "leb128 n \<noteq> []"
  by (subst leb128.simps) simp

lemma length_leb128: "n < 128 ^ Suc k \<Longrightarrow> length (leb128 n) \<le> Suc k"
proof (induction k arbitrary: n)
  case 0
  then show ?case by (simp add: leb128_small)
next
  case (Suc k)
  show ?case
  proof (cases "n < 128")
    case False
    then have "n div 128 < 128 ^ Suc k"
      using Suc.prems by (simp add: div_less_iff_less_mult)
    then show ?thesis
      using Suc.IH False by (simp add: leb128_big)
  qed (simp add: leb128_small)
qed

section \<open>The encoder\<close>

lemma continued_byte:
  assumes "unat (byte :: uint8) < 128"
  shows "byte OR 0x80 = of_nat (unat byte + 128)"
proof -
  have "unat (byte OR 0x80) = unat byte OR push_bit 7 1"
    by (simp add: unsigned_or_eq push_bit_eq_mult)
  also have "\<dots> = unat byte + 128"
    using assms by (subst nat_or_push_bit) (simp_all add: push_bit_eq_mult)
  also have "\<dots> = unat (of_nat (unat byte + 128) :: uint8)"
    using assms by (subst unat_of_nat) (simp add: take_bit_nat_eq_self)
  finally show ?thesis
    by (simp only: word_unat_eq_iff)
qed

text \<open>Emitting one byte and going on with the rest.\<close>

lemma leb128_step:
  assumes "unat byte < 128"
  shows "leb128 (unat byte + 128 * m) =
     (if m = 0 then [byte] else (byte OR 0x80) # leb128 m)"
proof (cases "m = 0")
  case True
  then show ?thesis using assms by (simp add: leb128_small)
next
  case False
  moreover have "(unat byte + 128 * m) mod 128 = unat byte" "(unat byte + 128 * m) div 128 = m"
    using assms by simp_all
  ultimately show ?thesis
    using leb128_big [of "unat byte + 128 * m"] by (simp add: continued_byte [OF assms])
qed

lemma low_digit: "unat (ucast (w AND 0x7F :: uint32) :: uint8) = unat w mod 128"
proof -
  have "unat (w AND 0x7F :: uint32) = unat w mod 128"
    by (simp add: and_low_mask unat_take_bit)
  then show ?thesis
    by (simp add: unsigned_ucast_eq take_bit_nat_eq_self)
qed

text \<open>The second loop.\<close>

lemma varint_high_leb:
  assumes "unat byte < 128" "unat high < 128 ^ n"
  shows "varint_high n high byte = leb128 (unat byte + 128 * unat high)"
  using assms
proof (induction n arbitrary: byte high)
  case 0
  then show ?case by (simp add: leb128_small)
next
  case (Suc n)
  show ?case
  proof (cases "high = 0")
    case False
    have "unat (drop_bit 7 high) < 128 ^ n"
      using Suc.prems(2) by (simp add: unat_drop_bit div_less_iff_less_mult mult.commute)
    from Suc.IH [OF _ this, of "ucast (high AND 0x7F)"]
    have "varint_high n (drop_bit 7 high) (ucast (high AND 0x7F)) = leb128 (unat high)"
      by (simp add: low_digit unat_drop_bit)
    then show ?thesis
      using False Suc.prems(1) by (simp add: leb128_step unat_eq_0)
  next
    case True
    then show ?thesis using Suc.prems(1) by (simp add: leb128_small)
  qed
qed

text \<open>The first loop when nothing follows, and when something does.\<close>

lemma varint_low_leb:
  assumes "unat byte < 128" "unat low < 128 ^ n" "varint_low n low 0 byte = (bs, last')"
  shows "bs @ [last'] = leb128 (unat byte + 128 * unat low)"
  using assms
proof (induction n arbitrary: byte low bs last')
  case 0
  then show ?case by (simp add: leb128_small)
next
  case (Suc n)
  show ?case
  proof (cases "low = 0")
    case False
    obtain bs' where rec: "varint_low n (drop_bit 7 low) 0 (ucast (low AND 0x7F)) = (bs', last')"
      and bs: "bs = (byte OR 0x80) # bs'"
      using Suc.prems(3) False by (auto split: prod.splits)
    have "unat (drop_bit 7 low) < 128 ^ n"
      using Suc.prems(2) by (simp add: unat_drop_bit div_less_iff_less_mult mult.commute)
    from Suc.IH [OF _ this rec] have "bs' @ [last'] = leb128 (unat low)"
      by (simp add: low_digit unat_drop_bit)
    then show ?thesis
      using False Suc.prems(1) bs by (simp add: leb128_step unat_eq_0)
  next
    case True
    then show ?thesis using Suc.prems by (simp add: leb128_small)
  qed
qed

lemma varint_low_prefix:
  assumes "unat byte < 128" "unat low < 128 ^ n" "high \<noteq> 0" "0 < h"
    and "varint_low n low high byte = (bs, last')"
  shows "unat last' = (unat byte + 128 * unat low) div 128 ^ n"
    and "bs @ leb128 (unat last' + 16 * h) = leb128 (unat byte + 128 * unat low + 16 * 128 ^ n * h)"
  using assms
proof (induction n arbitrary: byte low bs)
  case 0
  {
    case 1
    then show ?case by simp
  next
    case 2
    then show ?case by simp
  }
next
  case (Suc n)
  {
    fix byte low bs
    assume prems: "unat byte < 128" "unat low < 128 ^ Suc n" "high \<noteq> 0" "0 < h"
      "varint_low (Suc n) low high byte = (bs, last')"
    let ?byte = "ucast (low AND 0x7F) :: uint8" and ?low = "drop_bit 7 low"
    obtain bs' where rec: "varint_low n ?low high ?byte = (bs', last')"
      and bs: "bs = (byte OR 0x80) # bs'"
      using prems by (auto split: prod.splits)
    have less: "unat ?low < 128 ^ n"
      using prems(2) by (simp add: unat_drop_bit div_less_iff_less_mult mult.commute)
    have split: "unat ?byte + 128 * unat ?low = unat low"
      by (simp add: low_digit unat_drop_bit)
    have byte: "unat ?byte < 128"
      by (simp add: low_digit)
    have step: "unat byte + 128 * unat low + 16 * 128 ^ Suc n * h =
        unat byte + 128 * (unat low + 16 * 128 ^ n * h)"
      by (simp add: algebra_simps)
    have "bs' @ leb128 (unat last' + 16 * h) = leb128 (unat low + 16 * 128 ^ n * h)"
      using Suc.IH(2) [OF byte less prems(3,4) rec] by (simp only: split)
    then have "bs @ leb128 (unat last' + 16 * h) =
        leb128 (unat byte + 128 * unat low + 16 * 128 ^ Suc n * h)"
      unfolding step leb128_step [OF prems(1)] using prems(4) bs by simp
    moreover have "unat last' = (unat byte + 128 * unat low) div 128 ^ Suc n"
      using Suc.IH(1) [OF byte less prems(3,4) rec] prems(1)
      by (simp only: split) (simp add: div_mult2_eq)
    ultimately have "unat last' = (unat byte + 128 * unat low) div 128 ^ Suc n \<and>
        bs @ leb128 (unat last' + 16 * h) =
        leb128 (unat byte + 128 * unat low + 16 * 128 ^ Suc n * h)"
      by simp
  }
  note step = this
  {
    case 1
    then show ?case using step by blast
  next
    case 2
    then show ?case using step by blast
  }
qed

text \<open>The byte in which the two halves meet.\<close>

lemma meeting_byte:
  assumes "unat (byte :: uint8) < 16"
  shows "unat (byte OR ucast (push_bit 4 (high AND 0x07 :: uint32))) = unat byte + 16 * (unat high mod 8)"
proof -
  have "unat (push_bit 4 (high AND 0x07 :: uint32)) = 16 * (unat high mod 8)"
    by (subst unat_push_bit) (simp_all add: and_low_mask unat_take_bit)
  then have "unat (ucast (push_bit 4 (high AND 0x07 :: uint32)) :: uint8) =
      push_bit 4 (unat high mod 8)"
    by (simp only: unsigned_ucast_eq) (simp add: take_bit_nat_eq_self push_bit_eq_mult)
  then have "unat (byte OR ucast (push_bit 4 (high AND 0x07 :: uint32))) =
      unat byte OR push_bit 4 (unat high mod 8)"
    by (simp only: unsigned_or_eq)
  then show ?thesis
    using assms nat_or_push_bit [of "unat byte" 4 "unat high mod 8"]
    by (simp only: push_bit_eq_mult) simp
qed

lemma varint_32_bytes_leb:
  "varint_32_bytes low high = leb128 (unat low + 2 ^ 32 * unat high)"
proof -
  obtain bs byte where rec:
    "varint_low 4 (drop_bit 7 low) high (ucast (low AND 0x7F)) = (bs, byte)"
    by (cases "varint_low 4 (drop_bit 7 low) high (ucast (low AND 0x7F))")
  let ?byte = "ucast (low AND 0x7F) :: uint8" and ?low = "drop_bit 7 low"
  have byte: "unat ?byte < 128" and split: "unat ?byte + 128 * unat ?low = unat low"
    by (simp_all add: low_digit unat_drop_bit)
  have low: "unat ?low < 128 ^ 4"
    using unat_uint32_less [of low] by (simp add: unat_drop_bit del: unat_uint32_less)
  show ?thesis
  proof (cases "high = 0")
    case True
    then show ?thesis
      using varint_low_leb [OF byte low] rec split by (simp add: varint_32_bytes_def)
  next
    case False
    then have pos: "0 < unat high"
      by (simp add: unat_gt_0)
    note prefix = varint_low_prefix [OF byte low False pos rec, unfolded split]
    have last: "unat byte < 16"
      using prefix(1) unat_uint32_less [of low] by (simp del: unat_uint32_less)
    note meet = meeting_byte [OF last, of high]
    have join: "16 * m + 128 * d = 16 * (8 * d + m)" for m d :: nat
      by simp
    have "unat (drop_bit 3 high) < 128 ^ 5"
      using unat_uint32_less [of high] by (simp add: unat_drop_bit del: unat_uint32_less)
    moreover have "unat (byte OR ucast (push_bit 4 (high AND 0x07))) < 128"
      using last by (simp only: meet)
    ultimately have "varint_high 5 (drop_bit 3 high) (byte OR ucast (push_bit 4 (high AND 0x07))) =
        leb128 (unat (byte OR ucast (push_bit 4 (high AND 0x07))) + 128 * unat (drop_bit 3 high))"
      by (intro varint_high_leb)
    also have "\<dots> = leb128 (unat byte + 16 * (unat high mod 8) + 128 * (unat high div 8))"
      by (simp only: meet unat_drop_bit) simp
    also have "unat byte + 16 * (unat high mod 8) + 128 * (unat high div 8) =
        unat byte + 16 * (8 * (unat high div 8) + unat high mod 8)"
      by (simp only: add.assoc join)
    also have "\<dots> = unat byte + 16 * unat high"
      by (simp only: mult_div_mod_eq)
    finally show ?thesis
      using False rec prefix(2) by (simp add: varint_32_bytes_def)
  qed
qed

section \<open>Input streams that hold given bytes\<close>

definition advance :: "nat \<Rightarrow> pb \<Rightarrow> pb" where
  "advance k s =
     s\<lparr>istr := (istr s)\<lparr>is_state := is_state (istr s) + k, bytes_left := bytes_left (istr s) - k\<rparr>\<rparr>"

definition stream_has :: "uint8 list \<Rightarrow> pb \<Rightarrow> bool" where
  "stream_has bs s \<longleftrightarrow>
     length bs \<le> bytes_left (istr s) \<and> load (mem s) (is_state (istr s)) (length bs) = bs"

lemma advance_0 [simp]: "advance 0 s = s"
  by (simp add: advance_def)

lemma advance_advance [simp]: "advance j (advance i s) = advance (i + j) s"
  by (simp add: advance_def)

lemma advance_fields [simp]:
  "mem (advance k s) = mem s"
  "ostr (advance k s) = ostr s"
  "stuck (advance k s) = stuck s"
  "fixed_count_size (advance k s) = fixed_count_size s"
  "bytes_left (istr (advance k s)) = bytes_left (istr s) - k"
  "is_state (istr (advance k s)) = is_state (istr s) + k"
  "is_errmsg (istr (advance k s)) = is_errmsg (istr s)"
  by (simp_all add: advance_def)

lemma stream_has_Nil [simp]: "stream_has [] s"
  by (simp add: stream_has_def load_def)

lemma load_Suc: "load m a (Suc n) = m a # load m (Suc a) n"
  by (simp add: load_def upt_conv_Cons del: upt_Suc)

lemma stream_has_Cons:
  "stream_has (b # bs) s \<longleftrightarrow>
     0 < bytes_left (istr s) \<and> mem s (is_state (istr s)) = b \<and> stream_has bs (advance 1 s)"
  by (auto simp: stream_has_def load_Suc)

lemma stream_has_append:
  "stream_has (as @ bs) s \<longleftrightarrow> stream_has as s \<and> stream_has bs (advance (length as) s)"
  by (auto simp: stream_has_def load_append)

lemma run_pb_readbyte:
  "run_state pb_readbyte s =
     (if bytes_left (istr s) = 0 then run_state (is_return_none ''end-of-stream'') s
      else (Some (mem s (is_state (istr s))), advance 1 s))"
  by (simp add: pb_readbyte_def buf_read_def take_left_def advance_def Let_def)

lemma run_pb_read_local:
  "run_state (pb_read_local n) s =
     (if bytes_left (istr s) < n then run_state (is_return_none ''end-of-stream'') s
      else (Some (load (mem s) (is_state (istr s)) n), advance n s))"
  by (simp add: pb_read_local_def buf_read_def take_left_def advance_def Let_def load_def)

lemma run_pb_skip:
  "run_state (pb_read 0 n) s =
     (if bytes_left (istr s) < n then run_state (is_return_error ''end-of-stream'') s
      else (True, advance n s))"
  by (simp add: pb_read_def buf_read_def take_left_def advance_def Let_def)

lemma readbyte_stream:
  "stream_has (b # bs) s \<Longrightarrow> run_state pb_readbyte s = (Some b, advance 1 s)"
  by (simp add: run_pb_readbyte stream_has_Cons)

section \<open>The decoders\<close>

lemma leb128_cases:
  obtains (last') "n < 128" "leb128 n = [of_nat n]"
    | (more) "128 \<le> n" "leb128 n = of_nat (n mod 128 + 128) # leb128 (n div 128)"
  using leb128_small leb128_big by (cases "n < 128") auto

lemma continued_iff: "(byte :: uint8) AND 0x80 \<noteq> 0 \<longleftrightarrow> 128 \<le> unat byte"
proof -
  have "(byte AND 2 ^ 7 = 0) = (\<not> bit byte 7)"
    by (rule and_exp_eq_0_iff_not_bit)
  moreover have "bit byte 7 = bit (unat byte) 7"
    by (simp add: bit_unsigned_iff)
  moreover have "bit (unat byte) 7 = odd (unat byte div 128)"
    by (simp add: bit_iff_odd [of "unat byte"])
  moreover have "odd (unat byte div 128) \<longleftrightarrow> 128 \<le> unat byte"
    using unat_uint8_less [of byte]
    by (cases "unat byte < 128") (simp_all add: le_div_geq del: unat_uint8_less)
  ultimately show ?thesis by simp
qed

lemma unat_digit: "m < 256 \<Longrightarrow> unat (of_nat m :: uint8) = m"
  by (simp add: unat_of_nat take_bit_nat_eq_self)

lemma unat_more_digit: "unat (of_nat (v mod 128 + 128) :: uint8) = v mod 128 + 128"
proof (rule unat_digit)
  have "v mod 128 < 128"
    by (rule mod_less_divisor) simp
  then show "v mod 128 + 128 < 256"
    by linarith
qed

lemma of_nat_of_unat: "unat x = n \<Longrightarrow> x = of_nat n"
  by (drule sym) simp

text \<open>Adding a digit to the value read so far.\<close>

lemma add_digit:
  fixes result :: "'a::len word" and byte :: uint8
  assumes "unat result < 2 ^ b" "unat byte mod 128 * 2 ^ b < 2 ^ LENGTH('a)" "7 \<le> LENGTH('a)"
  shows "unat (result OR push_bit b (ucast (byte AND 0x7F))) = unat result + unat byte mod 128 * 2 ^ b"
proof -
  have low: "unat (byte AND 0x7F) = unat byte mod 128"
    by (simp add: and_low_mask unat_take_bit)
  have "(2::nat) ^ 7 \<le> 2 ^ LENGTH('a)"
    by (rule power_increasing) (use assms(3) in simp_all)
  then have "unat byte mod 128 < 2 ^ LENGTH('a)"
    using mod_less_divisor [of 128 "unat byte"] by simp
  then have digit: "unat (ucast (byte AND 0x7F) :: 'a word) = unat byte mod 128"
    by (simp only: unsigned_ucast_eq low take_bit_nat_eq_self)
  then have "unat (push_bit b (ucast (byte AND 0x7F)) :: 'a word) = push_bit b (unat byte mod 128)"
    using assms(2) unat_push_bit [of "ucast (byte AND 0x7F) :: 'a word" b]
    by (simp only: push_bit_eq_mult)
  then have "unat (result OR push_bit b (ucast (byte AND 0x7F))) =
      unat result OR push_bit b (unat byte mod 128)"
    by (simp only: unsigned_or_eq)
  then show ?thesis
    using nat_or_push_bit [OF assms(1)] by (simp only: push_bit_eq_mult)
qed

lemma leb128_next_bound:
  fixes v :: nat
  assumes "128 \<le> v" "v * 2 ^ b < 2 ^ B"
  shows "v div 128 * 2 ^ (b + 7) < 2 ^ B" "b + 7 < B"
proof -
  have "v div 128 * 128 \<le> v"
    by simp
  then have "v div 128 * 128 * 2 ^ b \<le> v * 2 ^ b"
    by (rule mult_right_mono) simp
  moreover have join: "d * 2 ^ (b + 7) = d * 128 * 2 ^ b" for d :: nat
    by (simp add: power_add)
  ultimately show less: "v div 128 * 2 ^ (b + 7) < 2 ^ B"
    unfolding join using assms(2) by linarith
  have "1 * 2 ^ (b + 7) \<le> v div 128 * 2 ^ (b + 7)"
    using assms(1) by (intro mult_right_mono) simp_all
  then have "(2::nat) ^ (b + 7) < 2 ^ B"
    using less by linarith
  then show "b + 7 < B"
    by simp
qed

text \<open>One digit of a 64-bit value.\<close>

lemma digit_sum:
  assumes "128 \<le> v"
  shows "r + v mod 128 * 2 ^ b + v div 128 * 2 ^ (b + 7) = (r :: nat) + v * 2 ^ b"
proof -
  have join: "m * 2 ^ b + d * 2 ^ (b + 7) = (m + d * 128) * 2 ^ b" for m d :: nat
    by (simp add: power_add algebra_simps)
  have "v mod 128 * 2 ^ b + v div 128 * 2 ^ (b + 7) = (v mod 128 + v div 128 * 128) * 2 ^ b"
    by (rule join)
  then show ?thesis
    by (simp only: mod_div_mult_eq add.assoc)
qed

lemma varint_loop_leb:
  assumes "stream_has (leb128 v) s" "v * 2 ^ b < 2 ^ 64" "unat result < 2 ^ b"
    and "b = 7 * k" "10 < n + k" "b < 64"
  shows "run_state (varint_loop n b result) s =
     (Some (of_nat (unat result + v * 2 ^ b)), advance (length (leb128 v)) s)"
  using assms
proof (induction v arbitrary: s b result k n rule: leb128.induct)
  case (1 v)
  obtain n' where n: "n = Suc n'"
    using 1(5,6,7) by (cases n) auto
  have digit: "v mod 128 * 2 ^ b < 2 ^ 64"
  proof -
    have "v mod 128 * 2 ^ b \<le> v * 2 ^ b"
      by (intro mult_right_mono) simp_all
    then show ?thesis using 1(3) by linarith
  qed
  show ?case
  proof (cases rule: leb128_cases [of v])
    case last'
    have u: "unat (of_nat v :: uint8) = v"
      using last' by (simp add: unat_digit)
    have "unat (result OR push_bit b (ucast (of_nat v AND 0x7F :: uint8))) = unat result + v * 2 ^ b"
      using add_digit [OF 1(4), of "of_nat v"] digit last' u by simp
    then have "result OR push_bit b (ucast (of_nat v AND 0x7F :: uint8)) =
        of_nat (unat result + v * 2 ^ b)"
      by (rule of_nat_of_unat)
    moreover have "(of_nat v :: uint8) AND 0x80 = 0"
      using continued_iff [of "of_nat v"] last' u by auto
    ultimately show ?thesis
      using 1(2,7) last' n readbyte_stream [of "of_nat v" "[]" s] by (simp add: Let_def)
  next
    case more
    let ?byte = "of_nat (v mod 128 + 128) :: uint8"
    let ?result = "result OR push_bit b (ucast (?byte AND 0x7F))"
    have u: "unat ?byte = v mod 128 + 128"
      by (rule unat_more_digit)
    have sum: "unat ?result = unat result + v mod 128 * 2 ^ b"
      using add_digit [OF 1(4), of ?byte] digit u by simp
    have bound: "unat ?result < 2 ^ (b + 7)"
    proof -
      have "v mod 128 * 2 ^ b \<le> 127 * 2 ^ b"
        by (intro mult_right_mono) simp_all
      moreover have "(2::nat) ^ (b + 7) = 2 ^ b + 127 * 2 ^ b"
        by (simp add: power_add)
      ultimately show ?thesis
        using 1(4) unfolding sum by linarith
    qed
    note nxt = leb128_next_bound [OF more(1) 1(3)]
    have "run_state (varint_loop n' (b + 7) ?result) (advance 1 s) =
        (Some (of_nat (unat ?result + v div 128 * 2 ^ (b + 7))),
         advance (length (leb128 (v div 128))) (advance 1 s))"
      by (rule 1(1) [where k = "Suc k"])
        (use 1(2,5,6) more n nxt bound in \<open>simp_all add: stream_has_Cons\<close>)
    moreover have "unat ?result + v div 128 * 2 ^ (b + 7) = unat result + v * 2 ^ b"
      by (simp only: sum digit_sum [OF more(1)])
    moreover have "?byte AND 0x80 \<noteq> 0"
      by (simp only: continued_iff u)
    ultimately show ?thesis
      using 1(2,7) more n readbyte_stream [of ?byte "leb128 (v div 128)" s]
      by (simp only: varint_loop.simps) (simp add: Let_def)
  qed
qed

lemma varint32_loop_leb:
  assumes "stream_has (leb128 v) s" "v * 2 ^ b < 2 ^ 32" "unat result < 2 ^ b"
    and "b = 7 * k" "10 \<le> n + k" "b < 32"
  shows "run_state (varint32_loop n b result) s =
     (Some (of_nat (unat result + v * 2 ^ b), b + 7 * length (leb128 v), last (leb128 v)),
      advance (length (leb128 v)) s)"
  using assms
proof (induction v arbitrary: s b result k n rule: leb128.induct)
  case (1 v)
  obtain n' where n: "n = Suc n'"
    using 1(5,6,7) by (cases n) auto
  have digit: "v mod 128 * 2 ^ b < 2 ^ 32"
  proof -
    have "v mod 128 * 2 ^ b \<le> v * 2 ^ b"
      by (intro mult_right_mono) simp_all
    then show ?thesis using 1(3) by linarith
  qed
  show ?case
  proof (cases rule: leb128_cases [of v])
    case last'
    have u: "unat (of_nat v :: uint8) = v"
      using last' by (simp add: unat_digit)
    have "unat (result OR push_bit b (ucast (of_nat v AND 0x7F :: uint8))) = unat result + v * 2 ^ b"
      using add_digit [OF 1(4), of "of_nat v"] digit last' u by simp
    then have "result OR push_bit b (ucast (of_nat v AND 0x7F :: uint8)) =
        of_nat (unat result + v * 2 ^ b)"
      by (rule of_nat_of_unat)
    moreover have "(of_nat v :: uint8) AND 0x80 = 0"
      using continued_iff [of "of_nat v"] last' u by auto
    ultimately show ?thesis
      using 1(2,7) last' n readbyte_stream [of "of_nat v" "[]" s] by (simp add: Let_def)
  next
    case more
    let ?byte = "of_nat (v mod 128 + 128) :: uint8"
    let ?result = "result OR push_bit b (ucast (?byte AND 0x7F))"
    have u: "unat ?byte = v mod 128 + 128"
      by (rule unat_more_digit)
    have sum: "unat ?result = unat result + v mod 128 * 2 ^ b"
      using add_digit [OF 1(4), of ?byte] digit u by simp
    have bound: "unat ?result < 2 ^ (b + 7)"
    proof -
      have "v mod 128 * 2 ^ b \<le> 127 * 2 ^ b"
        by (intro mult_right_mono) simp_all
      moreover have "(2::nat) ^ (b + 7) = 2 ^ b + 127 * 2 ^ b"
        by (simp add: power_add)
      ultimately show ?thesis
        using 1(4) unfolding sum by linarith
    qed
    note nxt = leb128_next_bound [OF more(1) 1(3)]
    have "run_state (varint32_loop n' (b + 7) ?result) (advance 1 s) =
        (Some (of_nat (unat ?result + v div 128 * 2 ^ (b + 7)),
               b + 7 + 7 * length (leb128 (v div 128)), last (leb128 (v div 128))),
         advance (length (leb128 (v div 128))) (advance 1 s))"
      by (rule 1(1) [where k = "Suc k"])
        (use 1(2,5,6) more n nxt bound in \<open>simp_all add: stream_has_Cons\<close>)
    moreover have "unat ?result + v div 128 * 2 ^ (b + 7) = unat result + v * 2 ^ b"
      by (simp only: sum digit_sum [OF more(1)])
    moreover have "?byte AND 0x80 \<noteq> 0"
      by (simp only: continued_iff u)
    ultimately show ?thesis
      using 1(2,7) more n readbyte_stream [of ?byte "leb128 (v div 128)" s]
      by (simp only: varint32_loop.simps) (simp add: Let_def add.assoc)
  qed
qed

lemma last_leb128: "unat (last (leb128 v)) * 128 ^ (length (leb128 v) - 1) \<le> v"
proof (induction v rule: leb128.induct)
  case (1 v)
  show ?case
  proof (cases rule: leb128_cases [of v])
    case last'
    then show ?thesis by (simp add: unat_digit)
  next
    case more
    let ?d = "v div 128"
    have IH: "unat (last (leb128 ?d)) * 128 ^ (length (leb128 ?d) - 1) \<le> ?d"
      using 1 more by simp
    have "unat (last (leb128 ?d)) * 128 ^ length (leb128 ?d) =
        unat (last (leb128 ?d)) * 128 ^ (length (leb128 ?d) - 1) * 128"
      by (cases "leb128 ?d") simp_all
    also have "\<dots> \<le> ?d * 128"
      by (rule mult_right_mono [OF IH]) simp
    also have "\<dots> \<le> v"
      by simp
    finally show ?thesis
      using more by simp
  qed
qed

lemma high_nibble_clear:
  assumes "unat (byte :: uint8) < 16"
  shows "byte AND 0x70 = 0"
proof -
  have low: "take_bit 4 byte = byte"
    using assms by (simp add: word_unat_eq_iff unat_take_bit)
  have "byte AND 0x70 = (byte AND 0x0F) AND 0x70"
    by (simp only: and_low_mask low)
  then show ?thesis
    by (simp add: and.assoc)
qed

lemma decode_varint_leb:
  assumes "stream_has (leb128 v) s" "v < 2 ^ 64"
  shows "run_state pb_decode_varint s = (Some (of_nat v), advance (length (leb128 v)) s)"
  using varint_loop_leb [OF assms(1), of 0 0 0 11] assms(2) by (simp add: pb_decode_varint_def)

lemma decode_varint32_eof_leb:
  assumes "stream_has (leb128 v) s" "v < 2 ^ 32"
  shows "run_state pb_decode_varint32_eof s =
     ((Some (of_nat v), False), advance (length (leb128 v)) s)"
proof (cases rule: leb128_cases [of v])
  case last'
  have u: "unat (of_nat v :: uint8) = v"
    using last' by (simp add: unat_digit)
  then have "(of_nat v :: uint8) AND 0x80 = 0"
    using continued_iff [of "of_nat v"] last' by auto
  moreover have "ucast (of_nat v :: uint8) = (of_nat v :: uint32)"
    using of_nat_of_unat [of "ucast (of_nat v :: uint8) :: uint32"] u by simp
  ultimately show ?thesis
    using assms last' readbyte_stream [of "of_nat v" "[]" s] by (simp add: pb_decode_varint32_eof_def)
next
  case more
  let ?byte = "of_nat (v mod 128 + 128) :: uint8" and ?d = "v div 128"
  let ?n = "length (leb128 ?d)"
  have u: "unat ?byte = v mod 128 + 128"
    by (rule unat_more_digit)
  have start: "unat (ucast (?byte AND 0x7F) :: uint32) = v mod 128"
    by (simp only: and_low_mask unat_take_bit unat_ucast_simps u) simp
  have "?d * 2 ^ 7 \<le> v"
    by simp
  then have d: "?d * 2 ^ 7 < 2 ^ 32"
    using assms(2) by linarith
  have loop: "run_state (varint32_loop 10 7 (ucast (?byte AND 0x7F))) (advance 1 s) =
      (Some (of_nat v, 7 + 7 * ?n, last (leb128 ?d)), advance ?n (advance 1 s))"
  proof -
    have "v mod 128 + ?d * 2 ^ 7 = v"
      by simp
    moreover have "stream_has (leb128 ?d) (advance 1 s)"
      using assms(1) more by (simp add: stream_has_Cons)
    ultimately show ?thesis
      using varint32_loop_leb [where k = 1 and n = 10 and b = 7 and v = ?d and s = "advance 1 s"
          and result = "ucast (?byte AND 0x7F)", unfolded start] d
      by (simp only:) simp
  qed
  have "last (leb128 ?d) AND 0x70 = 0" if "?n = 4"
  proof (rule high_nibble_clear)
    show "unat (last (leb128 ?d)) < 16"
      using last_leb128 [of ?d] that d by simp
  qed
  moreover have "?byte AND 0x80 \<noteq> 0"
    by (simp only: continued_iff u)
  ultimately show ?thesis
    using assms(1) more loop readbyte_stream [of ?byte "leb128 ?d" s]
    by (auto simp: pb_decode_varint32_eof_def)
qed

lemma decode_varint32_leb:
  assumes "stream_has (leb128 v) s" "v < 2 ^ 32"
  shows "run_state pb_decode_varint32 s = (Some (of_nat v), advance (length (leb128 v)) s)"
  using decode_varint32_eof_leb [OF assms] by (simp add: pb_decode_varint32_def)

end
