(* ===== verification/Pb_Wire.thy ===== *)
theory Pb_Wire
  imports Pb_Varint
begin

text \<open>
  The scalars of the wire format, written and read: what an output stream receives, and
  that reading it back gives the value. \<open>emit\<close> is the effect of a successful write on
  either kind of stream.
\<close>

section \<open>Writing\<close>

definition emit :: "uint8 list \<Rightarrow> pb \<Rightarrow> pb" where
  "emit bs s =
     s\<lparr>ostr := (ostr s)\<lparr>
         os_state := os_state (ostr s) + (if os_callback (ostr s) = Os_null then 0 else length bs),
         bytes_written := bytes_written (ostr s) + length bs\<rparr>,
       mem := (if os_callback (ostr s) = Os_null then mem s else store (os_state (ostr s)) bs (mem s))\<rparr>"

text \<open>The stream can take \<open>n\<close> more bytes.\<close>

definition room :: "pb_env \<Rightarrow> nat \<Rightarrow> pb \<Rightarrow> bool" where
  "room env n s \<longleftrightarrow>
     bytes_written (ostr s) + n < 2 ^ size_bits env \<and>
     (os_callback (ostr s) = Os_null \<or> bytes_written (ostr s) + n \<le> max_size (ostr s))"

lemma room_mono: "room env n s \<Longrightarrow> m \<le> n \<Longrightarrow> room env m s"
  by (auto simp: room_def)

lemma store_Nil [simp]: "store a [] m = m"
  by (rule ext) (auto simp: store_def)

lemma store_store: "store (a + length bs) cs (store a bs m) = store a (bs @ cs) m"
  by (rule ext) (auto simp: store_def nth_append)

lemma buf_copy_local:
  "i + n \<le> length bs \<Longrightarrow> buf_copy dest (Buf_local bs) i n m = store (dest + i) (take n (drop i bs)) m"
proof (induction n arbitrary: i m)
  case (Suc n)
  have "take (Suc n) (drop i bs) = [bs ! i] @ take n (drop (Suc i) bs)"
    using Suc.prems by (simp add: Cons_nth_drop_Suc [symmetric])
  moreover have "m(dest + i := bs ! i) = store (dest + i) [bs ! i] m"
    by (rule ext) (simp add: store_def)
  ultimately show ?case
    using Suc store_store [of "dest + i" "[bs ! i]" "take n (drop (Suc i) bs)" m]
    by (simp add: buf_byte_def)
qed simp

lemma emit_Nil [simp]: "emit [] s = s"
  by (simp add: emit_def)

lemma emit_emit: "emit cs (emit bs s) = emit (bs @ cs) s"
  by (simp add: emit_def store_store add.assoc)

lemma emit_fields [simp]:
  "istr (emit bs s) = istr s"
  "stuck (emit bs s) = stuck s"
  "fixed_count_size (emit bs s) = fixed_count_size s"
  "os_callback (ostr (emit bs s)) = os_callback (ostr s)"
  "max_size (ostr (emit bs s)) = max_size (ostr s)"
  "os_errmsg (ostr (emit bs s)) = os_errmsg (ostr s)"
  "bytes_written (ostr (emit bs s)) = bytes_written (ostr s) + length bs"
  by (simp_all add: emit_def)

lemma room_emit [simp]: "room env n (emit bs s) = room env (length bs + n) s"
  by (simp add: room_def ac_simps)

lemma run_pb_write:
  assumes "room env (length bs) s"
  shows "run_state (pb_write env (Buf_local bs) (length bs)) s = (True, emit bs s)"
  using assms
  by (cases "os_callback (ostr s)")
    (auto simp: pb_write_def room_def add_written_def call_os_callback_def buf_write_def wrap_def
      buf_copy_local emit_def Let_def)

text \<open>A buffer that cannot take the bytes stays as it is, and the caller is told.\<close>

lemma run_pb_write_full:
  assumes "os_callback (ostr s) = Os_buf_write" "max_size (ostr s) < bytes_written (ostr s) + n" "0 < n"
    and "bytes_written (ostr s) + n < 2 ^ size_bits env"
  shows "run_state (pb_write env b n) s = run_state (os_return_error ''stream full'') s"
  using assms by (simp add: pb_write_def wrap_def)

section \<open>Encoding\<close>

lemma encode_varint:
  assumes "room env (length (leb128 (unat v))) s"
  shows "run_state (pb_encode_varint env v) s = (True, emit (leb128 (unat v)) s)"
proof (cases "v \<le> 0x7F")
  case True
  then have "leb128 (unat v) = [ucast v]"
    by (simp add: leb128_small word_le_nat_alt unat_of_nat)
  then show ?thesis
    using True assms run_pb_write [of env "[ucast v]" s] by (simp add: pb_encode_varint_def)
next
  case False
  have "unat (ucast v :: uint32) + 2 ^ 32 * unat (ucast (drop_bit 32 v) :: uint32) = unat v"
  proof -
    have "unat v div 2 ^ 32 < 2 ^ 32"
      using unat_less_exp [of v] by (intro less_mult_imp_div_less) simp
    then show ?thesis
      by (simp add: unsigned_ucast_eq unat_drop_bit take_bit_eq_mod)
  qed
  then show ?thesis
    using False assms run_pb_write [of env "leb128 (unat v)" s]
    by (simp add: pb_encode_varint_def pb_encode_varint_32_def varint_32_bytes_leb Let_def)
qed

text \<open>Zigzag: 0, -1, 1, -2, ... are sent as 0, 1, 2, 3, ...\<close>

definition zigzag :: "int \<Rightarrow> nat" where
  "zigzag i = nat (if i < 0 then - 2 * i - 1 else 2 * i)"

lemma zigzag_word:
  "unat (if sint (v :: uint64) < 0 then NOT (push_bit 1 v) else push_bit 1 v) = zigzag (sint v)"
proof -
  have b: "- (2 ^ 63) \<le> sint v" "sint v < 2 ^ 63"
    using sint_greater_eq [of v] sint_less [of v] by simp_all
  have p: "push_bit 1 v = word_of_int (2 * sint v)"
    by (simp add: push_bit_eq_mult)
  have n: "NOT (push_bit 1 v) = word_of_int (- 2 * sint v - 1)"
    unfolding p by (simp add: not_eq_complement)
  have u: "0 \<le> k \<Longrightarrow> k < 2 ^ 64 \<Longrightarrow> unat (word_of_int k :: uint64) = nat k" for k
    by (simp add: unsigned_of_int take_bit_int_eq_self)
  show ?thesis
  proof (cases "sint v < 0")
    case True
    have "unat (NOT (push_bit 1 v)) = nat (- 2 * sint v - 1)"
      unfolding n by (rule u) (use b True in simp_all)
    then show ?thesis using True by (simp only: zigzag_def if_True)
  next
    case False
    have "unat (push_bit 1 v) = nat (2 * sint v)"
      unfolding p by (rule u) (use b False in simp_all)
    then show ?thesis using False by (simp only: zigzag_def if_False)
  qed
qed

lemma encode_svarint:
  assumes "room env (length (leb128 (zigzag (sint v)))) s"
  shows "run_state (pb_encode_svarint env v) s = (True, emit (leb128 (zigzag (sint v))) s)"
  using assms encode_varint [of env "if sint v < 0 then NOT (push_bit 1 v) else push_bit 1 v" s]
  unfolding zigzag_word by (simp add: pb_encode_svarint_def Let_def)

lemma low_byte: "ucast (w AND 0xFF :: 'a::len word) = (ucast w :: uint8)" if "8 \<le> LENGTH('a)"
proof (rule bit_word_eqI)
  fix i assume i: "i < LENGTH(8)"
  have m: "(0xFF :: 'a word) = mask 8"
    by (simp add: mask_eq_exp_minus_1)
  show "bit (ucast (w AND 0xFF) :: uint8) i = bit (ucast w :: uint8) i"
    unfolding m bit_ucast_iff bit_and_iff bit_mask_iff using that i by simp
qed

lemma fixed32_bytes:
  "[ucast (v AND 0xFF), ucast (drop_bit 8 v AND 0xFF), ucast (drop_bit 16 v AND 0xFF),
    ucast (drop_bit 24 v AND 0xFF)] = le_bytes 4 (v :: uint32)"
  by (simp add: low_byte numeral_eq_Suc)

lemma fixed64_bytes:
  "[ucast (v AND 0xFF), ucast (drop_bit 8 v AND 0xFF), ucast (drop_bit 16 v AND 0xFF),
    ucast (drop_bit 24 v AND 0xFF), ucast (drop_bit 32 v AND 0xFF), ucast (drop_bit 40 v AND 0xFF),
    ucast (drop_bit 48 v AND 0xFF), ucast (drop_bit 56 v AND 0xFF)] = le_bytes 8 (v :: uint64)"
  by (simp add: low_byte numeral_eq_Suc)

lemma le_bytes_word:
  assumes "8 * length bs \<le> LENGTH('a::len)"
  shows "le_bytes (length bs) (le_word bs :: 'a word) = bs"
proof (rule nth_equalityI)
  fix i assume "i < length (le_bytes (length bs) (le_word bs :: 'a word))"
  then have i: "i < length bs" by simp
  show "le_bytes (length bs) (le_word bs :: 'a word) ! i = bs ! i"
  proof (rule bit_word_eqI)
    fix k assume "k < LENGTH(8)"
    then have "(8 * i + k) div 8 = i" "(8 * i + k) mod 8 = k" "8 * i + k < LENGTH('a)" "k < 8"
      using assms i by auto
    then show "bit (le_bytes (length bs) (le_word bs :: 'a word) ! i) k = bit (bs ! i) k"
      using i by (simp add: nth_le_bytes bit_ucast_iff bit_drop_bit_eq bit_le_word)
  qed
qed simp

lemma encode_fixed:
  "room env 4 s \<Longrightarrow> run_state (pb_encode_fixed32 env p) s = (True, emit (load (mem s) p 4) s)"
  "room env 8 s \<Longrightarrow> run_state (pb_encode_fixed64 env p) s = (True, emit (load (mem s) p 8) s)"
  using run_pb_write [of env "load (mem s) p 4" s] le_bytes_word [of "load (mem s) p 4", where 'a = 32]
    run_pb_write [of env "load (mem s) p 8" s] le_bytes_word [of "load (mem s) p 8", where 'a = 64]
  by (simp_all add: pb_encode_fixed32_def pb_encode_fixed64_def encode_fixed64_value_def fixed32_bytes
      fixed64_bytes load_word_def)

section \<open>Reading back\<close>

text \<open>The input stream over what has just been written.\<close>

definition reread :: "uint8 list \<Rightarrow> pb \<Rightarrow> pb" where
  "reread bs s =
     (emit bs s)\<lparr>istr := pb_istream_from_buffer (os_state (ostr s)) (length bs)\<rparr>"

lemma stream_has_reread: "os_callback (ostr s) = Os_buf_write \<Longrightarrow> stream_has bs (reread bs s)"
  by (simp add: stream_has_def reread_def pb_istream_from_buffer_def emit_def load_store_same)

lemma zigzag_back:
  fixes v :: uint64
  defines "val \<equiv> (if sint v < 0 then NOT (push_bit 1 v) else push_bit 1 v)"
  shows "(if val AND 1 \<noteq> 0 then NOT (drop_bit 1 val) else drop_bit 1 val) = v"
proof -
  have neg: "sint v < 0 \<longleftrightarrow> bit v 63"
    using bit_last_iff [of v] by simp
  have odd: "val AND 1 \<noteq> 0 \<longleftrightarrow> sint v < 0"
    using and_exp_eq_0_iff_not_bit [of val 0]
    by (simp add: val_def bit_not_iff bit_push_bit_iff del: push_bit_Suc)
  show ?thesis
  proof (cases "sint v < 0")
    case True
    have "NOT (drop_bit 1 (NOT (push_bit 1 v))) = v"
    proof (rule bit_word_eqI)
      fix n assume "n < LENGTH(64)"
      then show "bit (NOT (drop_bit 1 (NOT (push_bit 1 v)))) n = bit v n"
        unfolding bit_not_iff bit_drop_bit_eq bit_push_bit_iff comp_apply
        using True neg by (cases "n = 63") auto
    qed
    then show ?thesis using True odd by (simp add: val_def)
  next
    case False
    have "drop_bit 1 (push_bit 1 v) = v"
    proof (rule bit_word_eqI)
      fix n assume "n < LENGTH(64)"
      then show "bit (drop_bit 1 (push_bit 1 v)) n = bit v n"
        unfolding bit_drop_bit_eq bit_push_bit_iff comp_apply
        using False neg by (cases "n = 63") auto
    qed
    then show ?thesis using False odd by (simp add: val_def)
  qed
qed

lemma decode_svarint_zigzag:
  assumes "stream_has (leb128 (zigzag (sint v))) s"
  shows "run_state pb_decode_svarint s = (Some v, advance (length (leb128 (zigzag (sint v)))) s)"
proof -
  let ?val = "if sint v < 0 then NOT (push_bit 1 v) else push_bit 1 v"
  have "zigzag (sint v) = unat ?val" by (simp only: zigzag_word)
  then have "zigzag (sint v) < 2 ^ 64" "of_nat (zigzag (sint v)) = ?val"
    using unat_less_exp [of ?val] by simp_all
  then show ?thesis
    using decode_varint_leb [OF assms] zigzag_back [of v] by (simp add: pb_decode_svarint_def)
qed

lemma load_advance: "stream_has bs s \<Longrightarrow> load (mem s) (is_state (istr s)) (length bs) = bs"
  by (simp add: stream_has_def)

lemma decode_fixed:
  "stream_has bs s \<Longrightarrow> length bs = 4 \<Longrightarrow>
     run_state (pb_decode_fixed32 dest) s = (True, (advance 4 s)\<lparr>mem := store dest bs (mem s)\<rparr>)"
  "stream_has bs s \<Longrightarrow> length bs = 8 \<Longrightarrow>
     run_state (pb_decode_fixed64 dest) s = (True, (advance 8 s)\<lparr>mem := store dest bs (mem s)\<rparr>)"
  using load_advance [of bs s] le_bytes_word [of bs, where 'a = 32] le_bytes_word [of bs, where 'a = 64]
  by (auto simp: pb_decode_fixed32_def pb_decode_fixed64_def run_pb_read_local stream_has_def)

end
