(* ===== verification/Pb_Fields.thy ===== *)
theory Pb_Fields
  imports Pb_Bind
begin

text \<open>
  The descriptor that \<open>PB_BIND\<close> packs into words, and the iterator of
  \<open>pb_common.c\<close> that unpacks them: reading a descriptor back gives the declared
  fields, and walking or searching it visits them in the declared order.
\<close>

section \<open>Packed fields\<close>

lemma PB_FITS_bit: "PB_FITS v k \<Longrightarrow> bit v n \<Longrightarrow> n < k"
proof (rule ccontr)
  assume "PB_FITS v k" "bit v n" "\<not> n < k"
  then have "unat v < 2 ^ n"
    unfolding PB_FITS_def by (meson less_le_trans one_le_numeral power_increasing not_less)
  moreover have "odd (unat v div 2 ^ n)"
    unfolding bit_iff_odd [symmetric] using \<open>bit v n\<close> by (simp add: bit_unsigned_iff)
  ultimately show False by simp
qed

text \<open>Masks, as sets of bits.\<close>

lemma bit_mask_eq: "(w::uint32) = mask k \<Longrightarrow> k \<le> 32 \<Longrightarrow> bit w n \<longleftrightarrow> n < k"
  by (auto simp: bit_mask_iff)

lemma bit_masks:
  "bit (0x3::uint32) n \<longleftrightarrow> n < 2" "bit (0xF::uint32) n \<longleftrightarrow> n < 4" "bit (0x3F::uint32) n \<longleftrightarrow> n < 6"
  "bit (0xFF::uint32) n \<longleftrightarrow> n < 8" "bit (0xFFF::uint32) n \<longleftrightarrow> n < 12" "bit (0xFFFF::uint32) n \<longleftrightarrow> n < 16"
  by (rule bit_mask_eq; simp add: mask_eq_exp_minus_1)+

lemma bit_masks_int:
  "bit (0x3::int) n \<longleftrightarrow> n < 2" "bit (0xF::int) n \<longleftrightarrow> n < 4" "bit (0x3F::int) n \<longleftrightarrow> n < 6"
  "bit (0xFF::int) n \<longleftrightarrow> n < 8" "bit (0xFFF::int) n \<longleftrightarrow> n < 12" "bit (0xFFFF::int) n \<longleftrightarrow> n < 16"
  by (subst bit_mask_iff [symmetric, where 'a = int, simplified possible_bit_def, simplified]; simp add: mask_eq_exp_minus_1)+

lemma bit_3c0: "bit (0x3c0::uint32) n \<longleftrightarrow> 6 \<le> n \<and> n < 10"
proof -
  have "(0x3c0::uint32) = push_bit 6 0xF" by simp
  then show ?thesis by (auto simp only: bit_push_bit_iff bit_masks possible_bit_word) simp_all
qed

text \<open>Reading a field of \<open>k\<close> bits at position \<open>n\<close> of a word.\<close>

lemma extract_field:
  assumes "PB_FITS v k" "n + k \<le> 32" "\<And>i. i < k \<Longrightarrow> bit w (n + i) = bit v i"
  shows "drop_bit n w AND mask k = v"
proof (rule bit_word_eqI)
  fix i
  show "bit (drop_bit n w AND mask k) i = bit v i"
    using assms(3) [of i] PB_FITS_bit [OF assms(1), of i] assms(2)
    by (cases "i < k") (auto simp: bit_and_iff bit_drop_bit_eq bit_mask_iff)
qed
lemmas bit_parts = bit_or_iff bit_and_iff bit_push_bit_iff bit_ucast_iff bit_masks bit_3c0

lemma extracts:
  "(\<And>i. i < 4 \<Longrightarrow> bit w (n + i) = bit v i) \<Longrightarrow> PB_FITS v 4 \<Longrightarrow> n \<le> 28 \<Longrightarrow> drop_bit n w AND 0xF = v"
  "(\<And>i. i < 6 \<Longrightarrow> bit w (n + i) = bit v i) \<Longrightarrow> PB_FITS v 6 \<Longrightarrow> n \<le> 26 \<Longrightarrow> drop_bit n w AND 0x3F = v"
  "(\<And>i. i < 8 \<Longrightarrow> bit w (n + i) = bit v i) \<Longrightarrow> PB_FITS v 8 \<Longrightarrow> n \<le> 24 \<Longrightarrow> drop_bit n w AND 0xFF = v"
  "(\<And>i. i < 12 \<Longrightarrow> bit w (n + i) = bit v i) \<Longrightarrow> PB_FITS v 12 \<Longrightarrow> n \<le> 20 \<Longrightarrow> drop_bit n w AND 0xFFF = v"
  using extract_field [of v 4 n w] extract_field [of v 6 n w] extract_field [of v 8 n w] extract_field [of v 12 n w]
  by (simp_all add: mask_eq_exp_minus_1)



text \<open>The bits of the first words of the two formats.\<close>

lemma len_32: "LENGTH(32) = (32::nat)"
  by simp

lemma fieldinfo_1_bits:
  fixes ty :: uint8 and t off sz so n :: uint32
  defines "w \<equiv> PB_FIELDINFO_1 t (ucast ty) off sz so n ! 0"
  shows "bit w k \<longleftrightarrow> (False \<or> (2 \<le> k \<and> k < 32 \<and> bit t (k - 2)) \<and> k < 8 \<or>
     8 \<le> k \<and> k < 32 \<and> k - 8 < 32 \<and> bit ty (k - 8)) \<or>
      16 \<le> k \<and> k < 32 \<and> bit off (k - 16) \<and> k - 16 < 8 \<or>
      24 \<le> k \<and> k < 32 \<and> bit so (k - 24) \<and> k - 24 < 4 \<or>
      28 \<le> k \<and> k < 32 \<and> bit sz (k - 28) \<and> k - 28 < 4"
  unfolding w_def
  by (simp only: PB_FIELDINFO_1_def fieldinfo_head_def nth_Cons_0 bit_parts possible_bit_word len_32 bit_0_eq bot_apply bot_bool_def)

lemma fieldinfo_2_bits:
  fixes ty :: uint8 and t off sz so n :: uint32
  defines "w \<equiv> PB_FIELDINFO_2 t (ucast ty) off sz so n ! 0"
    and "v \<equiv> PB_FIELDINFO_2 t (ucast ty) off sz so n ! Suc 0"
  shows "bit w k \<longleftrightarrow> (k = 0 \<or> (2 \<le> k \<and> k < 32 \<and> bit t (k - 2)) \<and> k < 8 \<or>
     8 \<le> k \<and> k < 32 \<and> k - 8 < 32 \<and> bit ty (k - 8)) \<or>
      16 \<le> k \<and> k < 32 \<and> bit n (k - 16) \<and> k - 16 < 12 \<or>
      28 \<le> k \<and> k < 32 \<and> bit so (k - 28) \<and> k - 28 < 4"
    and "bit v k \<longleftrightarrow> (bit off k \<and> k < 16) \<or> 16 \<le> k \<and> k < 32 \<and> bit sz (k - 16) \<and> k - 16 < 12 \<or>
      22 \<le> k \<and> k < 32 \<and> bit t (k - 22) \<and> 6 \<le> k - 22 \<and> k - 22 < 10"
  unfolding w_def v_def
  by (simp_all only: PB_FIELDINFO_2_def fieldinfo_head_def nth_Cons_0 nth_Cons_Suc bit_parts possible_bit_word len_32 bit_1_iff)

lemma byte_bit: "bit (w :: uint8) n \<Longrightarrow> n < 8"
  using bit_imp_le_length [of w n] by simp

text \<open>The width code and the type, which both formats keep in the first word.\<close>

lemma fieldinfo_heads:
  "PB_FIELDINFO_1 t (ucast (ty::uint8)) off sz so n ! 0 AND 3 = 0"
  "PB_FIELDINFO_2 t (ucast (ty::uint8)) off sz so n ! 0 AND 3 = 1"
  by (rule bit_word_eqI;
      auto simp: bit_and_iff bit_masks_int fieldinfo_1_bits fieldinfo_2_bits bit_1_iff)+

lemma fieldinfo_types:
  "ucast (drop_bit 8 (PB_FIELDINFO_1 t (ucast (ty::uint8)) off sz so n ! 0) AND 0xFF) = ty"
  by (rule bit_word_eqI)
    (auto simp: bit_ucast_iff bit_and_iff bit_drop_bit_eq bit_masks_int fieldinfo_1_bits dest: byte_bit)

lemma fieldinfo_types_2:
  "ucast (drop_bit 8 (PB_FIELDINFO_2 t (ucast (ty::uint8)) off sz so n ! 0) AND 0xFF) = ty"
  by (rule bit_word_eqI)
    (auto simp: bit_ucast_iff bit_and_iff bit_drop_bit_eq bit_masks_int fieldinfo_2_bits dest: byte_bit)

lemma fieldinfo_tags:
  "drop_bit 2 (PB_FIELDINFO_1 t (ucast (ty::uint8)) off sz so n ! 0) AND 0x3F = t AND 0x3F"
  "drop_bit 2 (PB_FIELDINFO_2 t (ucast (ty::uint8)) off sz so n ! 0) AND 0x3F = t AND 0x3F"
  by (rule bit_word_eqI;
      auto simp: bit_and_iff bit_drop_bit_eq bit_masks_int fieldinfo_1_bits fieldinfo_2_bits)+

lemma values_1:
  assumes "PB_FITS t 6" "PB_FITS off 8" "PB_FITS so 4" "PB_FITS sz 4"
  shows "descriptor_values (\<lambda>k. PB_FIELDINFO_1 t (ucast (ty::uint8)) off sz so n ! k) =
     \<lparr> fv_array_size = 1, fv_tag = ucast t, fv_size_offset = ucast so, fv_data_offset = off,
       fv_data_size = ucast sz \<rparr>"
proof -
  define w where "w = PB_FIELDINFO_1 t (ucast ty) off sz so n ! 0"
  note w = fieldinfo_1_bits [of t ty off sz so n, folded w_def] and b = byte_bit [of ty]
  have "w AND 3 = 0"
    unfolding w_def by (rule fieldinfo_heads)
  moreover have "drop_bit 2 w AND 0x3F = t"
    by (rule extracts) (auto simp: assms w)
  moreover have "drop_bit 24 w AND 0xF = so"
    by (rule extracts) (auto simp: assms w dest: b)
  moreover have "drop_bit 16 w AND 0xFF = off"
    by (rule extracts) (auto simp: assms w dest: b)
  moreover have "drop_bit 28 w AND 0xF = sz"
    by (rule extracts) (auto simp: assms w dest: b)
  ultimately show ?thesis
    by (simp add: descriptor_values_def flip: w_def)
qed

lemma values_2:
  assumes "PB_FITS t 10" "PB_FITS off 16" "PB_FITS so 4" "PB_FITS sz 12" "PB_FITS n 12"
  shows "descriptor_values (\<lambda>k. PB_FIELDINFO_2 t (ucast (ty::uint8)) off sz so n ! k) =
     \<lparr> fv_array_size = ucast n, fv_tag = ucast t, fv_size_offset = ucast so, fv_data_offset = off,
       fv_data_size = ucast sz \<rparr>"
proof -
  define w where "w = PB_FIELDINFO_2 t (ucast ty) off sz so n ! 0"
  define v where "v = PB_FIELDINFO_2 t (ucast ty) off sz so n ! Suc 0"
  note w = fieldinfo_2_bits [of t ty off sz so n, folded w_def v_def] and b = byte_bit [of ty] and fits = assms [THEN PB_FITS_bit]
  have "w AND 3 = 1"
    unfolding w_def by (rule fieldinfo_heads)
  moreover have "(drop_bit 2 w AND 0x3F) OR push_bit 6 (drop_bit 28 v) = t"
  proof (rule bit_word_eqI)
    fix i assume "i < LENGTH(32)"
    then consider "i < 6" | "6 \<le> i" "i < 10" | "10 \<le> i" "i < 32"
      by fastforce
    then show "bit ((drop_bit 2 w AND 0x3F) OR push_bit 6 (drop_bit 28 v)) i = bit t i"
    proof cases
      case 1
      then show ?thesis by (simp add: bit_or_iff bit_and_iff bit_masks bit_masks_int bit_push_bit_iff bit_drop_bit_eq w)
    next
      case 2
      then show ?thesis by (simp add: bit_or_iff bit_and_iff bit_masks bit_masks_int bit_push_bit_iff bit_drop_bit_eq w)
    next
      case 3
      then show ?thesis using fits(1) [of i] by (auto simp: bit_or_iff bit_and_iff bit_masks bit_masks_int bit_push_bit_iff bit_drop_bit_eq w)
    qed
  qed
  moreover have "drop_bit 28 w AND 0xF = so"
    by (rule extracts) (auto simp: assms w dest: b)
  moreover have "drop_bit 16 w AND 0xFFF = n"
    by (rule extracts) (auto simp: assms w dest: b)
  moreover have "drop_bit 16 v AND 0xFFF = sz"
    by (rule extracts) (auto simp: assms w dest: fits)
  moreover have "v AND 0xFFFF = off"
    by (rule bit_word_eqI) (auto simp: bit_and_iff bit_masks_int w dest: fits)
  ultimately show ?thesis
    by (simp add: descriptor_values_def flip: w_def v_def)
qed

section \<open>Descriptors\<close>

text \<open>A list of fields that the static assertions of the generated code accept, with no pointers.\<close>

definition valid_fields :: "field_spec list \<Rightarrow> bool" where
  "valid_fields fs \<longleftrightarrow>
     list_all (\<lambda>s. PB_GEN_FIELD_INFO_ASSERT_AUTO s \<and> fs_atype s \<noteq> A_POINTER \<and>
       (fs_submsg s \<noteq> None \<longleftrightarrow> fs_ltype s = T_MESSAGE \<or> fs_ltype s = T_MSG_W_CB)) fs \<and>
     2 * length fs < 2 ^ 16"

definition field_width :: "field_spec \<Rightarrow> nat" where
  "field_width s = PB_FIELDINFO_WIDTH_AUTO (fs_atype s) (fs_htype s) (fs_ltype s)"

definition words_before :: "field_spec list \<Rightarrow> nat \<Rightarrow> nat" where
  "words_before fs i = sum_list (map field_width (take i fs))"

lemma field_width_cases: "field_width s = 1 \<or> field_width s = 2"
  by (simp add: field_width_def PB_FIELDINFO_WIDTH_AUTO_def split: proto_type.split)

lemma length_field_info: "length (PB_GEN_FIELD_INFO_AUTO s) = field_width s"
  using field_width_cases [of s]
  by (auto simp: PB_GEN_FIELD_INFO_AUTO_def field_width_def PB_FIELDINFO_1_def PB_FIELDINFO_2_def)

lemma words_before_Suc:
  "i < length fs \<Longrightarrow> words_before fs (Suc i) = words_before fs i + field_width (fs ! i)"
  by (simp add: words_before_def take_Suc_conv_app_nth)

lemma words_before_le: "i \<le> length fs \<Longrightarrow> words_before fs i \<le> 2 * i"
proof (induction i)
  case 0
  then show ?case by (simp add: words_before_def)
next
  case (Suc i)
  then show ?case
    using field_width_cases [of "fs ! i"] by (auto simp: words_before_Suc)
qed

lemma nth_concat_words:
  "i < length fs \<Longrightarrow> k < field_width (fs ! i) \<Longrightarrow>
   words_before fs i + k < length (concat (map PB_GEN_FIELD_INFO_AUTO fs)) \<and>
   concat (map PB_GEN_FIELD_INFO_AUTO fs) ! (words_before fs i + k) = PB_GEN_FIELD_INFO_AUTO (fs ! i) ! k"
proof (induction fs arbitrary: i)
  case (Cons s fs)
  then show ?case
    by (cases i) (auto simp: words_before_def nth_append length_field_info)
qed simp

lemma field_word_BIND:
  assumes "i < length fs" "k < field_width (fs ! i)"
  shows "field_word (PB_BIND fs dv cb) (words_before fs i + k) = PB_GEN_FIELD_INFO_AUTO (fs ! i) ! k"
  using nth_concat_words [OF assms] by (simp add: PB_BIND_def field_word_def nth_append)

lemma field_info_head:
  "PB_GEN_FIELD_INFO_AUTO s ! 0 AND 3 = (if field_width s = 1 then 0 else 1)"
  "ucast (drop_bit 8 (PB_GEN_FIELD_INFO_AUTO s ! 0) AND 0xFF) = field_type_code s"
  "drop_bit 2 (PB_GEN_FIELD_INFO_AUTO s ! 0) AND 0x3F = fs_tag s AND 0x3F"
  by (simp_all add: PB_GEN_FIELD_INFO_AUTO_def field_width_def fieldinfo_heads fieldinfo_types
      fieldinfo_types_2 fieldinfo_tags del: One_nat_def)

lemma descriptor_values_cong:
  assumes "f 0 = g 0" "f 0 AND 3 = 0 \<or> f 0 AND 3 = 1 \<and> f 1 = g 1"
  shows "descriptor_values f = descriptor_values g"
  using assms by (auto simp: descriptor_values_def Let_def)

lemma descriptor_values_spec:
  assumes "PB_GEN_FIELD_INFO_ASSERT_AUTO s"
  shows "descriptor_values (\<lambda>k. PB_GEN_FIELD_INFO_AUTO s ! k) =
     \<lparr> fv_array_size = (if field_width s = 1 then 1 else ucast (fs_array_size s)),
       fv_tag = ucast (fs_tag s), fv_size_offset = ucast (fs_size_offset s),
       fv_data_offset = fs_data_offset s, fv_data_size = ucast (fs_data_size s) \<rparr>"
  using assms unfolding PB_GEN_FIELD_INFO_ASSERT_AUTO_def PB_GEN_FIELD_INFO_AUTO_def field_width_def
  by (cases "PB_FIELDINFO_WIDTH_AUTO (fs_atype s) (fs_htype s) (fs_ltype s) = 1")
    (simp_all only: if_True if_False simp_thms values_1 values_2)

lemma field_values_BIND:
  assumes "valid_fields fs" "i < length fs"
  defines "s \<equiv> fs ! i"
  shows "descriptor_values (\<lambda>k. field_word (PB_BIND fs dv cb) (words_before fs i + k)) =
     \<lparr> fv_array_size = (if field_width s = 1 then 1 else ucast (fs_array_size s)),
       fv_tag = ucast (fs_tag s), fv_size_offset = ucast (fs_size_offset s),
       fv_data_offset = fs_data_offset s, fv_data_size = ucast (fs_data_size s) \<rparr>"
proof -
  have a: "PB_GEN_FIELD_INFO_ASSERT_AUTO s"
    using assms by (simp add: valid_fields_def list_all_length)
  note w = field_word_BIND [OF assms(2), of _ dv cb, folded s_def]
  have "descriptor_values (\<lambda>k. field_word (PB_BIND fs dv cb) (words_before fs i + k)) =
    descriptor_values (\<lambda>k. PB_GEN_FIELD_INFO_AUTO s ! k)"
    using field_width_cases [of s] w [of 0] w [of 1] field_info_head(1) [of s]
    by (intro descriptor_values_cong) (auto split: if_splits)
  then show ?thesis
    by (simp only: descriptor_values_spec [OF a])
qed

section \<open>Walking a descriptor\<close>

definition is_submsg :: "field_spec \<Rightarrow> bool" where
  "is_submsg s \<longleftrightarrow> fs_ltype s = T_MESSAGE \<or> fs_ltype s = T_MSG_W_CB"

definition is_required :: "field_spec \<Rightarrow> bool" where
  "is_required s \<longleftrightarrow> htype_code (fs_htype s) = PB_HTYPE_REQUIRED"

text \<open>What the iterator shows of the \<open>i\<close>th field of a structure at \<open>p\<close>.\<close>

definition field_of :: "field_spec list \<Rightarrow> nat \<Rightarrow> field_callback \<Rightarrow> nat \<Rightarrow> nat \<Rightarrow> field_iter" where
  "field_of fs dv cb p i =
     (let s = fs ! i; a = p + unat (fs_data_offset s) in
      \<lparr> descriptor = PB_BIND fs dv cb, message = p, index = of_nat i,
        field_info_index = of_nat (words_before fs i),
        required_field_index = of_nat (length (filter is_required (take i fs))),
        submessage_index = of_nat (length (filter is_submsg (take i fs))),
        tag = ucast (fs_tag s), data_size = ucast (fs_data_size s),
        array_size = (if field_width s = 1 then 1 else ucast (fs_array_size s)),
        ftype = field_type_code s, pField = a, pData = a,
        pSize =
          (if fs_size_offset s \<noteq> 0 then Size_at (a - unat (fs_size_offset s))
           else if (fs_htype s = H_REPEATED \<or> fs_htype s = H_FIXARRAY) \<and> fs_atype s \<noteq> A_CALLBACK
           then Size_self else Size_null),
        submsg_desc = fs_submsg s \<rparr>)"

text \<open>The iterator's position, whatever iter has read last.\<close>

definition at_field :: "field_spec list \<Rightarrow> nat \<Rightarrow> field_callback \<Rightarrow> nat \<Rightarrow> nat \<Rightarrow> field_iter \<Rightarrow> bool" where
  "at_field fs dv cb p i iter \<longleftrightarrow>
     descriptor iter = PB_BIND fs dv cb \<and> message iter = p \<and> index iter = of_nat i \<and>
     field_info_index iter = of_nat (words_before fs i) \<and>
     required_field_index iter = of_nat (length (filter is_required (take i fs))) \<and>
     submessage_index iter = of_nat (length (filter is_submsg (take i fs)))"

lemma at_field_of: "at_field fs dv cb p i (field_of fs dv cb p i)"
  by (simp add: at_field_def field_of_def Let_def)

lemma type_code_parts:
  "PB_ATYPE (field_type_code s) = atype_code (fs_atype s)"
  "PB_HTYPE (field_type_code s) = htype_code (fs_htype s)"
  "PB_LTYPE (field_type_code s) = PB_LTYPE_MAP (fs_ltype s)"
  by (cases "fs_atype s"; cases "fs_htype s"; cases "fs_ltype s";
      simp add: field_type_code_def pb_type_parts atype_code_def htype_code_def PB_LTYPE_MAP_def pb_types)+

lemma is_submsg_code: "PB_LTYPE_IS_SUBMSG (field_type_code s) = is_submsg s"
  by (cases "fs_ltype s") (simp_all add: PB_LTYPE_IS_SUBMSG_def type_code_parts is_submsg_def
      PB_LTYPE_MAP_def pb_types)

lemma desc_BIND:
  "field_count (PB_BIND fs dv cb) = of_nat (length fs)"
  "submsg_info (PB_BIND fs dv cb) = List.map_filter fs_submsg fs"
  "largest_tag (PB_BIND fs dv cb) = (if fs = [] then 0 else ucast (fs_tag (last fs)))"
  by (simp_all add: PB_BIND_def)

lemma submsg_at_BIND:
  assumes "valid_fields fs" "i < length fs"
  shows "(if is_submsg (fs ! i) then submsg_at (PB_BIND fs dv cb) (length (filter is_submsg (take i fs))) else None)
    = fs_submsg (fs ! i)"
proof -
  have v: "\<And>s. s \<in> set fs \<Longrightarrow> is_submsg s \<longleftrightarrow> fs_submsg s \<noteq> None"
    using assms(1) by (auto simp: valid_fields_def list_all_iff is_submsg_def)
  have "is_submsg (fs ! i) \<Longrightarrow> length (filter is_submsg (take i fs)) < length (List.map_filter fs_submsg fs) \<and>
     Some (List.map_filter fs_submsg fs ! length (filter is_submsg (take i fs))) = fs_submsg (fs ! i)"
    using assms(2) v
  proof (induction fs arbitrary: i)
    case (Cons s fs)
    have v': "\<And>s. s \<in> set fs \<Longrightarrow> is_submsg s \<longleftrightarrow> fs_submsg s \<noteq> None" using Cons.prems(3) by simp
    show ?case
    proof (cases i)
      case 0
      then show ?thesis using Cons.prems by (auto simp: List.map_filter_simps)
    next
      case (Suc j)
      then show ?thesis using Cons.IH [of j] Cons.prems(1,2) v' Cons.prems(3) [of s]
        by (cases "fs_submsg s") (auto simp: List.map_filter_simps)
    qed
  qed simp
  then show ?thesis
    using v [of "fs ! i"] assms(2) by (auto simp: submsg_at_def desc_BIND)
qed

lemma sint_small:
  assumes "PB_FITS v 4"
  shows "sint (ucast v :: uint8) = int (unat v)" "(ucast v :: uint8) = 0 \<longleftrightarrow> v = 0"
proof -
  have u: "unat v < 16" using assms by (simp add: PB_FITS_def)
  have small: "k < 16 \<Longrightarrow> signed_take_bit (LENGTH(8) - Suc 0) (int k) = int k" for k
    by (rule signed_take_bit_int_eq_self) simp_all
  from u have "unat (ucast v :: uint8) = unat v"
    by (simp add: unsigned_ucast_eq take_bit_nat_eq_self)
  moreover have "sint (word_of_nat (unat v) :: uint8) = int (unat v)"
    using u by (simp only: signed_of_nat of_int_eq_id id_apply)
      (rule small [OF u])
  ultimately show "sint (ucast v :: uint8) = int (unat v)" "(ucast v :: uint8) = 0 \<longleftrightarrow> v = 0"
    by (auto simp flip: unat_eq_zero)
qed

lemma code_iffs:
  "htype_code h = PB_HTYPE_REPEATED \<longleftrightarrow> h = H_REPEATED \<or> h = H_FIXARRAY"
  "atype_code a = PB_ATYPE_STATIC \<longleftrightarrow> a = A_STATIC"
  "atype_code a = PB_ATYPE_POINTER \<longleftrightarrow> a = A_POINTER"
  by (cases h; cases a; simp add: htype_code_def atype_code_def pb_types)+

lemma load_at_field:
  assumes "valid_fields fs" "i < length fs" "p \<noteq> 0" "at_field fs dv cb p i iter"
  shows "load_descriptor_values env m iter = (True, field_of fs dv cb p i)"
proof -
  let ?s = "fs ! i"
  have ass: "PB_GEN_FIELD_INFO_ASSERT_AUTO ?s" "fs_atype ?s \<noteq> A_POINTER" and len: "2 * length fs < 2 ^ 16"
    using assms(1,2) by (simp_all add: valid_fields_def list_all_length)
  have so: "PB_FITS (fs_size_offset ?s) 4"
    using ass(1) by (auto simp: PB_GEN_FIELD_INFO_ASSERT_AUTO_def split: if_splits)
  have idx: "unat (of_nat i :: uint16) = i" "unat (of_nat (words_before fs i) :: uint16) = words_before fs i"
    "unat (of_nat (length (filter is_submsg (take i fs))) :: uint16) = length (filter is_submsg (take i fs))"
    using assms(2) len words_before_le [of i fs] length_filter_le [of is_submsg "take i fs"]
    by (simp_all add: unat_of_nat)
  have lt: "\<not> (of_nat (length fs) :: uint16) \<le> of_nat i"
    using assms(2) len by (simp add: word_le_nat_alt unat_of_nat)
  have w0: "field_word (PB_BIND fs dv cb) (words_before fs i) = PB_GEN_FIELD_INFO_AUTO ?s ! 0"
    using field_word_BIND [OF assms(2), of 0 dv cb] field_width_cases [of ?s] by fastforce
  have offset: "nat (int p + uint (fs_data_offset ?s) - sint (ucast (fs_size_offset ?s) :: uint8)) =
      p + unat (fs_data_offset ?s) - unat (fs_size_offset ?s)"
    using sint_small(1) [OF so] by (simp add: nat_minus_as_int)
  obtain iter0 where iter: "iter = iter0" "descriptor iter = PB_BIND fs dv cb" "message iter = p" "index iter = word_of_nat i"
     "field_info_index iter = word_of_nat (words_before fs i)"
     "required_field_index iter = word_of_nat (length (filter is_required (take i fs)))"
     "submessage_index iter = word_of_nat (length (filter is_submsg (take i fs)))"
    using assms(4) by (simp add: at_field_def)
  have "load_descriptor_values env m iter = (True, iter\<lparr>ftype := field_type_code ?s, 
     array_size := (if field_width ?s = 1 then 1 else ucast (fs_array_size ?s)),
        tag := ucast (fs_tag ?s), data_size := ucast (fs_data_size ?s), pField := p + unat (fs_data_offset ?s),
      pSize := (if fs_size_offset ?s \<noteq> 0 then Size_at (p + unat (fs_data_offset ?s) - unat (fs_size_offset ?s))
           else if (fs_htype ?s = H_REPEATED \<or> fs_htype ?s = H_FIXARRAY) \<and> fs_atype ?s \<noteq> A_CALLBACK
           then Size_self else Size_null), pData := p + unat (fs_data_offset ?s), submsg_desc := fs_submsg ?s\<rparr>)"
    unfolding load_descriptor_values_def Let_def using ass(2)
    by (cases "fs_atype ?s") (simp_all add: iter(2-) desc_BIND lt idx field_values_BIND [OF assms(1,2)] w0
      field_info_head type_code_parts is_submsg_code sint_small(2) [OF so] offset assms(3) code_iffs
      submsg_at_BIND [OF assms(1,2)] cong: if_cong)
  then show ?thesis
    using iter(2-) by (cases iter) (simp add: field_of_def Let_def)
qed
lemma begin_field:
  assumes "valid_fields fs" "fs \<noteq> []" "p \<noteq> 0"
  shows "pb_field_iter_begin env m (PB_BIND fs dv cb) p = (True, field_of fs dv cb p 0)"
  unfolding pb_field_iter_begin_def
  by (rule load_at_field) (use assms in \<open>simp_all add: at_field_def iter_zero_def words_before_def\<close>)

lemma valid_index:
  assumes "valid_fields fs" "i \<le> length fs"
  shows "unat (of_nat i :: uint16) = i" "unat (of_nat (words_before fs i) :: uint16) = words_before fs i"
  using assms words_before_le [of i fs] by (simp_all add: valid_fields_def unat_of_nat)

lemma next_word:
  assumes "valid_fields fs" "i < length fs"
  shows "field_word (PB_BIND fs dv cb) (unat (of_nat (words_before fs i) :: uint16)) = PB_GEN_FIELD_INFO_AUTO (fs ! i) ! 0"
  using field_word_BIND [OF assms(2), of 0 dv cb] field_width_cases [of "fs ! i"] valid_index(2) [of fs i] assms
  by fastforce

lemma advance_at_field:
  assumes "valid_fields fs" "i < length fs" "at_field fs dv cb p i iter"
  shows "at_field fs dv cb p (if Suc i < length fs then Suc i else 0) (advance_iterator iter)"
proof (cases "Suc i < length fs")
  case True
  have "\<not> (of_nat (length fs) :: uint16) \<le> of_nat i + 1"
    using valid_index(1) [OF assms(1), of "Suc i"] valid_index(1) [OF assms(1), of "length fs"] True
    by (simp add: word_le_nat_alt add.commute)
  moreover have "push_bit (unat (PB_GEN_FIELD_INFO_AUTO (fs ! i) ! 0 AND 3)) 1 = (of_nat (field_width (fs ! i)) :: uint16)"
    using field_width_cases [of "fs ! i"] by (auto simp: field_info_head)
  moreover have "required_field_index iter + of_bool (PB_HTYPE (field_type_code (fs ! i)) = PB_HTYPE_REQUIRED) =
    of_nat (length (filter is_required (take (Suc i) fs)))"
    using assms by (simp add: at_field_def take_Suc_conv_app_nth type_code_parts is_required_def)
  moreover have "submessage_index iter + of_bool (PB_LTYPE_IS_SUBMSG (field_type_code (fs ! i))) =
    of_nat (length (filter is_submsg (take (Suc i) fs)))"
    using assms by (simp add: at_field_def take_Suc_conv_app_nth is_submsg_code)
  ultimately show ?thesis
    using assms(3) True
    by (simp add: at_field_def advance_iterator_def Let_def desc_BIND next_word [OF assms(1,2)] field_info_head(2)
      words_before_Suc add.commute)
next
  case False
  then have "Suc i = length fs" using assms(2) by simp
  then have "(of_nat (length fs) :: uint16) \<le> of_nat i + 1"
    by (metis add.commute of_nat_Suc order_refl)
  then show ?thesis
    using assms(3) False
    by (simp add: at_field_def advance_iterator_def Let_def desc_BIND words_before_def)
qed

lemma next_field:
  assumes "valid_fields fs" "i < length fs" "p \<noteq> 0"
  shows "pb_field_iter_next env m (field_of fs dv cb p i) =
    (Suc i < length fs, field_of fs dv cb p (if Suc i < length fs then Suc i else 0))"
proof -
  let ?j = "if Suc i < length fs then Suc i else 0"
  have j: "?j < length fs" using assms(2) by auto
  have "index (field_of fs dv cb p ?j) = 0 \<longleftrightarrow> ?j = 0"
    using valid_index(1) [OF assms(1), of ?j] j by (auto simp: field_of_def Let_def simp flip: unat_eq_zero)
  then show ?thesis
    using load_at_field [OF assms(1) j assms(3) advance_at_field [OF assms(1,2) at_field_of], where dv = dv and cb = cb and env = env and m = m]
    by (simp add: pb_field_iter_next_def Let_def)
qed
section \<open>Searching a descriptor\<close>

text \<open>Fields as the generator emits them: ascending tags, no extension ranges.\<close>

definition plain_fields :: "field_spec list \<Rightarrow> bool" where
  "plain_fields fs \<longleftrightarrow>
     valid_fields fs \<and> sorted_wrt (<) (map fs_tag fs) \<and>
     list_all (\<lambda>s. fs_ltype s \<noteq> T_EXTENSION) fs"

lemma ucast_tag:
  assumes "valid_fields fs" "i < length fs"
  shows "ucast (ucast (fs_tag (fs ! i)) :: uint16) = fs_tag (fs ! i)"
proof -
  have "PB_GEN_FIELD_INFO_ASSERT_AUTO (fs ! i)"
    using assms by (simp add: valid_fields_def list_all_length)
  then have "PB_FITS (fs_tag (fs ! i)) 6 \<or> PB_FITS (fs_tag (fs ! i)) 10"
    by (auto simp: PB_GEN_FIELD_INFO_ASSERT_AUTO_def split: if_splits)
  then have "bit (fs_tag (fs ! i)) n \<Longrightarrow> n < 10" for n
    using PB_FITS_bit [of "fs_tag (fs ! i)" 6 n] PB_FITS_bit [of "fs_tag (fs ! i)" 10 n] by auto
  then show ?thesis
    by (intro bit_word_eqI) (fastforce simp: bit_ucast_iff)
qed

lemma plain_ltype:
  assumes "plain_fields fs" "i < length fs"
  shows "PB_LTYPE (field_type_code (fs ! i)) \<noteq> PB_LTYPE_EXTENSION"
proof -
  have "fs_ltype (fs ! i) \<noteq> T_EXTENSION"
    using assms by (simp add: plain_fields_def list_all_length)
  then show ?thesis
    by (cases "fs_ltype (fs ! i)") (simp_all add: type_code_parts PB_LTYPE_MAP_def pb_types)
qed

lemma field_of_members:
  "tag (field_of fs dv cb p i) = ucast (fs_tag (fs ! i))"
  "ftype (field_of fs dv cb p i) = field_type_code (fs ! i)"
  "index (field_of fs dv cb p i) = of_nat i"
  "descriptor (field_of fs dv cb p i) = PB_BIND fs dv cb"
  "message (field_of fs dv cb p i) = p"
  by (simp_all add: field_of_def Let_def)

text \<open>
  One round of the search, from an iterator that moves to field \<open>k\<close> next.
\<close>

lemma find_round:
  assumes fs: "plain_fields fs" "k < length fs" "p \<noteq> 0" "i < length fs"
    and at: "at_field fs dv cb p k (advance_iterator iter)"
  shows "fs_tag (fs ! k) = t \<Longrightarrow>
      find_tag_loop env m t (of_nat i) (Suc n) iter = Some (True, field_of fs dv cb p k)"
    and "fs_tag (fs ! k) \<noteq> t \<Longrightarrow> k = i \<Longrightarrow>
      find_tag_loop env m t (of_nat i) (Suc n) iter = Some (False, field_of fs dv cb p k)"
    and "fs_tag (fs ! k) \<noteq> t \<Longrightarrow> k \<noteq> i \<Longrightarrow>
      \<exists>iter'. at_field fs dv cb p k iter' \<and>
        find_tag_loop env m t (of_nat i) (Suc n) iter = find_tag_loop env m t (of_nat i) n iter'"
proof -
  have v: "valid_fields fs" using fs(1) by (simp add: plain_fields_def)
  note l = load_at_field [OF v fs(2,3)]
  let ?a = "advance_iterator iter"
  have w: "field_word (descriptor ?a) (unat (field_info_index ?a)) = PB_GEN_FIELD_INFO_AUTO (fs ! k) ! 0"
    using at next_word [OF v fs(2), of dv cb] by (simp add: at_field_def)
  have ix: "(of_nat k :: uint16) = of_nat i \<longleftrightarrow> k = i"
    using valid_index(1) [OF v, of k] valid_index(1) [OF v, of i] fs by (metis order_less_imp_le)
  have ia: "index ?a = of_nat k" using at by (simp add: at_field_def)
  note s = find_tag_loop.simps(2) [of env m t "of_nat i" n iter] Let_def w field_info_head(3) l [OF at]
    field_of_members ucast_tag [OF v fs(2)] plain_ltype [OF fs(1,2)]
  show "fs_tag (fs ! k) = t \<Longrightarrow>
      find_tag_loop env m t (of_nat i) (Suc n) iter = Some (True, field_of fs dv cb p k)"
    using ucast_tag [OF v fs(2)] by (auto simp: s)
  show "fs_tag (fs ! k) \<noteq> t \<Longrightarrow> k = i \<Longrightarrow>
      find_tag_loop env m t (of_nat i) (Suc n) iter = Some (False, field_of fs dv cb p k)"
    using l [OF at_field_of] ucast_tag [OF v fs(2)] by (auto simp: s ia)
  show "\<exists>iter'. at_field fs dv cb p k iter' \<and>
        find_tag_loop env m t (of_nat i) (Suc n) iter = find_tag_loop env m t (of_nat i) n iter'"
    if "fs_tag (fs ! k) \<noteq> t" "k \<noteq> i"
    using that at at_field_of [of fs dv cb p k]
    by (cases "fs_tag (fs ! k) AND 0x3F = t AND 0x3F") (auto simp: s ia ix)
qed

lemma find_loop_hit:
  assumes fs: "plain_fields fs" "p \<noteq> 0" "i < length fs" and j: "j < length fs" "fs_tag (fs ! j) = t"
    and other: "\<And>k. k < length fs \<Longrightarrow> k \<noteq> j \<Longrightarrow> fs_tag (fs ! k) \<noteq> t"
  shows "k < length fs \<Longrightarrow> at_field fs dv cb p k (advance_iterator iter) \<Longrightarrow> k \<le> j \<Longrightarrow>
     (\<And>l. k \<le> l \<Longrightarrow> l < j \<Longrightarrow> l \<noteq> i) \<Longrightarrow> j - k < n \<Longrightarrow>
     find_tag_loop env m t (of_nat i) n iter = Some (True, field_of fs dv cb p j)"
proof (induction n arbitrary: k iter)
  case (Suc n)
  show ?case
  proof (cases "k = j")
    case True
    then show ?thesis using find_round(1) [OF fs(1) Suc.prems(1) fs(2,3) Suc.prems(2)] j by simp
  next
    case False
    then have ne: "fs_tag (fs ! k) \<noteq> t" "k \<noteq> i" and lt: "k < j"
      using other [OF Suc.prems(1)] Suc.prems(3,4) by auto
    obtain iter' where i': "at_field fs dv cb p k iter'"
      "find_tag_loop env m t (of_nat i) (Suc n) iter = find_tag_loop env m t (of_nat i) n iter'"
      using find_round(3) [OF fs(1) Suc.prems(1) fs(2,3) Suc.prems(2) ne] by blast
    have "valid_fields fs" using fs(1) by (simp add: plain_fields_def)
    from advance_at_field [OF this Suc.prems(1) i'(1)] lt j(1)
    have "at_field fs dv cb p (Suc k) (advance_iterator iter')" by (simp split: if_splits)
    then show ?thesis
      using Suc.IH [of "Suc k" iter'] Suc.prems(3-5) lt j(1) i'(2) by simp
  qed
qed simp

lemma find_loop_miss:
  assumes fs: "plain_fields fs" "p \<noteq> 0" "i < length fs"
    and other: "\<And>k. k < length fs \<Longrightarrow> fs_tag (fs ! k) \<noteq> t"
  shows "k < length fs \<Longrightarrow> at_field fs dv cb p k (advance_iterator iter) \<Longrightarrow>
     (if k \<le> i then i - k else length fs - k + i) < n \<Longrightarrow>
     find_tag_loop env m t (of_nat i) n iter = Some (False, field_of fs dv cb p i)"
proof (induction n arbitrary: k iter)
  case (Suc n)
  show ?case
  proof (cases "k = i")
    case True
    then show ?thesis
      using find_round(2) [OF fs(1) Suc.prems(1) fs(2,3) Suc.prems(2) other [OF Suc.prems(1)]] by simp
  next
    case False
    obtain iter' where i': "at_field fs dv cb p k iter'"
      "find_tag_loop env m t (of_nat i) (Suc n) iter = find_tag_loop env m t (of_nat i) n iter'"
      using find_round(3) [OF fs(1) Suc.prems(1) fs(2,3) Suc.prems(2) other [OF Suc.prems(1)] False] by blast
    let ?k = "if Suc k < length fs then Suc k else 0"
    have "valid_fields fs" using fs(1) by (simp add: plain_fields_def)
    note a = advance_at_field [OF this Suc.prems(1) i'(1)]
    have "(if ?k \<le> i then i - ?k else length fs - ?k + i) < n" "?k < length fs"
      using Suc.prems(1,3) False fs(3) by (auto split: if_splits)
    then show ?thesis
      using Suc.IH [OF _ a] i'(2) by simp
  qed
qed simp

lemma index_past: "n < 65535 \<Longrightarrow> (of_nat n :: uint16) \<le> of_nat n + 1"
proof -
  assume n: "n < 65535"
  have "(of_nat n :: uint16) \<le> of_nat (Suc n)"
    unfolding word_le_nat_alt unat_of_nat using n by simp
  then show ?thesis by (simp add: add.commute)
qed

text \<open>
  The search of the decoder. It finds the field with the tag wherever the iterator
  stands, reports a tag that no field has, and never runs around the list twice.
\<close>

lemma find_field:
  assumes fs: "plain_fields fs" "p \<noteq> 0" "i < length fs"
  shows "j < length fs \<Longrightarrow> fs_tag (fs ! j) = t \<Longrightarrow>
      pb_field_iter_find env m (field_of fs dv cb p i) t = Some (True, field_of fs dv cb p j)"
    and "t \<notin> fs_tag ` set fs \<Longrightarrow>
      pb_field_iter_find env m (field_of fs dv cb p i) t = Some (False, field_of fs dv cb p i)"
proof -
  have v: "valid_fields fs" using fs(1) by (simp add: plain_fields_def)
  have srt: "\<And>k l. k < l \<Longrightarrow> l < length fs \<Longrightarrow> fs_tag (fs ! k) < fs_tag (fs ! l)"
    using fs(1) by (auto simp: plain_fields_def sorted_wrt_iff_nth_less)
  let ?it = "field_of fs dv cb p i"
  let ?it' = "if t < fs_tag (fs ! i) then ?it\<lparr>index := of_nat (length fs)\<rparr> else ?it"
  let ?k = "if t < fs_tag (fs ! i) \<or> Suc i = length fs then 0 else Suc i"
  have len: "unat (of_nat (length fs) :: uint16) = length fs" "2 * length fs < 65536"
    using valid_index(1) [OF v, of "length fs"] v by (simp_all add: valid_fields_def)
  have "(of_nat (length fs) :: uint16) \<le> of_nat (length fs) + 1"
    by (rule index_past) (use len(2) in simp)
  then have "at_field fs dv cb p ?k (advance_iterator ?it')"
    using advance_at_field [OF v fs(3) at_field_of, of dv cb p] fs(3)
    by (auto simp: at_field_def advance_iterator_def Let_def field_of_members desc_BIND words_before_def split: if_splits)
  moreover have "largest_tag (PB_BIND fs dv cb) = ucast (fs_tag (fs ! (length fs - 1)))"
    using fs(3) by (auto simp: desc_BIND last_conv_nth)
  moreover note ucast_tag [OF v, of "length fs - 1"] ucast_tag [OF v fs(3)]
  ultimately have find: "pb_field_iter_find env m ?it t =
      (if fs_tag (fs ! i) = t then Some (True, ?it)
       else if fs_tag (fs ! (length fs - 1)) < t then Some (False, ?it)
       else find_tag_loop env m t (of_nat i) (length fs + 1) ?it')"
    and at: "at_field fs dv cb p ?k (advance_iterator ?it')" and k: "?k < length fs"
    using fs(3) len by (auto simp: pb_field_iter_find_def Let_def field_of_members desc_BIND)
  {
    assume j: "j < length fs" "fs_tag (fs ! j) = t"
    have other: "k < length fs \<Longrightarrow> k \<noteq> j \<Longrightarrow> fs_tag (fs ! k) \<noteq> t" for k
      using srt [of j k] srt [of k j] j by (cases "j < k") auto
    have last: "\<not> fs_tag (fs ! (length fs - 1)) < t"
    proof (cases "j < length fs - 1")
      case True
      then have "fs_tag (fs ! j) < fs_tag (fs ! (length fs - 1))"
        by (rule srt) (use j(1) in simp)
      then show ?thesis using j(2) by simp
    next
      case False
      then have "j = length fs - 1" using j(1) by linarith
      then show ?thesis using j(2) by simp
    qed
    show "pb_field_iter_find env m ?it t = Some (True, field_of fs dv cb p j)"
    proof (cases "j = i")
      case True
      then show ?thesis using find j by simp
    next
      case False
      have "?k \<le> j \<and> (\<forall>l. ?k \<le> l \<longrightarrow> l < j \<longrightarrow> l \<noteq> i)"
      proof (cases "i < j")
        case True
        then have "?k = Suc i" using srt [of i j] j by auto
        then show ?thesis using True by auto
      next
        case no: False
        then have "?k = 0" using srt [of j i] j False fs(3) by auto
        then show ?thesis using no by auto
      qed
      then have "find_tag_loop env m t (of_nat i) (length fs + 1) ?it' = Some (True, field_of fs dv cb p j)"
        using find_loop_hit [OF fs j other k at, of "length fs + 1" env m] j(1) by simp
      then show ?thesis
        using find last other [OF fs(3)] False by (simp del: find_tag_loop.simps)
    qed
  next
    assume "t \<notin> fs_tag ` set fs"
    then have other: "\<And>k. k < length fs \<Longrightarrow> fs_tag (fs ! k) \<noteq> t"
      by (metis imageI nth_mem)
    have "find_tag_loop env m t (of_nat i) (length fs + 1) ?it' = Some (False, ?it)"
      by (rule find_loop_miss [OF fs other k at]) (use fs(3) in auto)
    then show "pb_field_iter_find env m ?it t = Some (False, ?it)"
      using find other [OF fs(3)] by (simp del: find_tag_loop.simps)
  }
qed
end
