(* ===== verification/Message_Codec.thy ===== *)
theory Message_Codec
  imports Pb_Wire Pb_Fields Pb_Messages
begin

text \<open>
  The messages of the link on the wire: what \<open>pb_encode\<close> makes of a structure in memory
  and \<open>pb_decode\<close> of the bytes, for both directions, both sizes of an enumeration and any
  placement of the structures that keeps them apart from the buffers.
\<close>

section \<open>Encoding a field\<close>

definition tag_bytes :: "nat \<Rightarrow> nat \<Rightarrow> uint8 list" where
  "tag_bytes t wt = leb128 (8 * t + wt)"

lemma encode_tag:
  assumes "unat wt < 8" "room env (length (tag_bytes (unat t) (unat wt))) s"
  shows "run_state (pb_encode_tag env wt t) s = (True, emit (tag_bytes (unat t) (unat wt)) s)"
proof -
  have "unat (push_bit 3 (ucast t) OR ucast wt :: uint64) = 8 * unat t + unat wt"
  proof -
    have p: "unat (push_bit 3 (ucast t :: uint64)) = push_bit 3 (unat t)"
    proof (subst unat_push_bit)
      have "unat t < 2305843009213693952"
        by (rule less_le_trans [OF unat_less_exp [of t]]) simp
      then show "unat (ucast t :: uint64) * 2 ^ 3 < 2 ^ LENGTH(64)"
        by simp
    qed (simp add: push_bit_eq_mult)
    have "unat (push_bit 3 (ucast t) OR ucast wt :: uint64) = unat wt OR push_bit 3 (unat t)"
      by (simp only: unsigned_or_eq p unat_ucast_simps or.commute)
    then show ?thesis
      using assms(1) by (subst (asm) nat_or_push_bit) (simp_all add: push_bit_eq_mult)
  qed
  then show ?thesis
    using assms encode_varint [of env "push_bit 3 (ucast t) OR ucast wt" s]
    by (simp add: pb_encode_tag_def tag_bytes_def)
qed

text \<open>What a field's type says about the wire type.\<close>

lemma encode_tag_for_field:
  "PB_LTYPE (ftype field) = PB_LTYPE_UVARINT \<or> PB_LTYPE (ftype field) = PB_LTYPE_BOOL \<Longrightarrow>
     room env (length (tag_bytes (unat (tag field)) 0)) s \<Longrightarrow>
     run_state (pb_encode_tag_for_field env field) s = (True, emit (tag_bytes (unat (tag field)) 0) s)"
  "PB_LTYPE (ftype field) = PB_LTYPE_FIXED32 \<Longrightarrow> room env (length (tag_bytes (unat (tag field)) 5)) s \<Longrightarrow>
     run_state (pb_encode_tag_for_field env field) s = (True, emit (tag_bytes (unat (tag field)) 5) s)"
  "PB_LTYPE (ftype field) = PB_LTYPE_SUBMESSAGE \<Longrightarrow> room env (length (tag_bytes (unat (tag field)) 2)) s \<Longrightarrow>
     run_state (pb_encode_tag_for_field env field) s = (True, emit (tag_bytes (unat (tag field)) 2) s)"
  using encode_tag [of PB_WT_VARINT env "ucast (tag field)" s] encode_tag [of PB_WT_32BIT env "ucast (tag field)" s]
    encode_tag [of PB_WT_STRING env "ucast (tag field)" s]
  by (auto simp: pb_encode_tag_for_field_def pb_wire_types pb_types)

text \<open>Memory that the next \<open>n\<close> bytes written do not touch.\<close>

definition apart :: "nat \<Rightarrow> nat \<Rightarrow> nat \<Rightarrow> pb \<Rightarrow> bool" where
  "apart n p k s \<longleftrightarrow>
     os_callback (ostr s) = Os_null \<or> os_state (ostr s) + n \<le> p \<or> p + k \<le> os_state (ostr s)"

lemma load_emit_apart:
  assumes "apart n p k s" "length bs \<le> n" "p \<le> q" "q + j \<le> p + k"
  shows "load (mem (emit bs s)) q j = load (mem s) q j"
  using assms by (auto simp: apart_def emit_def intro!: load_store_disjoint)

lemma byte_emit_apart:
  assumes "apart n p k s" "length bs \<le> n" "p \<le> q" "q < p + k"
  shows "mem (emit bs s) q = mem s q"
  using assms by (auto simp: apart_def emit_def store_def)

lemma apart_emit [simp]: "apart (length bs + n) p k s \<Longrightarrow> apart n p k (emit bs s)"
  by (auto simp: apart_def emit_def)

lemma apart_mono: "apart n p k s \<Longrightarrow> m \<le> n \<Longrightarrow> p \<le> q \<Longrightarrow> q + j \<le> p + k \<Longrightarrow> apart m q j s"
  by (auto simp: apart_def)

text \<open>A field of a union that is not the one set is left out.\<close>

lemma encode_oneof_absent:
  assumes "PB_HTYPE (ftype field) = PB_HTYPE_ONEOF" "pSize field = Size_at a"
    and "load_word 2 (mem s) a \<noteq> tag field"
  shows "run_state (encode_field env dflt enc field) s = (True, s)"
  using assms by (simp add: encode_field_def field_absent_def get_size_def)

lemma encode_oneof_present:
  assumes "PB_HTYPE (ftype field) = PB_HTYPE_ONEOF" "pSize field = Size_at a"
    and "load_word 2 (mem s) a = tag field" "pData field \<noteq> 0" "PB_ATYPE (ftype field) = PB_ATYPE_STATIC"
  shows "run_state (encode_field env dflt enc field) s = run_state (encode_basic_field env enc field) s"
  using assms by (simp add: encode_field_def field_absent_def get_size_def pb_types)

text \<open>The unsigned number in \<open>n\<close> bytes.\<close>

definition uint_at :: "mem \<Rightarrow> nat \<Rightarrow> nat \<Rightarrow> nat" where
  "uint_at m p n = unat (le_word (load m p n) :: uint64)"

lemma le_word_ucast:
  assumes "8 * length bs \<le> LENGTH('a::len)" "8 * length bs \<le> LENGTH('b::len)"
  shows "ucast (le_word bs :: 'a word) = (le_word bs :: 'b word)"
proof (rule bit_word_eqI)
  fix i assume "i < LENGTH('b)"
  moreover have "i div 8 < length bs \<Longrightarrow> i < LENGTH('a)"
    using assms(1) by linarith
  ultimately show "bit (ucast (le_word bs :: 'a word) :: 'b word) i = bit (le_word bs :: 'b word) i"
    by (auto simp: bit_ucast_iff bit_le_word)
qed

lemma encode_uvarint_field:
  assumes "PB_LTYPE (ftype field) = PB_LTYPE_UVARINT" "data_size field = 1 \<or> data_size field = 4"
    and "pData field \<noteq> 0" "uint_at (mem s) (pData field) (unat (data_size field)) = v"
    and "bs = tag_bytes (unat (tag field)) 0 @ leb128 v" "room env (length bs) s"
    and "apart (length bs) (pData field) 4 s"
  shows "run_state (encode_basic_field env enc field) s = (True, emit bs s)"
proof -
  let ?tb = "tag_bytes (unat (tag field)) 0" and ?n = "unat (data_size field)"
  have r: "room env (length ?tb) s" "room env (length (leb128 v)) (emit ?tb s)"
    using assms(5,6) by (auto elim: room_mono)
  have l: "load (mem (emit ?tb s)) (pData field) ?n = load (mem s) (pData field) ?n"
    using assms(2,5) by (intro load_emit_apart [OF assms(7)]) auto
  have "run_state (pb_enc_varint env field) (emit ?tb s) = run_state (pb_encode_varint env (le_word (load (mem s) (pData field) ?n))) (emit ?tb s)"
    using assms(1,2) l le_word_ucast [of "load (mem s) (pData field) 1", where 'a = 8 and 'b = 64]
      le_word_ucast [of "load (mem s) (pData field) 4", where 'a = 32 and 'b = 64]
    by (auto simp: pb_enc_varint_def Let_def load_word_def)
  then show ?thesis
    using assms(1,3,4,5) r encode_varint [of env "le_word (load (mem s) (pData field) ?n)" "emit ?tb s"]
    by (simp add: encode_basic_field_def Let_def encode_tag_for_field(1) pb_types uint_at_def emit_emit)
qed

lemma encode_bool_field:
  assumes "PB_LTYPE (ftype field) = PB_LTYPE_BOOL"
    and "pData field \<noteq> 0"
    and "bs = tag_bytes (unat (tag field)) 0 @ [of_bool (mem s (pData field) \<noteq> 0)]" "room env (length bs) s"
    and "apart (length bs) (pData field) 1 s"
  shows "run_state (encode_basic_field env enc field) s = (True, emit bs s)"
proof -
  let ?tb = "tag_bytes (unat (tag field)) 0"
  have r: "room env (length ?tb) s" "room env 1 (emit ?tb s)"
    using assms(3,4) by (auto elim: room_mono)
  have l: "mem (emit ?tb s) (pData field) = mem s (pData field)"
    using assms(3) by (intro byte_emit_apart [OF assms(5)]) auto
  show ?thesis
    using assms(1-3) r l encode_varint [of env 0 "emit ?tb s"] encode_varint [of env 1 "emit ?tb s"]
    by (simp add: encode_basic_field_def Let_def encode_tag_for_field(1) pb_enc_bool_def safe_read_bool_def
       emit_emit leb128_small)
qed

lemma encode_float_field:
  assumes "PB_LTYPE (ftype field) = PB_LTYPE_FIXED32" "data_size field = 4"
    and "pData field \<noteq> 0"
    and "bs = tag_bytes (unat (tag field)) 5 @ load (mem s) (pData field) 4" "room env (length bs) s"
    and "apart (length bs) (pData field) 4 s"
  shows "run_state (encode_basic_field env enc field) s = (True, emit bs s)"
proof -
  let ?tb = "tag_bytes (unat (tag field)) 5"
  have r: "room env (length ?tb) s" "room env 4 (emit ?tb s)"
    using assms(4,5) by (auto elim: room_mono)
  have l: "load (mem (emit ?tb s)) (pData field) 4 = load (mem s) (pData field) 4"
    using assms(4) by (intro load_emit_apart [OF assms(6)]) auto
  show ?thesis
    using assms(1-4) r l encode_fixed(1) [of env "emit ?tb s" "pData field"]
    by (simp add: encode_basic_field_def Let_def encode_tag_for_field(2) pb_enc_fixed_def pb_types emit_emit)
qed

text \<open>
  A submessage is encoded twice, once to measure it. \<open>bs\<close> is what its encoder emits on
  either stream.
\<close>

lemma encode_submessage_field:
  assumes "PB_LTYPE (ftype field) = PB_LTYPE_SUBMESSAGE" "submsg_desc field = Some d" "pData field \<noteq> 0"
    and enc: "\<And>s'. load (mem s') (pData field) k = load (mem s) (pData field) k \<Longrightarrow>
       room env (length bs) s' \<Longrightarrow> apart (length bs) (pData field) k s' \<Longrightarrow>
       run_state (enc d (pData field)) s' = (True, emit bs s')"
    and "cs = tag_bytes (unat (tag field)) 2 @ leb128 (length bs) @ bs" "room env (length cs) s"
    and "apart (length cs) (pData field) k s" "os_callback (ostr s) = Os_buf_write" "os_errmsg (ostr s) = None"
    and "length bs < 128"
  shows "run_state (encode_basic_field env enc field) s = (True, emit cs s)"
proof -
  let ?tb = "tag_bytes (unat (tag field)) 2" and ?lb = "leb128 (length bs)" and ?p = "pData field"
  let ?s1 = "emit ?tb s" and ?s2 = "emit (?tb @ ?lb) s"
  have u: "unat (of_nat (length bs) :: uint64) = length bs"
    using assms(10) by (simp add: unat_of_nat)
  have r: "room env (length ?tb) s" "room env (length ?lb) ?s1" "room env (length bs) ?s2"
    using assms(5,6) by (auto elim: room_mono)
  have a: "apart (length ?tb + length ?lb + length bs) ?p k s"
    using assms(5,7) by (simp add: add.assoc)
  have sizing: "run_state (enc d ?p) (?s1\<lparr>ostr := PB_OSTREAM_SIZING\<rparr>) = (True, emit bs (?s1\<lparr>ostr := PB_OSTREAM_SIZING\<rparr>))"
    by (rule enc) (use r load_emit_apart [OF a, of ?tb ?p k] in
        \<open>auto simp: room_def apart_def PB_OSTREAM_SIZING_def\<close>)
  have l2: "load (mem ?s2) ?p k = load (mem s) ?p k"
    by (rule load_emit_apart [OF a]) simp_all
  let ?sub = "\<lparr>os_callback = Os_buf_write, os_state = os_state (ostr ?s2), max_size = length bs,
     bytes_written = 0, os_errmsg = None\<rparr>"
  have second: "run_state (enc d ?p) (?s2\<lparr>ostr := ?sub\<rparr>) = (True, emit bs (?s2\<lparr>ostr := ?sub\<rparr>))"
    by (rule enc) (use r l2 a assms(8) in \<open>auto simp: room_def apart_def emit_def\<close>)
  have len: "run_state (pb_encode_varint env (word_of_nat (length bs))) ?s1 = (True, ?s2)"
    using encode_varint [of env "word_of_nat (length bs)" ?s1] r(2) u by (simp add: emit_emit)
  have fits: "\<not> max_size (ostr ?s2) < wrap env (bytes_written (ostr ?s2) + length bs)" 
     "wrap env (bytes_written (ostr ?s2) + length bs) = bytes_written (ostr ?s2) + length bs"
    using r(3) assms(8) by (simp_all add: room_def wrap_def)
  have restored: "(emit bs (?s1\<lparr>ostr := PB_OSTREAM_SIZING\<rparr>))\<lparr>ostr := ostr ?s1\<rparr> = ?s1"
    by (simp add: emit_def PB_OSTREAM_SIZING_def)
  have cs: "emit cs s = emit bs ?s2"
    using assms(5) by (simp add: emit_emit)
  show ?thesis
    using assms(1-3,8,9) r(1) sizing second len fits restored
    by (simp add: encode_basic_field_def Let_def encode_tag_for_field(3) pb_types pb_enc_submessage_def
       pb_encode_submessage_def with_ostream_def PB_OSTREAM_SIZING_def cs) (simp add: emit_def)
qed

section \<open>Encoding a message\<close>

text \<open>The loop over all fields, when the encoder of the \<open>i\<close>th one leads from state \<open>st i\<close> to the next.\<close>

lemma for_fields_run:
  assumes "valid_fields fs" "p \<noteq> 0" "i < length fs"
    and "\<And>k. i \<le> k \<Longrightarrow> k < length fs \<Longrightarrow> run_state (f (field_of fs dv cb p k)) (st k) = (True, st (Suc k))"
    and "length fs \<le> i + n"
  shows "run_state (for_fields env n f (field_of fs dv cb p i)) (st i) = (True, st (length fs))"
  using assms(3-)
proof (induction n arbitrary: i)
  case (Suc n)
  note next' = next_field [OF assms(1) Suc.prems(1) assms(2), of env _ dv cb]
  show ?case
  proof (cases "Suc i < length fs")
    case True
    then have "run_state (for_fields env n f (field_of fs dv cb p (Suc i))) (st (Suc i)) = (True, st (length fs))"
      using Suc.prems by (intro Suc.IH) simp_all
    then show ?thesis
      using Suc.prems(2) [of i] Suc.prems(1) True by (simp add: next')
  next
    case False
    then have "st (length fs) = st (Suc i)"
      using Suc.prems(1) by (metis Suc_lessI)
    then show ?thesis
      using Suc.prems(2) [of i] Suc.prems(1) False by (simp add: next')
  qed
qed simp

text \<open>A message that is one union of fields.\<close>

definition union_fields :: "field_spec list \<Rightarrow> bool" where
  "union_fields fs \<longleftrightarrow>
     plain_fields fs \<and>
     list_all (\<lambda>s. fs_htype s = H_ONEOF \<and> fs_atype s = A_STATIC \<and> fs_size_offset s \<noteq> 0 \<and>
       fs_size_offset s = fs_data_offset s) fs"

lemma union_field_of:
  assumes "union_fields fs" "i < length fs"
  shows "PB_HTYPE (ftype (field_of fs dv cb p i)) = PB_HTYPE_ONEOF"
    "PB_ATYPE (ftype (field_of fs dv cb p i)) = PB_ATYPE_STATIC"
    "PB_LTYPE (ftype (field_of fs dv cb p i)) = PB_LTYPE_MAP (fs_ltype (fs ! i))"
    "PB_LTYPE (ftype (field_of fs dv cb p i)) \<noteq> PB_LTYPE_EXTENSION"
    "pSize (field_of fs dv cb p i) = Size_at p"
    "pData (field_of fs dv cb p i) = p + unat (fs_data_offset (fs ! i))"
    "tag (field_of fs dv cb p i) = ucast (fs_tag (fs ! i))"
    "data_size (field_of fs dv cb p i) = ucast (fs_data_size (fs ! i))"
    "submsg_desc (field_of fs dv cb p i) = fs_submsg (fs ! i)"
  using assms plain_ltype [of fs i]
  by (auto simp: union_fields_def list_all_length field_of_def Let_def type_code_parts htype_code_def
      atype_code_def)

lemma union_tags:
  assumes "union_fields fs" "i < length fs" "j < length fs"
  shows "(ucast (fs_tag (fs ! i)) :: uint16) = ucast (fs_tag (fs ! j)) \<longleftrightarrow> i = j"
proof
  assume "(ucast (fs_tag (fs ! i)) :: uint16) = ucast (fs_tag (fs ! j))"
  then have "(ucast (ucast (fs_tag (fs ! i)) :: uint16) :: uint32) = ucast (ucast (fs_tag (fs ! j)) :: uint16)"
    by (rule arg_cong)
  moreover have "valid_fields fs"
    using assms(1) by (simp add: union_fields_def plain_fields_def)
  ultimately have e: "fs_tag (fs ! i) = fs_tag (fs ! j)"
    by (simp only: ucast_tag assms(2,3))
  have "distinct (map fs_tag fs)"
    using assms(1) by (simp add: union_fields_def plain_fields_def strict_sorted_iff)
  then show "i = j"
    using e assms(2,3) nth_eq_iff_index_eq [of "map fs_tag fs" i j] by simp
qed simp

lemma encode_union:
  assumes fs: "union_fields fs" "p \<noteq> 0" "j < length fs"
    and which: "load_word 2 (mem s) p = (ucast (fs_tag (fs ! j)) :: uint16)"
    and basic: "run_state (encode_basic_field env (pb_encode env n) (field_of fs dv cb p j)) s = (True, emit bs s)"
    and apart: "apart (length bs) p 2 s"
  shows "run_state (pb_encode env (Suc n) (PB_BIND fs dv cb) p) s = (True, emit bs s)"
proof -
  define st where "st i = (if i \<le> j then s else emit bs s)" for i
  have v: "valid_fields fs" using fs(1) by (simp add: union_fields_def plain_fields_def)
  let ?f = "\<lambda>it. if PB_LTYPE (ftype it) = PB_LTYPE_EXTENSION
             then encode_extension_field env n (pb_check_proto3_default_value env n) (pb_encode env n) it
             else encode_field env (pb_check_proto3_default_value env n) (pb_encode env n) it"
  have "load (mem (emit bs s)) p 2 = load (mem s) p 2"
    by (rule load_emit_apart [OF apart]) simp_all
  then have w: "load_word 2 (mem (st i)) p = (ucast (fs_tag (fs ! j)) :: uint16)" for i
    using which by (simp add: st_def load_word_def)
  have step: "run_state (?f (field_of fs dv cb p k)) (st k) = (True, st (Suc k))" if k: "k < length fs" for k
  proof (cases "k = j")
    case True
    then show ?thesis
      using union_field_of [OF fs(1) k, of dv cb p] fs(2) w [of k] basic
      by (simp add: encode_oneof_present st_def)
  next
    case False
    then have "st (Suc k) = st k" by (simp add: st_def)
    then show ?thesis
      using union_field_of [OF fs(1) k, of dv cb p] w [of k] union_tags [OF fs(1) fs(3) k] False
      by (simp add: encode_oneof_absent)
  qed
  have "run_state (for_fields env (length fs) ?f (field_of fs dv cb p 0)) (st 0) = (True, st (length fs))"
    by (rule for_fields_run [OF v fs(2)]) (use fs(3) step in auto)
  moreover have "unat (field_count (PB_BIND fs dv cb)) = length fs"
    using valid_index(1) [OF v, of "length fs"] by (simp add: desc_BIND)
  moreover have "fs \<noteq> []" using fs(3) by auto
  ultimately show ?thesis
    using fs(3) by (simp add: pb_encode_body_def pb_field_iter_begin_const_def begin_field [OF v _ fs(2)] st_def)
qed

section \<open>The message types\<close>

text \<open>The sizes a compiler gives to an enumeration.\<close>

definition enum_size :: "uint32 \<Rightarrow> bool" where
  "enum_size eb \<longleftrightarrow> eb = 1 \<or> eb = 4"

lemmas field_list_defs =
  LowToHigh_FIELDLIST_def HighToLow_FIELDLIST_def SetPWM_FIELDLIST_def oneof_field_def singular_field_def
  LowToHigh_union_def

lemmas valid_defs =
  plain_fields_def valid_fields_def PB_GEN_FIELD_INFO_ASSERT_AUTO_def PB_FIELDINFO_WIDTH_AUTO_def PB_FITS_def

lemma union_LowToHigh: "enum_size eb \<Longrightarrow> union_fields (LowToHigh_FIELDLIST eb)"
  by (auto simp: enum_size_def union_fields_def valid_defs field_list_defs)

lemma union_HighToLow: "union_fields (HighToLow_FIELDLIST eb)"
  by (simp add: union_fields_def valid_defs field_list_defs)

lemma plain_SetPWM: "enum_size eb \<Longrightarrow> plain_fields (SetPWM_FIELDLIST eb)"
  by (auto simp: enum_size_def valid_defs field_list_defs)

lemma tag_bytes_small: "t < 16 \<Longrightarrow> wt < 8 \<Longrightarrow> tag_bytes t wt = [of_nat (8 * t + wt)]"
  by (simp add: tag_bytes_def leb128_small)

text \<open>Where the union of \<open>LowToHigh\<close> lies, and the bytes the structure takes.\<close>

definition l2h_union_at :: "uint32 \<Rightarrow> nat \<Rightarrow> nat" where
  "l2h_union_at eb p = p + unat (LowToHigh_union eb)"

definition LowToHigh_bytes :: nat where "LowToHigh_bytes = 8"
definition HighToLow_bytes :: nat where "HighToLow_bytes = 12"

lemma LowToHigh_fields:
  fixes p :: nat
  assumes "enum_size eb"
  defines "fl \<equiv> field_of (LowToHigh_FIELDLIST eb) 0 No_callback p"
  shows "PB_LTYPE (ftype (fl 0)) = PB_LTYPE_UVARINT" "PB_LTYPE (ftype (fl 1)) = PB_LTYPE_SUBMESSAGE"
    and "tag (fl 0) = 1" "tag (fl 1) = 2" "data_size (fl 0) = ucast eb" "data_size (fl 1) = 1"
    and "pData (fl 0) = l2h_union_at eb p" "pData (fl 1) = l2h_union_at eb p"
    and "submsg_desc (fl 0) = None" "submsg_desc (fl 1) = Some McuHeartbeat_msg"
  using union_field_of [OF union_LowToHigh [OF assms(1)], of 0 0 No_callback p]
    union_field_of [OF union_LowToHigh [OF assms(1)], of 1 0 No_callback p]
  unfolding fl_def by (simp_all add: field_list_defs l2h_union_at_def PB_LTYPE_MAP_def)

lemma l2h_union_range: "enum_size eb \<Longrightarrow> p + 2 \<le> l2h_union_at eb p \<and> l2h_union_at eb p + 4 \<le> p + LowToHigh_bytes"
  by (auto simp: enum_size_def l2h_union_at_def LowToHigh_union_def LowToHigh_bytes_def)

lemma enum_size_cases: "enum_size eb \<Longrightarrow> (ucast eb :: uint16) = 1 \<or> (ucast eb :: uint16) = 4" "enum_size eb \<Longrightarrow> unat (ucast eb :: uint16) = unat eb"
  by (auto simp: enum_size_def)

text \<open>The firmware's message: an event is two bytes on the wire.\<close>

lemma encode_LowToHigh_event:
  assumes eb: "enum_size eb" and p: "p \<noteq> 0"
    and which: "load_word 2 (mem s) p = LowToHigh_event_tag"
    and val: "uint_at (mem s) (l2h_union_at eb p) (unat eb) = v" "v < 128"
    and room: "room env 2 s" and apart: "apart 2 p LowToHigh_bytes s"
  shows "run_state (pb_encode env (Suc n) (LowToHigh_msg eb) p) s = (True, emit [0x08, of_nat v] s)"
proof -
  let ?bs = "[0x08, of_nat v] :: uint8 list"
  note f = LowToHigh_fields [OF eb, of p] and r = l2h_union_range [OF eb, of p]
  have len: "length ?bs = 2" "0 < length (LowToHigh_FIELDLIST eb)"
    by (simp_all add: LowToHigh_FIELDLIST_def)
  have basic: "run_state (encode_basic_field env (pb_encode env n) (field_of (LowToHigh_FIELDLIST eb) 0 No_callback p 0)) s =
     (True, emit ?bs s)"
  proof (rule encode_uvarint_field [OF f(1), where v = v])
    show "apart (length ?bs) (pData (field_of (LowToHigh_FIELDLIST eb) 0 No_callback p 0)) 4 s"
      unfolding len f by (rule apart_mono [OF apart]) (use r in linarith)+
    show "room env (length ?bs) s"
      unfolding len by (rule room)
  qed (use f r val enum_size_cases [OF eb] in \<open>simp_all add: tag_bytes_small leb128_small\<close>)
  show ?thesis
    unfolding LowToHigh_msg_def
  proof (rule encode_union [OF union_LowToHigh [OF eb] p len(2) _ basic])
    show "load_word 2 (mem s) p = (ucast (fs_tag (LowToHigh_FIELDLIST eb ! 0)) :: uint16)"
      using which by (simp add: field_list_defs message_tags)
    show "apart (length ?bs) p 2 s"
      unfolding len by (rule apart_mono [OF apart]) (simp_all add: LowToHigh_bytes_def)
  qed
qed

lemma encode_empty:
  assumes "p \<noteq> 0"
  shows "run_state (pb_encode env (Suc n) (PB_BIND [] 0 cb) p) s = (True, s)"
  by (simp add: pb_encode_body_def pb_field_iter_begin_const_def pb_field_iter_begin_def
      load_descriptor_values_def desc_BIND iter_zero_def)

lemma encode_LowToHigh_heartbeat:
  assumes eb: "enum_size eb" and p: "p \<noteq> 0"
    and which: "load_word 2 (mem s) p = LowToHigh_heartbeat_tag"
    and room: "room env 2 s" and apart: "apart 2 p LowToHigh_bytes s"
    and stream: "os_callback (ostr s) = Os_buf_write" "os_errmsg (ostr s) = None"
  shows "run_state (pb_encode env (Suc (Suc n)) (LowToHigh_msg eb) p) s = (True, emit [0x12, 0x00] s)"
proof -
  let ?bs = "[0x12, 0x00] :: uint8 list"
  note f = LowToHigh_fields [OF eb, of p] and r = l2h_union_range [OF eb, of p]
  have len: "length ?bs = 2" "1 < length (LowToHigh_FIELDLIST eb)"
    by (simp_all add: LowToHigh_FIELDLIST_def)
  have basic: "run_state (encode_basic_field env (pb_encode env (Suc n)) (field_of (LowToHigh_FIELDLIST eb) 0 No_callback p 1)) s =
     (True, emit ?bs s)"
  proof (rule encode_submessage_field [OF f(2,10), where k = 0 and bs = "[]"])
    show "apart (length ?bs) (pData (field_of (LowToHigh_FIELDLIST eb) 0 No_callback p 1)) 0 s"
      unfolding len f by (rule apart_mono [OF apart]) (use r in linarith)+
    show "run_state (pb_encode env (Suc n) McuHeartbeat_msg (pData (field_of (LowToHigh_FIELDLIST eb) 0 No_callback p 1))) s' =
      (True, emit [] s')" for s'
      using encode_empty [of "l2h_union_at eb p" env n No_callback s'] r p f by (simp add: McuHeartbeat_msg_def)
    show "room env (length ?bs) s"
      unfolding len by (rule room)
  qed (use f r stream in \<open>simp_all add: tag_bytes_small leb128_small\<close>)
  show ?thesis
    unfolding LowToHigh_msg_def
  proof (rule encode_union [OF union_LowToHigh [OF eb] p len(2) _ basic])
    show "load_word 2 (mem s) p = (ucast (fs_tag (LowToHigh_FIELDLIST eb ! 1)) :: uint16)"
      using which by (simp add: field_list_defs message_tags)
    show "apart (length ?bs) p 2 s"
      unfolding len by (rule apart_mono [OF apart]) (simp_all add: LowToHigh_bytes_def)
  qed
qed

section \<open>Decoding a message\<close>

lemma decode_tag:
  assumes "stream_has (tag_bytes t wt) s" "t < 16" "wt < 8"
  shows "run_state pb_decode_tag s = ((Some (of_nat wt, of_nat t), False), advance 1 s)"
proof -
  let ?v = "of_nat (8 * t + wt) :: uint32"
  have v: "unat ?v = 8 * t + wt"
    using assms(2,3) by (simp only: unat_of_nat) simp
  have "(ucast (?v AND 7) :: uint8) = of_nat wt"
  proof -
    have "unat (?v AND 7) = wt"
      using assms(3) v by (simp add: and_low_mask unat_take_bit)
    then show ?thesis
      by (metis of_nat_unat)
  qed
  moreover have "drop_bit 3 ?v = of_nat t"
    using assms(3) v by (intro word_unat_eq_iff [THEN iffD2]) (use assms(2) in \<open>simp add: unat_drop_bit unat_of_nat\<close>)
  moreover have "length (leb128 (8 * t + wt)) = 1"
    using assms(2,3) by (simp add: leb128_small)
  ultimately show ?thesis
    using decode_varint32_eof_leb [of "8 * t + wt" s] assms by (simp add: pb_decode_tag_def tag_bytes_def)
qed

text \<open>Initialising a union clears its selector, and leaves the iterator where it was.\<close>

lemma defaults_union_loop:
  assumes "union_fields fs" "p \<noteq> 0" "i < length fs" "length fs \<le> i + k"
  shows "run_state (defaults_loop env dec dfl n k dst wt 0 (field_of fs dv cb p i)) s =
     (Some (field_of fs dv cb p 0), s\<lparr>mem := store p [0, 0] (mem s)\<rparr>)"
  using assms(3,4)
proof (induction k arbitrary: i s)
  case (Suc k)
  have v: "valid_fields fs" using assms(1) by (simp add: union_fields_def plain_fields_def)
  note f = union_field_of [OF assms(1) Suc.prems(1), of dv cb p]
  note next' = next_field [OF v Suc.prems(1) assms(2), of env _ dv cb]
  have "PB_LTYPE_MAP (fs_ltype (fs ! i)) \<noteq> 10"
    using f(3,4) by (simp add: pb_types)
  then have dflt: "run_state (pb_field_set_to_default env dfl n (field_of fs dv cb p i)) s =
      (True, s\<lparr>mem := store p [0, 0] (mem s)\<rparr>)"
    by (simp add: pb_field_set_to_default_def Let_def f put_size_def numeral_2_eq_2 pb_types)
  have twice: "store p [0, 0] (store p [0, 0] m) = store p [0, 0] m" for m
    by (rule ext) (simp add: store_def)
  show ?case
    using Suc.IH [of "Suc i" "s\<lparr>mem := store p [0, 0] (mem s)\<rparr>"] Suc.prems
    by (cases "Suc i < length fs") (simp_all add: dflt next' twice)
qed simp

lemma union_required: "union_fields fs \<Longrightarrow> required_field_count (PB_BIND fs dv cb) = 0"
  by (auto simp: PB_BIND_def union_fields_def list_all_iff htype_code_def pb_types filter_empty_conv)

lemma inner_start_members:
  "it (inner_start iter) = iter" "fixed_count_field (inner_start iter) = PB_SIZE_MAX"
  by (simp_all add: inner_start_def)

text \<open>One known field, which is all the stream holds.\<close>

lemma inner_loop_union:
  assumes fs: "union_fields fs" "p \<noteq> 0" "j < length fs"
    and t: "fs_tag (fs ! j) = of_nat t" "0 < t" "t < 16" "wt < 8" "stream_has (tag_bytes t wt) s"
    and field: "run_state (decode_field env dec dfl (of_nat wt) (field_of fs dv cb p j)) (advance 1 s) = (True, s2)"
    and spent: "bytes_left (istr s2) = 0"
  shows "run_state (inner_loop env dec dfl flags n (Suc (Suc k)) (inner_start (field_of fs dv cb p 0))) s =
    (Some (inner_start (field_of fs dv cb p j)), s2)"
proof -
  have "tag_bytes t wt = [of_nat (8 * t + wt)]"
    using t by (simp add: tag_bytes_small)
  then have "bytes_left (istr s) \<noteq> 0"
    using t(5) by (auto simp: stream_has_Cons)
  moreover have "(of_nat t :: uint32) \<noteq> 0"
    using t(2,3) by (simp flip: unat_eq_zero add: unat_of_nat)
  moreover have "pb_field_iter_find env (mem s) (field_of fs dv cb p 0) (of_nat t) = Some (True, field_of fs dv cb p j)"
    using fs t(1) by (intro find_field) (auto simp: union_fields_def)
  ultimately show ?thesis
    using decode_tag [OF t(5,3,4)] field spent union_field_of [OF fs(1,3), of dv cb p]
    by (simp add: known_field_def Let_def inner_start_def pb_types)
qed

lemma decode_union:
  assumes fs: "union_fields fs" "p \<noteq> 0" "j < length fs"
    and t: "fs_tag (fs ! j) = of_nat t" "0 < t" "t < 16" "wt < 8"
    and stream: "stream_has (tag_bytes t wt) s" "is_state (istr s) + bytes_left (istr s) \<le> p \<or> p + 2 \<le> is_state (istr s)"
    and field: "run_state (decode_field env (pb_decode_inner env (Suc n)) (pb_message_set_to_defaults env (Suc n)) (of_nat wt)
        (field_of fs 0 No_callback p j)) ((advance 1 s)\<lparr>fixed_count_size := 0, mem := store p [0, 0] (mem s)\<rparr>) = (True, s2)"
    and spent: "bytes_left (istr s2) = 0"
  shows "run_state (pb_decode_inner env (Suc (Suc n)) (PB_BIND fs 0 No_callback) p 0) s =
    (True, s2\<lparr>fixed_count_size := fixed_count_size s\<rparr>)"
proof -
  let ?fl = "field_of fs 0 No_callback p"
  let ?s0 = "s\<lparr>fixed_count_size := 0, mem := store p [0, 0] (mem s)\<rparr>"
  have v: "valid_fields fs" "fs \<noteq> []" "0 < length fs"
    using fs by (auto simp: union_fields_def plain_fields_def)
  have "load (mem ?s0) (is_state (istr s)) n = load (mem s) (is_state (istr s)) n" if "n \<le> bytes_left (istr s)" for n
    using that stream(2) by (auto intro!: load_store_disjoint)
  then have stream0: "stream_has (tag_bytes t wt) ?s0"
    using stream(1) by (simp add: stream_has_def)
  have adv: "advance 1 ?s0 = (advance 1 s)\<lparr>fixed_count_size := 0, mem := store p [0, 0] (mem s)\<rparr>"
    by (simp add: advance_def)
  obtain k where k: "bytes_left (istr s) = Suc k"
    using stream(1) t by (cases "bytes_left (istr s)") (auto simp: stream_has_def tag_bytes_small)
  have dflt: "run_state (pb_message_set_to_defaults env (Suc n) (?fl 0)) s' = (Some (?fl 0), s'\<lparr>mem := store p [0, 0] (mem s')\<rparr>)" for s'
  proof -
    have "unat (field_count (PB_BIND fs 0 No_callback)) = length fs" "default_value (PB_BIND fs 0 No_callback) = 0"
      using valid_index(1) [OF v(1), of "length fs"] by (simp_all add: PB_BIND_def)
    then show ?thesis
      using defaults_union_loop [OF fs(1,2) v(3), of "length fs"]
      by (simp add: set_to_defaults_body_def Let_def field_of_members)
  qed
  have loop: "run_state (inner_loop env (pb_decode_inner env (Suc n)) (pb_message_set_to_defaults env (Suc n)) 0 (Suc n)
      (Suc (Suc k)) (inner_start (?fl 0))) ?s0 = (Some (inner_start (?fl j)), s2)"
    by (rule inner_loop_union [OF fs t stream0 _ spent]) (use field in \<open>simp only: adv\<close>)
  show ?thesis
    unfolding pb_decode_inner.simps(2) [of env "Suc n"]
    using loop k dflt
    by (simp add: decode_inner_body_def with_fixed_count_def begin_field [OF v(1,2) fs(2)] inner_start_members
       required_seen_def union_required [OF fs(1)] Let_def field_of_members
       del: pb_decode_inner.simps pb_message_set_to_defaults.simps inner_loop.simps)
qed

text \<open>Memory that the input stream does not come from.\<close>

definition unread :: "nat \<Rightarrow> nat \<Rightarrow> pb \<Rightarrow> bool" where
  "unread p k s \<longleftrightarrow> is_state (istr s) + bytes_left (istr s) \<le> p \<or> p + k \<le> is_state (istr s)"

lemma unread_mono: "unread p k s \<Longrightarrow> p \<le> q \<Longrightarrow> q + j \<le> p + k \<Longrightarrow> unread q j s"
  by (auto simp: unread_def)

lemma unread_advance: "unread p k s \<Longrightarrow> n \<le> bytes_left (istr s) \<Longrightarrow> unread p k (advance n s)"
  by (auto simp: unread_def advance_def)

lemma stream_store:
  assumes "unread a (length cs) s"
  shows "stream_has bs (s\<lparr>mem := store a cs (mem s)\<rparr>) = stream_has bs s"
proof -
  have "load (store a cs (mem s)) (is_state (istr s)) n = load (mem s) (is_state (istr s)) n"
    if "n \<le> bytes_left (istr s)" for n
    using assms that by (auto simp: unread_def intro!: load_store_disjoint)
  then show ?thesis by (auto simp: stream_has_def)
qed

text \<open>The selector of the union, set by the decoder.\<close>

definition select :: "nat \<Rightarrow> uint16 \<Rightarrow> mem \<Rightarrow> mem" where
  "select a t m = store a (le_bytes 2 t) m"

lemma decode_oneof_field:
  assumes "PB_HTYPE (ftype field) = PB_HTYPE_ONEOF" "PB_ATYPE (ftype field) = PB_ATYPE_STATIC"
    and "\<not> PB_LTYPE_IS_SUBMSG (ftype field)" "pSize field = Size_at a"
  shows "run_state (decode_field env dec dfl wt field) s =
     run_state (decode_basic_field env dec wt field) (s\<lparr>mem := select a (tag field) (mem s)\<rparr>)"
  using assms
  by (simp add: decode_field_def decode_static_field_def Let_def get_size_def put_size_def pb_types select_def)

lemma decode_uvarint_field:
  assumes "PB_LTYPE (ftype field) = PB_LTYPE_UVARINT" "data_size field = 1 \<or> data_size field = 4"
    and "stream_has (leb128 v) s" "v < 2 ^ (8 * unat (data_size field))"
  shows "run_state (decode_basic_field env dec PB_WT_VARINT field) s =
     (True, (advance (length (leb128 v)) s)
       \<lparr>mem := store (pData field) (le_bytes (unat (data_size field)) (of_nat v :: uint64)) (mem s)\<rparr>)"
proof -
  have v: "v < 2 ^ 64" using assms(2,4) by auto
  have "unat (of_nat v :: uint64) = v"
    using v by (simp add: unat_of_nat)
  then have c: "v < 2 ^ 32 \<Longrightarrow> ucast (ucast (of_nat v :: uint64) :: uint32) = (of_nat v :: uint64)"
     "v < 2 ^ 8 \<Longrightarrow> ucast (ucast (of_nat v :: uint64) :: uint8) = (of_nat v :: uint64)"
    by (simp_all add: word_unat_eq_iff unsigned_ucast_eq unat_take_bit)
  show ?thesis
    using assms(1,2,4) decode_varint_leb [OF assms(3) v] c
    by (auto simp: decode_basic_field_def Let_def pb_types wrong_wire_type_def pb_wire_types pb_dec_varint_def
       store_clamped_def)
qed

lemma decode_bool_field:
  assumes "PB_LTYPE (ftype field) = PB_LTYPE_BOOL" "stream_has [of_bool b] s"
  shows "run_state (decode_basic_field env dec PB_WT_VARINT field) s =
     (True, (advance 1 s)\<lparr>mem := store (pData field) [of_bool b] (mem s)\<rparr>)"
proof -
  have "stream_has (leb128 (of_bool b)) s"
    using assms(2) by (simp add: leb128_small)
  then show ?thesis
    using assms(1) decode_varint32_leb [of "of_bool b" s]
    by (simp add: decode_basic_field_def Let_def pb_types wrong_wire_type_def pb_wire_types pb_dec_bool_def
       pb_decode_bool_def leb128_small)
qed

lemma decode_float_field:
  assumes "PB_LTYPE (ftype field) = PB_LTYPE_FIXED32" "stream_has bs s" "length bs = 4"
  shows "run_state (decode_basic_field env dec PB_WT_32BIT field) s =
     (True, (advance 4 s)\<lparr>mem := store (pData field) bs (mem s)\<rparr>)"
  using assms(1) decode_fixed(1) [OF assms(2,3)]
  by (simp add: decode_basic_field_def Let_def pb_types wrong_wire_type_def pb_wire_types)

lemma dec_submessage_run:
  assumes "PB_LTYPE (ftype field) = PB_LTYPE_SUBMESSAGE" "submsg_desc field = Some d"
    and "PB_HTYPE (ftype field) \<noteq> PB_HTYPE_REPEATED" "PB_ATYPE (ftype field) = PB_ATYPE_STATIC"
    and "stream_has (leb128 (length bs) @ bs) s" "length bs < 128"
    and "bytes_left (istr s) = length (leb128 (length bs) @ bs)"
    and sub: "run_state (dec d (pData field) PB_DECODE_NOINIT) (advance 1 s) = (True, s2)"
    and spent: "bytes_left (istr s2) = 0"
  shows "run_state (pb_dec_submessage env dec field) s = (True, s2)"
proof -
  have l: "leb128 (length bs) = [of_nat (length bs)]"
    using assms(6) by (simp add: leb128_small)
  have u: "unat (of_nat (length bs) :: uint32) = length bs"
    using assms(6) by (simp add: unat_of_nat)
  have left: "bytes_left (istr (advance 1 s)) = length bs"
    using assms(7) by (simp add: l)
  have "run_state pb_decode_varint32 s = (Some (of_nat (length bs)), advance 1 s)"
    using decode_varint32_leb [of "length bs" s] assms(5,6) by (simp only: stream_has_append) (simp add: l)
  then have make: "run_state pb_make_string_substream s =
     (Some (istr (advance 1 s)), (advance 1 s)\<lparr>istr := (istr (advance 1 s))\<lparr>bytes_left := 0\<rparr>\<rparr>)"
    using left u by (simp add: pb_make_string_substream_def take_left_def)
  have close: "run_state (pb_close_string_substream (istr s2)) (s2\<lparr>istr := i\<lparr>bytes_left := 0\<rparr>\<rparr>) = (True, s2)" for i
    using spent by (cases s2; cases "istr s2") (simp add: pb_close_string_substream_def)
  show ?thesis
    using assms(1-4) make sub close [of "istr (advance 1 s)"]
    by (simp add: pb_dec_submessage_def submsg_callback_def with_istream_def pb_types)
qed

text \<open>A submessage without fields that need more than zeroes, which fills its parent.\<close>

lemma decode_oneof_submessage:
  assumes "PB_HTYPE (ftype field) = PB_HTYPE_ONEOF" "PB_ATYPE (ftype field) = PB_ATYPE_STATIC"
    and "PB_LTYPE (ftype field) = PB_LTYPE_SUBMESSAGE" "pSize field = Size_at a" "submsg_desc field = Some d"
    and "\<not> has_defaults d" "load_word 2 (mem s) a \<noteq> tag field"
    and "stream_has (leb128 (length bs) @ bs) s" "length bs < 128"
    and "bytes_left (istr s) = length (leb128 (length bs) @ bs)"
    and "unread a 2 s" "unread (pData field) (unat (data_size field)) s"
    and "mem0 = select a (tag field) (store (pData field) (replicate (unat (data_size field)) 0) (mem s))"
    and sub: "run_state (dec d (pData field) PB_DECODE_NOINIT) ((advance 1 s)\<lparr>mem := mem0\<rparr>) = (True, s2)"
    and spent: "bytes_left (istr s2) = 0"
  shows "run_state (decode_field env dec dfl PB_WT_STRING field) s = (True, s2)"
proof -
  let ?n = "unat (data_size field)" and ?s2 = "s\<lparr>mem := mem0\<rparr>"
  let ?s1 = "s\<lparr>mem := store (pData field) (replicate ?n 0) (mem s)\<rparr>"
  have st: "stream_has (leb128 (length bs) @ bs) ?s2"
    using assms(8,11,12) stream_store [of "pData field" "replicate ?n 0" s]
      stream_store [of a "le_bytes 2 (tag field)" ?s1] by (simp add: assms(13) select_def unread_def)
  have a: "advance 1 ?s2 = (advance 1 s)\<lparr>mem := mem0\<rparr>"
    by (simp add: advance_def)
  have "run_state (pb_dec_submessage env dec field) ?s2 = (True, s2)"
    by (rule dec_submessage_run [OF assms(3,5) _ assms(2) st assms(9) _ _ spent])
      (use assms(1,10) sub in \<open>simp_all only: a\<close>, simp_all add: pb_types)
  then show ?thesis
    using assms(1-7,13)
    by (simp add: decode_field_def decode_static_field_def Let_def get_size_def put_size_def pb_types PB_LTYPE_IS_SUBMSG_def
       decode_basic_field_def wrong_wire_type_def pb_wire_types select_def)
qed

section \<open>The loop of the decoder, field by field\<close>

lemma inner_loop_end:
  "bytes_left (istr s) = 0 \<Longrightarrow> 0 < k \<Longrightarrow>
     run_state (inner_loop env dec dfl flags n k l) s = (Some l, s)"
  by (cases k) simp_all

lemma inner_loop_field:
  assumes fs: "plain_fields fs" "p \<noteq> 0" "i < length fs" "j < length fs"
    and kind: "fs_htype (fs ! j) = H_ONEOF \<or> fs_htype (fs ! j) = H_SINGULAR"
    and t: "fs_tag (fs ! j) = of_nat t" "0 < t" "t < 16" "wt < 8" "stream_has (tag_bytes t wt) s"
    and field: "run_state (decode_field env dec dfl (of_nat wt) (field_of fs dv cb p j)) (advance 1 s) = (True, s2)"
  shows "run_state (inner_loop env dec dfl flags n (Suc k) (inner_start (field_of fs dv cb p i))) s =
    run_state (inner_loop env dec dfl flags n k (inner_start (field_of fs dv cb p j))) s2"
proof -
  have "tag_bytes t wt = [of_nat (8 * t + wt)]"
    using t by (simp add: tag_bytes_small)
  then have "bytes_left (istr s) \<noteq> 0"
    using t(5) by (auto simp: stream_has_Cons)
  moreover have "(of_nat t :: uint32) \<noteq> 0"
    using t(2,3) by (simp flip: unat_eq_zero add: unat_of_nat)
  moreover have "pb_field_iter_find env (mem s) (field_of fs dv cb p i) (of_nat t) = Some (True, field_of fs dv cb p j)"
    using fs t(1) by (intro find_field) auto
  moreover have "PB_LTYPE (field_type_code (fs ! j)) \<noteq> PB_LTYPE_EXTENSION"
    by (rule plain_ltype [OF fs(1,4)])
  ultimately show ?thesis
    using decode_tag [OF t(5,3,4)] field kind
    by (auto simp: known_field_def Let_def inner_start_def field_of_members type_code_parts htype_code_def pb_types)
qed

lemma plain_defaults_free: "has_defaults (PB_BIND fs 0 No_callback) \<longleftrightarrow> (\<exists>s \<in> set fs. fs_submsg s \<noteq> None)"
  by (auto simp: has_defaults_def PB_BIND_def List.map_filter_def filter_empty_conv)

text \<open>Decoding without initialisation: only the loop.\<close>

lemma decode_noinit:
  assumes fs: "valid_fields fs" "fs \<noteq> []" "p \<noteq> 0" and req: "required_field_count (PB_BIND fs 0 No_callback) = 0"
    and loop: "run_state (inner_loop env (pb_decode_inner env n) (pb_message_set_to_defaults env n) PB_DECODE_NOINIT n
        (Suc (bytes_left (istr s))) (inner_start (field_of fs 0 No_callback p 0))) (s\<lparr>fixed_count_size := 0\<rparr>)
      = (Some (inner_start (field_of fs 0 No_callback p j)), s2)"
  shows "run_state (pb_decode_inner env (Suc n) (PB_BIND fs 0 No_callback) p PB_DECODE_NOINIT) s =
    (True, s2\<lparr>fixed_count_size := fixed_count_size s\<rparr>)"
  using loop
  by (simp add: decode_inner_body_def with_fixed_count_def begin_field [OF fs] inner_start_members
       required_seen_def req Let_def field_of_members PB_DECODE_NOINIT_def
       del: inner_loop.simps)

lemma decode_empty:
  "bytes_left (istr s) = 0 \<Longrightarrow>
   run_state (pb_decode_inner env (Suc n) (PB_BIND [] 0 No_callback) p PB_DECODE_NOINIT) s = (True, s)"
  by (simp add: decode_inner_body_def with_fixed_count_def pb_field_iter_begin_def load_descriptor_values_def
      desc_BIND iter_zero_def PB_DECODE_NOINIT_def inner_start_def required_seen_def PB_BIND_def Let_def)

section \<open>The host's messages\<close>

lemma SetPWM_fields:
  fixes q :: nat
  assumes "enum_size eb"
  defines "fl \<equiv> field_of (SetPWM_FIELDLIST eb) 0 No_callback q"
  shows "PB_LTYPE (ftype (fl 0)) = PB_LTYPE_UVARINT" "PB_LTYPE (ftype (fl 1)) = PB_LTYPE_FIXED32"
    and "PB_HTYPE (ftype (fl i)) = PB_HTYPE_OPTIONAL \<or> 1 < i" "PB_ATYPE (ftype (fl i)) = PB_ATYPE_STATIC \<or> 1 < i"
    and "pSize (fl i) = Size_null \<or> 1 < i" "tag (fl 0) = 1" "tag (fl 1) = 2"
    and "data_size (fl 0) = ucast eb" "data_size (fl 1) = 4"
    and "pData (fl 0) = q" "pData (fl 1) = q + 4"
    and "descriptor (fl i) = SetPWM_msg eb"
proof -
  have two: "i = 0 \<or> i = 1 \<or> 1 < i" for i :: nat by linarith
  show "PB_HTYPE (ftype (fl i)) = PB_HTYPE_OPTIONAL \<or> 1 < i" "PB_ATYPE (ftype (fl i)) = PB_ATYPE_STATIC \<or> 1 < i"
    "pSize (fl i) = Size_null \<or> 1 < i"
    using two [of i] unfolding fl_def
    by (auto simp: field_of_def Let_def type_code_parts field_list_defs htype_code_def atype_code_def pb_types)
qed (simp_all add: fl_def field_of_def Let_def type_code_parts field_list_defs PB_LTYPE_MAP_def SetPWM_msg_def)

lemma decode_singular_field:
  assumes "PB_HTYPE (ftype field) = PB_HTYPE_OPTIONAL" "PB_ATYPE (ftype field) = PB_ATYPE_STATIC"
    and "pSize field = Size_null"
  shows "decode_field env dec dfl wt field = decode_basic_field env dec wt field"
  using assms by (simp add: decode_field_def decode_static_field_def Let_def pb_types)

text \<open>
  The contents of \<open>SetPWM\<close> on the wire: proto3 leaves out a member that is zero. \<open>st\<close> is
  the value of the enumeration, \<open>dc\<close> the four bytes of the float.
\<close>

definition SetPWM_wire :: "nat \<Rightarrow> uint8 list \<Rightarrow> uint8 list" where
  "SetPWM_wire st dc =
     (if st = 0 then [] else [0x08, of_nat st]) @ (if dc = [0, 0, 0, 0] then [] else 0x15 # dc)"

lemma required_SetPWM: "required_field_count (PB_BIND (SetPWM_FIELDLIST eb) 0 No_callback) = 0"
  by (simp add: PB_BIND_def field_list_defs htype_code_def pb_types)

text \<open>Record updates that do not touch the stream, moved outwards.\<close>

lemma advance_updates:
  "advance k (s\<lparr>mem := m\<rparr>) = (advance k s)\<lparr>mem := m\<rparr>"
  "advance k (s\<lparr>fixed_count_size := c\<rparr>) = (advance k s)\<lparr>fixed_count_size := c\<rparr>"
  "(s\<lparr>fixed_count_size := c\<rparr>)\<lparr>mem := m\<rparr> = (s\<lparr>mem := m\<rparr>)\<lparr>fixed_count_size := c\<rparr>"
  "stream_has bs (s\<lparr>fixed_count_size := c\<rparr>) = stream_has bs s"
  by (simp_all add: advance_def stream_has_def)

text \<open>The memory of a \<open>SetPWM\<close> at \<open>q\<close> that was zero before.\<close>

definition SetPWM_stored :: "uint32 \<Rightarrow> nat \<Rightarrow> nat \<Rightarrow> uint8 list \<Rightarrow> mem \<Rightarrow> mem" where
  "SetPWM_stored eb q st dc m =
     (let m = (if st = 0 then m else store q (le_bytes (unat eb) (of_nat st :: uint64)) m)
      in if dc = [0, 0, 0, 0] then m else store (q + 4) dc m)"

lemma decode_SetPWM:
  assumes eb: "enum_size eb" and q: "q \<noteq> 0" and st: "st < 128" and dc: "length dc = 4"
    and stream: "stream_has (SetPWM_wire st dc) s" "bytes_left (istr s) = length (SetPWM_wire st dc)"
    and un: "unread q 8 s"
  shows "run_state (pb_decode_inner env (Suc n) (SetPWM_msg eb) q PB_DECODE_NOINIT) s =
    (True, (advance (bytes_left (istr s)) s)\<lparr>mem := SetPWM_stored eb q st dc (mem s)\<rparr>)"
proof -
  let ?fs = "SetPWM_FIELDLIST eb" and ?fl = "field_of (SetPWM_FIELDLIST eb) 0 No_callback q"
  let ?dec = "pb_decode_inner env n" and ?dfl = "pb_message_set_to_defaults env n"
  note f = SetPWM_fields [OF eb, of q]
  have fs: "plain_fields ?fs" "valid_fields ?fs" "?fs \<noteq> []" "length ?fs = 2"
    using plain_SetPWM [OF eb] by (simp_all add: plain_fields_def SetPWM_FIELDLIST_def)
  have kind: "fs_htype (?fs ! j) = H_ONEOF \<or> fs_htype (?fs ! j) = H_SINGULAR" if "j < 2" for j
    using that by (auto simp: field_list_defs less_Suc_eq numeral_2_eq_2)
  have tags: "fs_tag (?fs ! 0) = of_nat 1" "fs_tag (?fs ! 1) = of_nat 2"
    by (simp_all add: field_list_defs)
  have basic: "decode_field env ?dec ?dfl wt (?fl i) = decode_basic_field env ?dec wt (?fl i)" if "i < 2" for i wt
    using f(3-5) [of i] that by (intro decode_singular_field) auto
  have loop0: "run_state (inner_loop env ?dec ?dfl flags n (Suc k) (inner_start (?fl i))) s' =
      run_state (inner_loop env ?dec ?dfl flags n k (inner_start (?fl 0)))
        ((advance 2 s')\<lparr>mem := store q (le_bytes (unat eb) (of_nat st :: uint64)) (mem s')\<rparr>)"
    if "stream_has [0x08, of_nat st] s'" "i < 2" for s' i flags k
  proof -
    have l: "leb128 st = [of_nat st]" using st by (simp add: leb128_small)
    have "st < 2 ^ (8 * unat (ucast eb :: uint16))"
      using eb st by (auto simp: enum_size_def)
    then have "run_state (decode_basic_field env ?dec PB_WT_VARINT (?fl 0)) (advance 1 s') =
      (True, (advance 2 s')\<lparr>mem := store q (le_bytes (unat eb) (of_nat st :: uint64)) (mem s')\<rparr>)"
      using decode_uvarint_field [OF f(1), of st "advance 1 s'" env ?dec] f(8,10) that(1) enum_size_cases [OF eb]
      by (simp add: stream_has_Cons [of 8] l numeral_2_eq_2)
    then show ?thesis
      using fs that kind [of 0]
      by (intro inner_loop_field [OF fs(1) q _ _ _ tags(1), where wt = 0])
        (auto simp: pb_wire_types tag_bytes_small stream_has_Cons basic)
  qed
  have loop1: "run_state (inner_loop env ?dec ?dfl flags n (Suc k) (inner_start (?fl i))) s' =
      run_state (inner_loop env ?dec ?dfl flags n k (inner_start (?fl 1)))
        ((advance 5 s')\<lparr>mem := store (q + 4) dc (mem s')\<rparr>)"
    if "stream_has (0x15 # dc) s'" "i < 2" for s' i flags k
  proof -
    have "run_state (decode_basic_field env ?dec PB_WT_32BIT (?fl 1)) (advance 1 s') =
      (True, (advance 5 s')\<lparr>mem := store (q + 4) dc (mem s')\<rparr>)"
      using decode_float_field [OF f(2), of dc "advance 1 s'" env ?dec] f(11) that(1) dc
      by (simp add: stream_has_Cons)
    then show ?thesis
      using fs that kind [of 1]
      by (intro inner_loop_field [OF fs(1) q _ _ _ tags(2), where wt = 5])
        (auto simp: pb_wire_types tag_bytes_small stream_has_Cons basic)
  qed
  define b where "b = bytes_left (istr s)"
  have "\<exists>j. run_state (inner_loop env ?dec ?dfl PB_DECODE_NOINIT n (Suc b) (inner_start (?fl 0)))
      (s\<lparr>fixed_count_size := 0\<rparr>) = (Some (inner_start (?fl j)),
        (advance b s)\<lparr>mem := SetPWM_stored eb q st dc (mem s), fixed_count_size := 0\<rparr>)"
  proof (cases "st = 0")
    case st0: True
    show ?thesis
    proof (cases "dc = [0, 0, 0, 0]")
      case True
      then have "b = 0" using stream(2) st0 by (simp add: b_def SetPWM_wire_def)
      then show ?thesis using True st0 stream(2)
        by (intro exI [of _ 0]) (simp add: SetPWM_wire_def SetPWM_stored_def Let_def)
    next
      case False
      then have b: "b = 5" and st: "stream_has (0x15 # dc) s"
        using stream st0 dc by (simp_all add: b_def SetPWM_wire_def)
      then obtain k where "b = Suc k" by (cases b) auto
      then show ?thesis
        using False st0 b st loop1 [of "s\<lparr>fixed_count_size := 0\<rparr>" 0 PB_DECODE_NOINIT b]
        by (intro exI [of _ 1])
          (simp add: SetPWM_stored_def Let_def advance_updates b_def inner_loop_end del: inner_loop.simps)
    qed
  next
    case st1: False
    let ?s1 = "(advance 2 s)\<lparr>mem := store q (le_bytes (unat eb) (of_nat st :: uint64)) (mem s), fixed_count_size := 0\<rparr>"
    have st: "stream_has [0x08, of_nat st] s" "2 \<le> b"
      using stream st1 by (auto simp: b_def SetPWM_wire_def stream_has_Cons)
    then have first: "run_state (inner_loop env ?dec ?dfl PB_DECODE_NOINIT n (Suc b) (inner_start (?fl 0)))
      (s\<lparr>fixed_count_size := 0\<rparr>) = run_state (inner_loop env ?dec ?dfl PB_DECODE_NOINIT n b (inner_start (?fl 0))) ?s1"
      using loop0 [of "s\<lparr>fixed_count_size := 0\<rparr>" 0 PB_DECODE_NOINIT b] by (simp add: advance_updates del: inner_loop.simps)
    obtain k where k: "b = Suc (Suc k)"
      using st(2) by (metis Suc_le_D numeral_2_eq_2 Suc_le_mono)
    show ?thesis
    proof (cases "dc = [0, 0, 0, 0]")
      case True
      then have "b = 2" using stream(2) st1 by (simp add: b_def SetPWM_wire_def)
      then show ?thesis using True st1 first k
        by (intro exI [of _ 0])
          (simp add: SetPWM_stored_def Let_def advance_updates b_def inner_loop_end del: inner_loop.simps)
    next
      case False
      then have b: "b = 7" and wire: "stream_has ([0x08, of_nat st] @ 0x15 # dc) s"
        using stream st1 dc by (simp_all add: b_def SetPWM_wire_def)
      have u: "unread q (length (le_bytes (unat eb) (of_nat st :: uint64))) (advance 2 s)"
        using unread_advance [of q 8 s 2] un st(2) eb
        by (auto simp: b_def enum_size_def elim!: unread_mono)
      have "length [0x08, of_nat st :: uint8] = 2" by simp
      then have "stream_has (0x15 # dc) (advance 2 s)"
        using wire by (simp only: stream_has_append)
      then have "stream_has (0x15 # dc) ?s1"
        using stream_store [OF u, of "0x15 # dc"] by (simp only: advance_updates advance_fields)
      then show ?thesis
        using False st1 b k first loop1 [of ?s1 0 PB_DECODE_NOINIT "Suc k"]
        by (intro exI [of _ 1])
          (simp add: SetPWM_stored_def Let_def advance_updates b_def inner_loop_end del: inner_loop.simps)
    qed
  qed
  then obtain j where "run_state (inner_loop env ?dec ?dfl PB_DECODE_NOINIT n (Suc b) (inner_start (?fl 0)))
      (s\<lparr>fixed_count_size := 0\<rparr>) = (Some (inner_start (?fl j)),
        (advance b s)\<lparr>mem := SetPWM_stored eb q st dc (mem s), fixed_count_size := 0\<rparr>)" ..
  from decode_noinit [OF fs(2,3) q required_SetPWM this [unfolded b_def]]
  show ?thesis by (simp add: SetPWM_msg_def)
qed

text \<open>The encoder of \<open>SetPWM\<close> leaves out exactly the members whose bytes are all zero.\<close>

lemma encode_singular_field:
  assumes "PB_HTYPE (ftype field) = PB_HTYPE_OPTIONAL" "PB_ATYPE (ftype field) = PB_ATYPE_STATIC"
    and "pSize field = Size_null" "PB_LTYPE (ftype field) \<le> PB_LTYPE_LAST_PACKABLE" "pData field \<noteq> 0"
    and "default_value (descriptor field) = 0"
  shows "run_state (encode_field env (pb_check_proto3_default_value env (Suc n)) enc field) s =
    (if all_zero (mem s) (pData field) (unat (data_size field)) then (True, s)
     else run_state (encode_basic_field env enc field) s)"
  using assms
  by (simp add: encode_field_def field_absent_def proto3_default_body_def Let_def pb_types)

lemma all_zero_iff: "all_zero m p n \<longleftrightarrow> load m p n = replicate n 0"
  by (auto simp: all_zero_def list_all_length list_eq_iff_nth_eq)

lemma le_word_zero: "le_word (replicate n 0) = 0"
  by (induction n) simp_all

lemma le_bytes_zero: "le_bytes n 0 = replicate n 0"
  by (induction n) simp_all

lemma uint_at_zero:
  assumes "n \<le> 8"
  shows "uint_at m p n = 0 \<longleftrightarrow> all_zero m p n"
  using le_bytes_word [of "load m p n", where 'a = 64] assms
  by (auto simp: uint_at_def all_zero_iff le_word_zero unat_eq_zero)
    (simp add: le_bytes_zero)

lemma encode_SetPWM:
  assumes eb: "enum_size eb" and q: "q \<noteq> 0" and st: "st < 128"
    and val: "uint_at (mem s) q (unat eb) = st" "load (mem s) (q + 4) 4 = dc"
    and room: "room env (length (SetPWM_wire st dc)) s" and apart: "apart (length (SetPWM_wire st dc)) q 8 s"
  shows "run_state (pb_encode env (Suc (Suc n)) (SetPWM_msg eb) q) s = (True, emit (SetPWM_wire st dc) s)"
proof -
  let ?fs = "SetPWM_FIELDLIST eb" and ?fl = "field_of (SetPWM_FIELDLIST eb) 0 No_callback q"
  let ?a = "if st = 0 then [] else [0x08, of_nat st]" and ?b = "if dc = [0, 0, 0, 0] then [] else 0x15 # dc"
  define f where "f = (\<lambda>it. if PB_LTYPE (ftype it) = PB_LTYPE_EXTENSION
             then encode_extension_field env (Suc n) (pb_check_proto3_default_value env (Suc n)) (pb_encode env (Suc n)) it
             else encode_field env (pb_check_proto3_default_value env (Suc n)) (pb_encode env (Suc n)) it)"
  note fl = SetPWM_fields [OF eb, of q]
  have fs: "valid_fields ?fs" "?fs \<noteq> []" "length ?fs = 2"
    using plain_SetPWM [OF eb] by (simp_all add: plain_fields_def SetPWM_FIELDLIST_def)
  have w: "SetPWM_wire st dc = ?a @ ?b" by (simp add: SetPWM_wire_def)
  have d: "default_value (descriptor (?fl i)) = 0" for i
    unfolding fl(12) by (simp add: SetPWM_msg_def PB_BIND_def)
  have single: "run_state (f (?fl i)) s' =
     (if all_zero (mem s') (pData (?fl i)) (unat (data_size (?fl i))) then (True, s')
     else run_state (encode_basic_field env (pb_encode env (Suc n)) (?fl i)) s')" if "i < 2" for i s'
  proof -
    have "i = 0 \<or> i = 1" using that by auto
    then have p: "PB_LTYPE (ftype (?fl i)) \<le> PB_LTYPE_LAST_PACKABLE"
      "PB_LTYPE (ftype (?fl i)) \<noteq> PB_LTYPE_EXTENSION" "pData (?fl i) \<noteq> 0"
      using fl(1,2,10,11) q by (auto simp: pb_types simp del: One_nat_def)
    have o: "PB_HTYPE (ftype (?fl i)) = PB_HTYPE_OPTIONAL" "PB_ATYPE (ftype (?fl i)) = PB_ATYPE_STATIC"
      "pSize (?fl i) = Size_null"
      using fl(3-5) [of i] that by auto
    show ?thesis
      unfolding f_def if_not_P [OF p(2)] by (rule encode_singular_field [OF o p(1,3) d])
  qed
  have zero: "all_zero (mem s) q (unat eb) \<longleftrightarrow> st = 0"
    using uint_at_zero [of "unat eb" "mem s" q] val(1) eb by (auto simp: enum_size_def)
  have first: "run_state (f (?fl 0)) s = (True, emit ?a s)"
  proof (cases "st = 0")
    case True
    then show ?thesis using single [of 0 s] zero fl enum_size_cases [OF eb] by simp
  next
    case False
    have "run_state (encode_basic_field env (pb_encode env (Suc n)) (?fl 0)) s = (True, emit [0x08, of_nat st] s)"
    proof (rule encode_uvarint_field [OF fl(1), where v = st])
      show "apart (length [0x08, of_nat st :: uint8]) (pData (?fl 0)) 4 s"
        unfolding fl by (rule apart_mono [OF apart]) (use False in \<open>simp_all add: w\<close>)
      show "room env (length [0x08, of_nat st :: uint8]) s"
        by (rule room_mono [OF room]) (use False in \<open>simp add: w\<close>)
    qed (use fl q val st enum_size_cases [OF eb] in \<open>simp_all add: tag_bytes_small leb128_small\<close>)
    then show ?thesis using single [of 0 s] zero fl enum_size_cases [OF eb] False by simp
  qed
  have mem1: "load (mem (emit ?a s)) (q + 4) 4 = dc"
    using load_emit_apart [OF apart, of ?a "q + 4" 4] val(2) by (simp add: w)
  have zero1: "all_zero (mem (emit ?a s)) (pData (?fl 1)) (unat (data_size (?fl 1))) \<longleftrightarrow> dc = [0, 0, 0, 0]"
  proof -
    have "unat (4 :: uint16) = 4" "replicate 4 (0 :: uint8) = [0, 0, 0, 0]"
      by (simp, simp add: numeral_eq_Suc)
    then show ?thesis by (simp only: fl all_zero_iff mem1)
  qed
  have second: "run_state (f (?fl 1)) (emit ?a s) = (True, emit (?a @ ?b) s)"
  proof (cases "dc = [0, 0, 0, 0]")
    case True
    then show ?thesis using single [of 1 "emit ?a s"] zero1 fl by simp
  next
    case False
    have "length dc = 4" using val(2) by auto
    have "run_state (encode_basic_field env (pb_encode env (Suc n)) (?fl 1)) (emit ?a s) = (True, emit (0x15 # dc) (emit ?a s))"
    proof (rule encode_float_field [OF fl(2)])
      show "apart (length (0x15 # dc)) (pData (?fl 1)) 4 (emit ?a s)"
        unfolding fl by (rule apart_emit, rule apart_mono [OF apart]) (use False in \<open>simp_all add: w\<close>)
      show "room env (length (0x15 # dc)) (emit ?a s)"
        unfolding room_emit by (rule room_mono [OF room]) (use False in \<open>simp add: w\<close>)
    qed (use fl q mem1 in \<open>simp_all add: tag_bytes_small\<close>)
    then show ?thesis using single [of 1 "emit ?a s"] zero1 fl False
      by (simp add: emit_emit)
  qed
  define seq where "seq i = (if i = 0 then s else if i = 1 then emit ?a s else emit (?a @ ?b) s)" for i :: nat
  have run: "run_state (for_fields env 2 f (?fl 0)) (seq 0) = (True, seq (length ?fs))"
    by (rule for_fields_run [OF fs(1) q])
      (use fs(3) first second in \<open>auto simp: seq_def less_Suc_eq numeral_2_eq_2\<close>)
  have "unat (field_count (SetPWM_msg eb)) = 2"
    by (simp add: SetPWM_msg_def desc_BIND SetPWM_FIELDLIST_def)
  then have "run_state (pb_encode env (Suc (Suc n)) (SetPWM_msg eb) q) s = run_state (for_fields env 2 f (?fl 0)) s"
    using begin_field [OF fs(1,2) q, of env "mem s" 0 No_callback]
    unfolding pb_encode.simps(2) [of env "Suc n"] f_def
    by (simp add: pb_encode_body_def pb_field_iter_begin_const_def SetPWM_msg_def del: pb_encode.simps(2))
  then show ?thesis
    using run fs(3) by (simp only: seq_def w) simp
qed

end
