(* ===== verification/Command_Codec.thy ===== *)
theory Command_Codec
  imports Message_Codec
begin

text \<open>
  The commands of the host and the events of the firmware as values: their bytes on the
  wire, what the generated encoders write and what the generated decoders leave in the
  structure they fill.
\<close>

section \<open>Commands\<close>

text \<open>
  The commands the host sends, as values, with their bytes on the wire and the structure
  \<open>HighToLow\<close> at an address holding one.
\<close>

datatype command =
    Set_pwm uint32 float32 | Allow_power_on bool | Enable | Disable | Cpu_heartbeat

definition command_tag :: "command \<Rightarrow> nat" where
  "command_tag c = (case c of Set_pwm st dc \<Rightarrow> 1 | Allow_power_on b \<Rightarrow> 2 | Enable \<Rightarrow> 3 | Disable \<Rightarrow> 4 | Cpu_heartbeat \<Rightarrow> 5)"

definition command_wire :: "command \<Rightarrow> uint8 list" where
  "command_wire c =
     (case c of
        Set_pwm st dc \<Rightarrow> (let bs = SetPWM_wire (unat st) (le_bytes 4 dc) in 0x0A # of_nat (length bs) # bs)
      | Allow_power_on b \<Rightarrow> [0x10, of_bool b]
      | Enable \<Rightarrow> [0x1A, 0x00]
      | Disable \<Rightarrow> [0x22, 0x00]
      | Cpu_heartbeat \<Rightarrow> [0x2A, 0x00])"

definition command_at :: "uint32 \<Rightarrow> nat \<Rightarrow> mem \<Rightarrow> command \<Rightarrow> bool" where
  "command_at eb p m c \<longleftrightarrow>
     load_word 2 m p = (of_nat (command_tag c) :: uint16) \<and>
     (case c of
        Set_pwm st dc \<Rightarrow> uint_at m (p + 4) (unat eb) = unat st \<and> load m (p + 8) 4 = le_bytes 4 dc
      | Allow_power_on b \<Rightarrow> (m (p + 4) \<noteq> 0) = b
      | _ \<Rightarrow> True)"

text \<open>A value of the enumeration takes one byte.\<close>

definition small_command :: "command \<Rightarrow> bool" where
  "small_command c \<longleftrightarrow> (case c of Set_pwm st dc \<Rightarrow> unat st < 128 | _ \<Rightarrow> True)"

text \<open>The firmware never reads more than nine bytes of a message, and no command is longer.\<close>

lemma SetPWM_wire_length: "length dc = 4 \<Longrightarrow> length (SetPWM_wire st dc) \<le> 7"
  by (simp add: SetPWM_wire_def)

lemma command_wire_length: "length (command_wire c) \<le> HighToLow_size" "2 \<le> length (command_wire c)"
  using SetPWM_wire_length [of "le_bytes 4 dc" st for dc st]
  by (auto simp: command_wire_def HighToLow_size_def Let_def le_SucI numeral_eq_Suc split: command.splits)

lemma load_part:
  assumes "load m' a n = load m a n" "i + j \<le> n"
  shows "load m' (a + i) j = load m (a + i) j"
proof (rule load_cong)
  fix k assume "k < j"
  then show "m' (a + i + k) = m (a + i + k)"
    using arg_cong [OF assms(1), of "\<lambda>l. l ! (i + k)"] assms(2) by (simp add: add.assoc)
qed

lemma enum_size_le: "enum_size eb \<Longrightarrow> unat eb \<le> 4"
  by (auto simp: enum_size_def)

section \<open>Encoding a command\<close>

lemma HighToLow_fields:
  fixes p :: nat and eb :: uint32
  defines "fl \<equiv> field_of (HighToLow_FIELDLIST eb) 0 No_callback p"
  shows "PB_LTYPE (ftype (fl 0)) = PB_LTYPE_SUBMESSAGE" "PB_LTYPE (ftype (fl 1)) = PB_LTYPE_BOOL"
    and "2 \<le> i \<Longrightarrow> i < 5 \<Longrightarrow> PB_LTYPE (ftype (fl i)) = PB_LTYPE_SUBMESSAGE"
    and "i < 5 \<Longrightarrow> tag (fl i) = of_nat (Suc i)" "i < 5 \<Longrightarrow> pData (fl i) = p + 4"
    and "data_size (fl 0) = 8" "data_size (fl 1) = 1" "2 \<le> i \<Longrightarrow> i < 5 \<Longrightarrow> data_size (fl i) = 1"
    and "submsg_desc (fl 0) = Some (SetPWM_msg eb)" "submsg_desc (fl 1) = None"
    and "2 \<le> i \<Longrightarrow> i < 5 \<Longrightarrow> submsg_desc (fl i) = Some (PB_BIND [] 0 No_callback)"
proof -
  have c: "i < 5 \<longleftrightarrow> i = 0 \<or> i = 1 \<or> i = 2 \<or> i = 3 \<or> i = 4" for i :: nat by auto
  note u = union_field_of [OF union_HighToLow, of _ eb 0 No_callback p, folded fl_def]
  have len: "length (HighToLow_FIELDLIST eb) = 5" by (simp add: HighToLow_FIELDLIST_def)
  show "PB_LTYPE (ftype (fl 0)) = PB_LTYPE_SUBMESSAGE" "PB_LTYPE (ftype (fl 1)) = PB_LTYPE_BOOL"
    "data_size (fl 0) = 8" "data_size (fl 1) = 1" "submsg_desc (fl 0) = Some (SetPWM_msg eb)" "submsg_desc (fl 1) = None"
    using u [of 0] u [of 1] by (simp_all add: len field_list_defs PB_LTYPE_MAP_def)
  show "2 \<le> i \<Longrightarrow> i < 5 \<Longrightarrow> PB_LTYPE (ftype (fl i)) = PB_LTYPE_SUBMESSAGE"
    "2 \<le> i \<Longrightarrow> i < 5 \<Longrightarrow> data_size (fl i) = 1"
    "2 \<le> i \<Longrightarrow> i < 5 \<Longrightarrow> submsg_desc (fl i) = Some (PB_BIND [] 0 No_callback)"
    "i < 5 \<Longrightarrow> tag (fl i) = of_nat (Suc i)" "i < 5 \<Longrightarrow> pData (fl i) = p + 4"
    using u [of i] unfolding c
    by (auto simp: len field_list_defs PB_LTYPE_MAP_def Empty_msg_def CpuHeartbeat_msg_def)
qed

lemma encode_HighToLow_field:
  assumes p: "p \<noteq> 0" and which: "load_word 2 (mem s) p = (of_nat (Suc i) :: uint16)" and i: "i < 5"
    and basic: "run_state (encode_basic_field env (pb_encode env n)
      (field_of (HighToLow_FIELDLIST eb) 0 No_callback p i)) s = (True, emit bs s)"
    and apart: "apart (length bs) p HighToLow_bytes s"
  shows "run_state (pb_encode env (Suc n) (HighToLow_msg eb) p) s = (True, emit bs s)"
  unfolding HighToLow_msg_def
proof (rule encode_union [OF union_HighToLow p _ _ basic])
  have "i = 0 \<or> i = 1 \<or> i = 2 \<or> i = 3 \<or> i = 4" using i by auto
  then show "load_word 2 (mem s) p = (ucast (fs_tag (HighToLow_FIELDLIST eb ! i)) :: uint16)"
    "i < length (HighToLow_FIELDLIST eb)"
    using which by (auto simp: field_list_defs)
  show "apart (length bs) p 2 s"
    by (rule apart_mono [OF apart]) (simp_all add: HighToLow_bytes_def)
qed

lemma encode_HighToLow_empty:
  assumes p: "p \<noteq> 0" and which: "load_word 2 (mem s) p = (of_nat (Suc i) :: uint16)" and i: "2 \<le> i" "i < 5"
    and room: "room env 2 s" and apart: "apart 2 p HighToLow_bytes s"
    and stream: "os_callback (ostr s) = Os_buf_write" "os_errmsg (ostr s) = None"
  shows "run_state (pb_encode env (Suc (Suc n)) (HighToLow_msg eb) p) s =
    (True, emit [of_nat (8 * Suc i + 2), 0x00] s)"
proof (rule encode_HighToLow_field [OF p which i(2)])
  let ?bs = "[of_nat (8 * Suc i + 2), 0x00] :: uint8 list"
  note f = HighToLow_fields [where p = p and eb = eb]
  have len: "length ?bs = 2" by simp
  show "apart (length ?bs) p HighToLow_bytes s" unfolding len by (rule apart)
  have t: "unat (of_nat (Suc i) :: uint16) = Suc i"
    using i by (simp add: unat_of_nat take_bit_eq_mod del: of_nat_Suc)
  show "run_state (encode_basic_field env (pb_encode env (Suc n)) (field_of (HighToLow_FIELDLIST eb) 0 No_callback p i)) s =
     (True, emit ?bs s)"
  proof (rule encode_submessage_field [OF f(3,11), OF i i, where k = 0 and bs = "[]"])
    show "apart (length ?bs) (pData (field_of (HighToLow_FIELDLIST eb) 0 No_callback p i)) 0 s"
      unfolding len f(5) [OF i(2)] by (rule apart_mono [OF apart]) (simp_all add: HighToLow_bytes_def)
    show "run_state (pb_encode env (Suc n) (PB_BIND [] 0 No_callback)
        (pData (field_of (HighToLow_FIELDLIST eb) 0 No_callback p i))) s' = (True, emit [] s')" for s'
      using encode_empty [of "p + 4" env n No_callback s'] p i f(5) by simp
    show "room env (length ?bs) s"
      unfolding len by (rule room)
    show "?bs = tag_bytes (unat (tag (field_of (HighToLow_FIELDLIST eb) 0 No_callback p i))) 2 @ leb128 (length []) @ []"
      unfolding f(4) [OF i(2)] t using i by (simp add: tag_bytes_small leb128_small)
  qed (use f i p stream in simp_all)
qed

lemma encode_HighToLow_allow:
  assumes p: "p \<noteq> 0" and which: "load_word 2 (mem s) p = (of_nat (Suc 1) :: uint16)"
    and room: "room env 2 s" and apart: "apart 2 p HighToLow_bytes s"
  shows "run_state (pb_encode env (Suc n) (HighToLow_msg eb) p) s =
    (True, emit [0x10, of_bool (mem s (p + 4) \<noteq> 0)] s)"
proof (rule encode_HighToLow_field [OF p which])
  let ?bs = "[0x10, of_bool (mem s (p + 4) \<noteq> 0)] :: uint8 list"
  note f = HighToLow_fields [where p = p and eb = eb]
  have len: "length ?bs = 2" by simp
  show "apart (length ?bs) p HighToLow_bytes s" unfolding len by (rule apart)
  show "run_state (encode_basic_field env (pb_encode env n) (field_of (HighToLow_FIELDLIST eb) 0 No_callback p 1)) s =
     (True, emit ?bs s)"
  proof (rule encode_bool_field [OF f(2)])
    show "apart (length ?bs) (pData (field_of (HighToLow_FIELDLIST eb) 0 No_callback p 1)) 1 s"
      using f(5) [of 1] by (simp only: len, intro apart_mono [OF apart]) (simp_all add: HighToLow_bytes_def)
    show "room env (length ?bs) s"
      unfolding len by (rule room)
  qed (use f(4,5) [of 1] in \<open>simp_all add: tag_bytes_small\<close>)
qed simp

lemma encode_HighToLow_set_pwm:
  assumes eb: "enum_size eb" and p: "p \<noteq> 0" and which: "load_word 2 (mem s) p = (of_nat (Suc 0) :: uint16)"
    and st: "st < 128" and val: "uint_at (mem s) (p + 4) (unat eb) = st" "load (mem s) (p + 8) 4 = dc"
    and cs: "cs = 0x0A # of_nat (length (SetPWM_wire st dc)) # SetPWM_wire st dc"
    and room: "room env (length cs) s" and apart: "apart (length cs) p HighToLow_bytes s"
    and stream: "os_callback (ostr s) = Os_buf_write" "os_errmsg (ostr s) = None"
  shows "run_state (pb_encode env (Suc (Suc (Suc n))) (HighToLow_msg eb) p) s = (True, emit cs s)"
proof (rule encode_HighToLow_field [OF p which])
  let ?w = "SetPWM_wire st dc" and ?fl = "field_of (HighToLow_FIELDLIST eb) 0 No_callback p 0"
  note f = HighToLow_fields [where p = p and eb = eb]
  have len: "length dc = 4" "length ?w < 128"
    using val(2) SetPWM_wire_length [of dc st] by auto
  show "apart (length cs) p HighToLow_bytes s" by (rule apart)
  show "run_state (encode_basic_field env (pb_encode env (Suc (Suc n))) ?fl) s = (True, emit cs s)"
  proof (rule encode_submessage_field [OF f(1,9), where k = 8 and bs = ?w])
    show "run_state (pb_encode env (Suc (Suc n)) (SetPWM_msg eb) (pData ?fl)) s' = (True, emit ?w s')"
      if same: "load (mem s') (pData ?fl) 8 = load (mem s) (pData ?fl) 8"
        and r: "room env (length ?w) s'" and a: "apart (length ?w) (pData ?fl) 8 s'" for s'
    proof -
      have e: "pData ?fl = p + 4" "pData ?fl + 4 = p + 8" "pData ?fl \<noteq> 0"
        using f(5) [of 0] by simp_all
      have "load (mem s') (pData ?fl + 4) 4 = dc"
        using load_part [OF same, of 4 4, unfolded e(2)] val(2) by (simp add: e(2))
      moreover have "uint_at (mem s') (pData ?fl) (unat eb) = st"
        using load_part [OF same, of 0 "unat eb"] enum_size_le [OF eb] val(1) by (simp add: uint_at_def e)
      ultimately show ?thesis
        by (rule encode_SetPWM [OF eb e(3) st _ _ r a, rotated])
    qed
    show "apart (length cs) (pData ?fl) 8 s"
      using f(5) [of 0] by (intro apart_mono [OF apart]) (simp_all add: HighToLow_bytes_def)
    show "cs = tag_bytes (unat (tag ?fl)) 2 @ leb128 (length ?w) @ ?w"
      using f(4) [of 0] len by (simp add: cs tag_bytes_small leb128_small)
  qed (use f(5) [of 0] p stream room len in simp_all)
qed simp

text \<open>Every command: the encoder writes exactly its bytes.\<close>

lemma encode_command:
  assumes eb: "enum_size eb" and p: "p \<noteq> 0" and at: "command_at eb p (mem s) c" and small: "small_command c"
    and room: "room env (length (command_wire c)) s" and apart: "apart (length (command_wire c)) p HighToLow_bytes s"
    and stream: "os_callback (ostr s) = Os_buf_write" "os_errmsg (ostr s) = None"
  shows "run_state (pb_encode env (Suc (Suc (Suc n))) (HighToLow_msg eb) p) s = (True, emit (command_wire c) s)"
proof -
  have two: "length [x, y] = 2" for x y :: uint8 by simp
  note empty = encode_HighToLow_empty [OF p _ _ _ _ _ stream, where env = env and n = "Suc n" and eb = eb]
  show ?thesis
  proof (cases c)
    case (Set_pwm st dc)
    then show ?thesis
      using at small room apart
      by (intro encode_HighToLow_set_pwm [OF eb p _ _ _ _ _ _ _ stream, where st = "unat st" and dc = "le_bytes 4 dc"])
        (simp_all add: command_at_def small_command_def command_wire_def command_tag_def Let_def)
  next
    case (Allow_power_on b)
    then show ?thesis
      using at room apart encode_HighToLow_allow [OF p, where s = s and env = env and eb = eb and n = "Suc (Suc n)"]
      by (simp add: command_at_def command_wire_def command_tag_def two numeral_2_eq_2)
  next
    case Enable
    then show ?thesis
      using at room apart empty [of 2] by (simp add: command_at_def command_wire_def command_tag_def numeral_2_eq_2)
  next
    case Disable
    then show ?thesis
      using at room apart empty [of 3] by (simp add: command_at_def command_wire_def command_tag_def numeral_2_eq_2)
  next
    case Cpu_heartbeat
    then show ?thesis
      using at room apart empty [of 4] by (simp add: command_at_def command_wire_def command_tag_def numeral_2_eq_2)
  qed
qed

section \<open>Decoding a command\<close>

definition same_outside :: "nat \<Rightarrow> nat \<Rightarrow> mem \<Rightarrow> mem \<Rightarrow> bool" where
  "same_outside p k m m' \<longleftrightarrow> (\<forall>a. a < p \<or> p + k \<le> a \<longrightarrow> m a = m' a)"

lemma same_outside_store:
  "p \<le> a \<Longrightarrow> a + length bs \<le> p + k \<Longrightarrow> same_outside p k m m' \<Longrightarrow> same_outside p k (store a bs m) m'"
  by (auto simp: same_outside_def store_def)

lemma same_outside_refl [simp]: "same_outside p k m m"
  by (simp add: same_outside_def)

lemma stream_has_tail:
  assumes "stream_has (b # bs) s"
  shows "stream_has bs (advance 1 s)"
  using assms by (simp add: stream_has_Cons)

lemma stream_same_outside:
  assumes "unread p k s" "same_outside p k m (mem s)"
  shows "stream_has bs (s\<lparr>mem := m\<rparr>) = stream_has bs s"
proof -
  have "load m (is_state (istr s)) n = load (mem s) (is_state (istr s)) n" if "n \<le> bytes_left (istr s)" for n
    using assms that by (intro load_cong) (auto simp: same_outside_def unread_def)
  then show ?thesis by (auto simp: stream_has_def)
qed

lemma decode_HighToLow_field:
  assumes p: "p \<noteq> 0" and i: "i < 5" and wt: "wt < 8"
    and stream: "stream_has (of_nat (8 * Suc i + wt) # bs) s" "bytes_left (istr s) = Suc (length bs)"
    and un: "unread p HighToLow_bytes s"
    and field: "\<And>s'. stream_has bs s' \<Longrightarrow> bytes_left (istr s') = length bs \<Longrightarrow> unread p HighToLow_bytes s' \<Longrightarrow>
       load (mem s') p 2 = [0, 0] \<Longrightarrow>
       \<exists>m. run_state (decode_field env (pb_decode_inner env (Suc n)) (pb_message_set_to_defaults env (Suc n)) (of_nat wt)
           (field_of (HighToLow_FIELDLIST eb) 0 No_callback p i)) s' = (True, (advance (length bs) s')\<lparr>mem := m\<rparr>) \<and>
         command_at eb p m c \<and> same_outside p HighToLow_bytes m (mem s')"
  shows "\<exists>m. run_state (pb_decode_inner env (Suc (Suc n)) (HighToLow_msg eb) p 0) s =
      (True, (advance (Suc (length bs)) s)\<lparr>mem := m\<rparr>) \<and> command_at eb p m c \<and> same_outside p HighToLow_bytes m (mem s)"
proof -
  let ?fs = "HighToLow_FIELDLIST eb"
  let ?s1 = "(advance 1 s)\<lparr>fixed_count_size := 0, mem := store p [0, 0] (mem s)\<rparr>"
  have "i = 0 \<or> i = 1 \<or> i = 2 \<or> i = 3 \<or> i = 4" using i by auto
  then have t: "fs_tag (?fs ! i) = of_nat (Suc i)" "i < length ?fs"
    by (auto simp: field_list_defs)
  have un1: "unread p HighToLow_bytes (advance 1 s)"
    by (rule unread_advance [OF un]) (simp add: stream)
  have u2: "unread p (length [0, 0 :: uint8]) (advance 1 s)"
    using un1 by (rule unread_mono) (simp_all add: HighToLow_bytes_def)
  have "stream_has bs ?s1"
    using stream_has_tail [OF stream(1)] stream_store [OF u2, of bs] by (simp add: advance_updates stream_has_def)
  moreover have "bytes_left (istr ?s1) = length bs" "unread p HighToLow_bytes ?s1"
    using un1 stream(2) by (simp_all add: advance_def unread_def)
  moreover have "load (mem ?s1) p 2 = [0, 0]"
    using load_store_same [of p "[0, 0]" "mem s"] by (simp add: numeral_2_eq_2)
  ultimately obtain m where m: "run_state (decode_field env (pb_decode_inner env (Suc n)) (pb_message_set_to_defaults env (Suc n))
        (of_nat wt) (field_of ?fs 0 No_callback p i)) ?s1 = (True, (advance (length bs) ?s1)\<lparr>mem := m\<rparr>)"
      "command_at eb p m c" "same_outside p HighToLow_bytes m (mem ?s1)"
    using field [of ?s1] by blast
  have left: "bytes_left (istr ((advance (length bs) ?s1)\<lparr>mem := m\<rparr>)) = 0"
    using stream(2) by (simp add: advance_def)
  have tag: "stream_has (tag_bytes (Suc i) wt) s" "is_state (istr s) + bytes_left (istr s) \<le> p \<or> p + 2 \<le> is_state (istr s)"
    using stream(1) un i wt by (auto simp: tag_bytes_small stream_has_Cons unread_def HighToLow_bytes_def simp del: of_nat_Suc)
  have "run_state (pb_decode_inner env (Suc (Suc n)) (HighToLow_msg eb) p 0) s =
      (True, (advance (length bs) ?s1)\<lparr>mem := m, fixed_count_size := fixed_count_size s\<rparr>)"
    unfolding HighToLow_msg_def
    by (rule decode_union [OF union_HighToLow p t(2) t(1) _ _ wt tag m(1) left]) (use i in simp_all)
  moreover have "(advance (length bs) ?s1)\<lparr>mem := m, fixed_count_size := fixed_count_size s\<rparr> =
      (advance (Suc (length bs)) s)\<lparr>mem := m\<rparr>"
    using stream(2) by (simp add: advance_def)
  ultimately have "run_state (pb_decode_inner env (Suc (Suc n)) (HighToLow_msg eb) p 0) s =
      (True, (advance (Suc (length bs)) s)\<lparr>mem := m\<rparr>)"
    by (simp only:)
  moreover have "same_outside p HighToLow_bytes m (mem s)"
    using m(3) by (auto simp: same_outside_def store_def HighToLow_bytes_def)
  ultimately show ?thesis
    using m(2) by (intro exI [of _ m] conjI)
qed

lemma load_select: "load (select p t m) p 2 = le_bytes 2 t"
  using load_store_same [of p "le_bytes 2 t" m] by (simp add: select_def)

lemma select_command:
  assumes "length bs \<le> 8"
  shows "same_outside p HighToLow_bytes (store (p + 4) bs (select p t m)) m"
    and "load_word 2 (store (p + 4) bs (select p t m)) p = t"
proof -
  show "same_outside p HighToLow_bytes (store (p + 4) bs (select p t m)) m"
    using assms by (auto simp: select_def HighToLow_bytes_def intro!: same_outside_store)
  have "load (store (p + 4) bs (select p t m)) p 2 = le_bytes 2 t"
    using load_store_disjoint [of p 2 "p + 4" bs "select p t m"] load_select by simp
  then show "load_word 2 (store (p + 4) bs (select p t m)) p = t"
    using le_word_bytes [of 2 t] by (simp add: load_word_def)
qed

lemma decode_HighToLow_allow:
  assumes p: "p \<noteq> 0" and stream: "stream_has [0x10, of_bool b] s" "bytes_left (istr s) = 2"
    and un: "unread p HighToLow_bytes s"
  shows "\<exists>m. run_state (pb_decode_inner env (Suc (Suc n)) (HighToLow_msg eb) p 0) s =
      (True, (advance 2 s)\<lparr>mem := m\<rparr>) \<and> command_at eb p m (Allow_power_on b) \<and> same_outside p HighToLow_bytes m (mem s)"
proof -
  let ?f = "field_of (HighToLow_FIELDLIST eb) 0 No_callback p 1"
  note f = HighToLow_fields [where p = p and eb = eb]
  note u = union_field_of [OF union_HighToLow, of 1 eb 0 No_callback p]
  have len: "1 < length (HighToLow_FIELDLIST eb)" by (simp add: HighToLow_FIELDLIST_def)
  have nosub: "\<not> PB_LTYPE_IS_SUBMSG (ftype ?f)" using f(2) by (simp add: PB_LTYPE_IS_SUBMSG_def pb_types)
  have "\<exists>m. run_state (decode_field env (pb_decode_inner env (Suc n)) (pb_message_set_to_defaults env (Suc n)) (of_nat 0) ?f) s' =
      (True, (advance (length [of_bool b :: uint8]) s')\<lparr>mem := m\<rparr>) \<and> command_at eb p m (Allow_power_on b) \<and>
      same_outside p HighToLow_bytes m (mem s')"
    if st: "stream_has [of_bool b] s'" and un: "unread p HighToLow_bytes s'" for s'
  proof -
    have "unread p (length (le_bytes 2 (tag ?f))) s'"
      using un by (rule unread_mono) (simp_all add: HighToLow_bytes_def)
    then have "stream_has [of_bool b] (s'\<lparr>mem := select p (tag ?f) (mem s')\<rparr>)"
      using st stream_store by (simp add: select_def)
    then have "run_state (decode_field env dec dfl (of_nat 0) ?f) s' =
        (True, (advance 1 s')\<lparr>mem := store (p + 4) [of_bool b] (select p 2 (mem s'))\<rparr>)" for dec dfl
      using decode_bool_field [OF f(2), where b = b and env = env and s = "s'\<lparr>mem := select p (tag ?f) (mem s')\<rparr>"]
        decode_oneof_field [OF u(1,2) [OF len] nosub u(5) [OF len], of env dec dfl 0 s'] f(4,5) [of 1]
      by (simp add: pb_wire_types advance_updates)
    then show ?thesis
      using select_command [of "[of_bool b]" p 2 "mem s'"]
      by (intro exI [of _ "store (p + 4) [of_bool b] (select p 2 (mem s'))"])
        (simp add: command_at_def command_tag_def, simp add: store_def)
  qed
  then show ?thesis
    using decode_HighToLow_field [OF p, of 1 0 "[of_bool b]" s env n eb "Allow_power_on b"] stream un
    by (simp add: numeral_2_eq_2)
qed

lemma select_after:
  assumes "length bs \<le> 8"
  shows "same_outside p HighToLow_bytes (select p t (store (p + 4) bs m)) m"
    and "load_word 2 (select p t (store (p + 4) bs m)) p = t"
    and "length bs = k \<Longrightarrow> load (select p t (store (p + 4) bs m)) (p + 4) k = bs"
proof -
  show "same_outside p HighToLow_bytes (select p t (store (p + 4) bs m)) m"
    using assms by (auto simp: select_def HighToLow_bytes_def intro!: same_outside_store)
  show "load_word 2 (select p t (store (p + 4) bs m)) p = t"
    using le_word_bytes [of 2 t] by (simp add: load_word_def load_select)
  show "length bs = k \<Longrightarrow> load (select p t (store (p + 4) bs m)) (p + 4) k = bs"
    using load_store_disjoint [of "p + 4" k p "le_bytes 2 t" "store (p + 4) bs m"] load_store_same [of "p + 4" bs m]
    by (auto simp: select_def)
qed

lemma decode_HighToLow_submessage:
  assumes p: "p \<noteq> 0" and i: "i < 5" "i \<noteq> 1" and bs: "length bs < 128"
    and stream: "stream_has (of_nat (8 * Suc i + 2) # of_nat (length bs) # bs) s" "bytes_left (istr s) = Suc (Suc (length bs))"
    and un: "unread p HighToLow_bytes s"
    and d: "submsg_desc (field_of (HighToLow_FIELDLIST eb) 0 No_callback p i) = Some d" "\<not> has_defaults d"
    and sub: "\<And>s'. stream_has bs s' \<Longrightarrow> bytes_left (istr s') = length bs \<Longrightarrow> unread p HighToLow_bytes s' \<Longrightarrow>
       load_word 2 (mem s') p = (of_nat (Suc i) :: uint16) \<Longrightarrow> (i = 0 \<Longrightarrow> load (mem s') (p + 4) 8 = replicate 8 0) \<Longrightarrow>
       \<exists>m. run_state (pb_decode_inner env (Suc n) d (p + 4) PB_DECODE_NOINIT) s' = (True, (advance (length bs) s')\<lparr>mem := m\<rparr>) \<and>
         command_at eb p m c \<and> same_outside p HighToLow_bytes m (mem s')"
  shows "\<exists>m. run_state (pb_decode_inner env (Suc (Suc n)) (HighToLow_msg eb) p 0) s =
      (True, (advance (Suc (Suc (length bs))) s)\<lparr>mem := m\<rparr>) \<and> command_at eb p m c \<and> same_outside p HighToLow_bytes m (mem s)"
proof -
  let ?fl = "field_of (HighToLow_FIELDLIST eb) 0 No_callback p i"
  let ?k = "unat (data_size ?fl)" and ?lb = "of_nat (length bs) :: uint8"
  note f = HighToLow_fields [where p = p and eb = eb]
  have len: "i < length (HighToLow_FIELDLIST eb)" using i by (simp add: HighToLow_FIELDLIST_def)
  note u = union_field_of [OF union_HighToLow len, of 0 No_callback p]
  have lt: "PB_LTYPE (ftype ?fl) = PB_LTYPE_SUBMESSAGE"
    using f(1) f(3) [of i] i by (cases "i = 0") auto
  have k: "?k \<le> 8" "i = 0 \<Longrightarrow> ?k = 8"
    using f(6) f(8) [of i] i by (cases "i = 0"; simp)+
  have lb: "leb128 (length bs) = [?lb]" using bs by (simp add: leb128_small)
  have "\<exists>m. run_state (decode_field env (pb_decode_inner env (Suc n)) (pb_message_set_to_defaults env (Suc n)) (of_nat 2) ?fl) s' =
      (True, (advance (length (?lb # bs)) s')\<lparr>mem := m\<rparr>) \<and> command_at eb p m c \<and> same_outside p HighToLow_bytes m (mem s')"
    if st: "stream_has (?lb # bs) s'" and left: "bytes_left (istr s') = length (?lb # bs)"
      and un: "unread p HighToLow_bytes s'" and zero: "load (mem s') p 2 = [0, 0]" for s'
  proof -
    define m0 where "m0 = select p (tag ?fl) (store (pData ?fl) (replicate ?k 0) (mem s'))"
    let ?s1 = "(advance 1 s')\<lparr>mem := m0\<rparr>"
    have m0: "m0 = select p (of_nat (Suc i)) (store (p + 4) (replicate ?k 0) (mem s'))"
      unfolding m0_def f(4,5) [OF i(1)] ..
    have un1: "unread p HighToLow_bytes (advance 1 s')"
      by (rule unread_advance [OF un]) (simp add: left)
    have "stream_has bs ?s1"
      using stream_same_outside [OF un1, of m0 bs] stream_has_tail [OF st] k(1)
        select_after(1) [of "replicate ?k 0" p "of_nat (Suc i)" "mem s'"] by (simp add: m0)
    moreover have "bytes_left (istr ?s1) = length bs" "unread p HighToLow_bytes ?s1"
      using un1 left by (simp_all add: advance_def unread_def)
    moreover have "load_word 2 (mem ?s1) p = (of_nat (Suc i) :: uint16)"
      "i = 0 \<Longrightarrow> load (mem ?s1) (p + 4) 8 = replicate 8 0"
      using select_after [where bs = "replicate ?k 0" and p = p and t = "of_nat (Suc i)" and m = "mem s'"] k by (simp_all add: m0)
    ultimately obtain m where m: "run_state (pb_decode_inner env (Suc n) d (p + 4) PB_DECODE_NOINIT) ?s1 =
        (True, (advance (length bs) ?s1)\<lparr>mem := m\<rparr>)" "command_at eb p m c" "same_outside p HighToLow_bytes m (mem ?s1)"
      using sub [of ?s1] by blast
    have tag0: "load_word 2 (mem s') p \<noteq> tag ?fl"
    proof -
      have "load_word 2 (mem s') p = (0 :: uint16)" by (simp add: load_word_def zero)
      moreover have "i = 0 \<or> i = 1 \<or> i = 2 \<or> i = 3 \<or> i = 4" using i by auto
      ultimately show ?thesis unfolding f(4) [OF i(1)] by auto
    qed
    have un2: "unread p 2 s'" "unread (pData ?fl) ?k s'"
      using un by (rule unread_mono; use k f(5) [OF i(1)] in \<open>simp add: HighToLow_bytes_def\<close>)+
    have "run_state (decode_field env (pb_decode_inner env (Suc n)) (pb_message_set_to_defaults env (Suc n)) PB_WT_STRING ?fl) s' =
        (True, (advance (length bs) ?s1)\<lparr>mem := m\<rparr>)"
      by (rule decode_oneof_submessage [OF u(1,2) lt u(5) d tag0 _ bs _ un2 m0_def])
        (use st left m(1) f(5) [OF i(1)] in \<open>simp_all add: lb advance_def\<close>)
    moreover have "same_outside p HighToLow_bytes m (mem s')"
      using m(3) select_after(1) [of "replicate ?k 0" p "of_nat (Suc i)" "mem s'"] k by (simp add: m0 same_outside_def)
    ultimately show ?thesis
      using m(2) by (intro exI [of _ m]) (simp add: pb_wire_types advance_def)
  qed
  then show ?thesis
    using decode_HighToLow_field [OF p i(1), of 2 "?lb # bs" s env n eb c] stream un
    by simp
qed

lemma le_word_bytes_take: "(le_word (le_bytes n (w :: 'a::len word)) :: 'a word) = take_bit (8 * n) w"
proof (rule bit_word_eqI)
  fix i
  assume i: "i < LENGTH('a)"
  have "i div 8 < n \<longleftrightarrow> i < 8 * n" by auto
  moreover have "8 * (i div 8) + i mod 8 = i" by simp
  ultimately show "bit (le_word (le_bytes n w) :: 'a word) i = bit (take_bit (8 * n) w) i"
    using i by (auto simp: bit_le_word nth_le_bytes bit_ucast_iff bit_drop_bit_eq bit_take_bit_iff)
qed

lemma uint_at_store:
  assumes "v < 128" "1 \<le> n" "n \<le> 8"
  shows "uint_at (store a (le_bytes n (of_nat v :: uint64)) m) a n = v"
proof -
  have "2 ^ 8 \<le> (2 :: nat) ^ (8 * n)" using assms by (intro power_increasing) auto
  then have v: "v < 2 ^ (8 * n)" using assms(1) by simp
  have "load (store a (le_bytes n (of_nat v :: uint64)) m) a n = le_bytes n (of_nat v :: uint64)"
    using load_store_same [of a "le_bytes n (of_nat v :: uint64)" m] by simp
  then show ?thesis
    using v assms(1) take_bit_nat_eq_self [of v "8 * n"] take_bit_nat_eq_self [of v 64]
    by (simp add: uint_at_def le_word_bytes_take unsigned_take_bit_eq unsigned_of_nat)
qed

lemma SetPWM_stored_at:
  assumes eb: "enum_size eb" and zero: "load m (p + 4) 8 = replicate 8 0"
    and tag: "load_word 2 m p = (1 :: uint16)" and st: "unat st < 128"
  shows "command_at eb p (SetPWM_stored eb (p + 4) (unat st) (le_bytes 4 dc) m) (Set_pwm st dc)"
    and "same_outside p HighToLow_bytes (SetPWM_stored eb (p + 4) (unat st) (le_bytes 4 dc) m) m"
proof -
  let ?dc = "le_bytes 4 dc" and ?s = "le_bytes (unat eb) (of_nat (unat st) :: uint64)"
  define m1 where "m1 = (if unat st = 0 then m else store (p + 4) ?s m)"
  have m2: "SetPWM_stored eb (p + 4) (unat st) ?dc m = (if ?dc = [0, 0, 0, 0] then m1 else store (p + 8) ?dc m1)"
    by (simp add: SetPWM_stored_def m1_def Let_def add.assoc)
  have eb': "1 \<le> unat eb" "unat eb \<le> 4" using eb by (auto simp: enum_size_def)
  have z: "load m (p + 4) k = replicate k 0" if "k \<le> 8" for k
    using arg_cong [OF zero, of "take k"] that by (simp add: load_def take_map)
  have z8: "load m (p + 8) 4 = [0, 0, 0, 0]"
    using arg_cong [OF zero, of "drop 4"] by (simp add: load_def drop_map numeral_eq_Suc)
  have e: "uint_at m1 (p + 4) (unat eb) = unat st"
    using uint_at_store [OF st, of "unat eb" "p + 4" m] eb' z [of "unat eb"]
    by (auto simp: m1_def uint_at_def le_word_zero)
  have o1: "same_outside p HighToLow_bytes m1 m" and l1: "load_word 2 m1 p = (1 :: uint16)" "load m1 (p + 8) 4 = [0, 0, 0, 0]"
    using eb' tag z8 load_store_disjoint [of p 2 "p + 4" ?s m] load_store_disjoint [of "p + 8" 4 "p + 4" ?s m]
    by (auto simp: m1_def HighToLow_bytes_def load_word_def intro!: same_outside_store)
  have "load (store (p + 8) ?dc m1) p 2 = load m1 p 2" "load (store (p + 8) ?dc m1) (p + 4) (unat eb) = load m1 (p + 4) (unat eb)"
    "load (store (p + 8) ?dc m1) (p + 8) 4 = ?dc"
    using eb' load_store_same [of "p + 8" ?dc m1] by (auto intro!: load_store_disjoint)
  then show "command_at eb p (SetPWM_stored eb (p + 4) (unat st) ?dc m) (Set_pwm st dc)"
    unfolding m2 using e l1 by (auto simp: command_at_def command_tag_def uint_at_def load_word_def)
  show "same_outside p HighToLow_bytes (SetPWM_stored eb (p + 4) (unat st) ?dc m) m"
    unfolding m2 using o1 by (auto simp: HighToLow_bytes_def intro!: same_outside_store)
qed

text \<open>Every command: from its bytes the decoder leaves the command in the structure, and nothing outside it changes.\<close>

lemma decode_command:
  assumes eb: "enum_size eb" and p: "p \<noteq> 0" and small: "small_command c"
    and stream: "stream_has (command_wire c) s" "bytes_left (istr s) = length (command_wire c)"
    and un: "unread p HighToLow_bytes s"
  shows "\<exists>m. run_state (pb_decode_inner env (Suc (Suc n)) (HighToLow_msg eb) p 0) s =
      (True, (advance (length (command_wire c)) s)\<lparr>mem := m\<rparr>) \<and> command_at eb p m c \<and> same_outside p HighToLow_bytes m (mem s)"
proof -
  note f = HighToLow_fields [where p = p and eb = eb]
  have nil: "\<not> has_defaults (PB_BIND [] 0 No_callback)" "\<not> has_defaults (SetPWM_msg eb)"
    by (simp_all add: plain_defaults_free SetPWM_msg_def SetPWM_FIELDLIST_def singular_field_def)
  have empty: "\<exists>m. run_state (pb_decode_inner env (Suc (Suc n)) (HighToLow_msg eb) p 0) s =
      (True, (advance 2 s)\<lparr>mem := m\<rparr>) \<and> command_at eb p m c' \<and> same_outside p HighToLow_bytes m (mem s)"
    if i: "2 \<le> i" "i < 5" and st: "stream_has [of_nat (8 * Suc i + 2), 0] s" "bytes_left (istr s) = 2"
      and c': "\<And>m. load_word 2 m p = (of_nat (Suc i) :: uint16) \<Longrightarrow> command_at eb p m c'" for i c'
  proof -
    have "i \<noteq> 1" using i by simp
    have sub: "\<exists>m. run_state (pb_decode_inner env (Suc n) (PB_BIND [] 0 No_callback) (p + 4) PB_DECODE_NOINIT) s' =
        (True, (advance (length ([] :: uint8 list)) s')\<lparr>mem := m\<rparr>) \<and> command_at eb p m c' \<and> same_outside p HighToLow_bytes m (mem s')"
      if "bytes_left (istr s') = length ([] :: uint8 list)" "load_word 2 (mem s') p = (of_nat (Suc i) :: uint16)" for s'
      using that c' [of "mem s'"]
      by (intro exI [of _ "mem s'"]) (simp add: decode_empty del: pb_decode_inner.simps of_nat_Suc)
    have "\<exists>m. run_state (pb_decode_inner env (Suc (Suc n)) (HighToLow_msg eb) p 0) s =
        (True, (advance (Suc (Suc (length ([] :: uint8 list)))) s)\<lparr>mem := m\<rparr>) \<and>
        command_at eb p m c' \<and> same_outside p HighToLow_bytes m (mem s)"
      by (rule decode_HighToLow_submessage [OF p i(2) \<open>i \<noteq> 1\<close> _ _ _ un f(11) [OF i] nil(1) sub])
        (use st in simp_all)
    then show ?thesis by (simp add: numeral_2_eq_2 del: pb_decode_inner.simps)
  qed
  show ?thesis
  proof (cases c)
    case (Set_pwm st dc)
    let ?w = "SetPWM_wire (unat st) (le_bytes 4 dc)"
    have st: "unat st < 128" and len: "length ?w < 128"
      using small SetPWM_wire_length [of "le_bytes 4 dc" "unat st"] by (simp_all add: Set_pwm small_command_def)
    have "\<exists>m. run_state (pb_decode_inner env (Suc n) (SetPWM_msg eb) (p + 4) PB_DECODE_NOINIT) s' =
        (True, (advance (length ?w) s')\<lparr>mem := m\<rparr>) \<and> command_at eb p m c \<and> same_outside p HighToLow_bytes m (mem s')"
      if h: "stream_has ?w s'" "bytes_left (istr s') = length ?w" "unread p HighToLow_bytes s'"
        "load_word 2 (mem s') p = (of_nat (Suc 0) :: uint16)" "load (mem s') (p + 4) 8 = replicate 8 0" for s'
    proof -
      have "unread (p + 4) 8 s'" using h(3) by (rule unread_mono) (simp_all add: HighToLow_bytes_def)
      then show ?thesis
        using decode_SetPWM [OF eb _ st _ h(1,2), of "p + 4" env n] h(2,4) SetPWM_stored_at [OF eb h(5) _ st, of dc]
        by (intro exI [of _ "SetPWM_stored eb (p + 4) (unat st) (le_bytes 4 dc) (mem s')"])
          (simp add: Set_pwm del: pb_decode_inner.simps)
    qed
    then have "\<exists>m. run_state (pb_decode_inner env (Suc (Suc n)) (HighToLow_msg eb) p 0) s =
        (True, (advance (Suc (Suc (length ?w))) s)\<lparr>mem := m\<rparr>) \<and> command_at eb p m c \<and> same_outside p HighToLow_bytes m (mem s)"
      by (intro decode_HighToLow_submessage [OF p _ _ len _ _ un f(9) nil(2)])
        (use stream in \<open>simp_all add: Set_pwm command_wire_def Let_def\<close>)
    then show ?thesis
      by (simp add: Set_pwm command_wire_def Let_def del: pb_decode_inner.simps)
  next
    case (Allow_power_on b)
    then show ?thesis
      using stream decode_HighToLow_allow [OF p, of b s env n eb] un by (simp add: command_wire_def numeral_2_eq_2)
  next
    case Enable
    then show ?thesis
      using stream empty [of 2 Enable] by (simp add: command_wire_def numeral_2_eq_2 command_at_def command_tag_def)
  next
    case Disable
    then show ?thesis
      using stream empty [of 3 Disable] by (simp add: command_wire_def numeral_2_eq_2 command_at_def command_tag_def)
  next
    case Cpu_heartbeat
    then show ?thesis
      using stream empty [of 4 Cpu_heartbeat] by (simp add: command_wire_def numeral_2_eq_2 command_at_def command_tag_def)
  qed
qed

section \<open>Events\<close>

definition event_at :: "uint32 \<Rightarrow> nat \<Rightarrow> mem \<Rightarrow> nat \<Rightarrow> bool" where
  "event_at eb p m v \<longleftrightarrow>
     load_word 2 m p = LowToHigh_event_tag \<and> uint_at m (l2h_union_at eb p) (unat eb) = v"

definition event_wire :: "nat \<Rightarrow> uint8 list" where
  "event_wire v = [0x08, of_nat v]"

lemma encode_event:
  assumes "enum_size eb" "p \<noteq> 0" "event_at eb p (mem s) v" "v < 128"
    and "room env LowToHigh_size s" "apart LowToHigh_size p LowToHigh_bytes s"
  shows "run_state (pb_encode env (Suc n) (LowToHigh_msg eb) p) s = (True, emit (event_wire v) s)"
  using encode_LowToHigh_event [of eb p s v env n] assms
  by (simp add: event_at_def event_wire_def LowToHigh_size_def)

lemma decode_event:
  assumes eb: "enum_size eb" and p: "p \<noteq> 0" and v: "v < 128"
    and stream: "stream_has (event_wire v) s" "bytes_left (istr s) = length (event_wire v)"
    and un: "unread p LowToHigh_bytes s"
  shows "\<exists>m. run_state (pb_decode_inner env (Suc (Suc n)) (LowToHigh_msg eb) p 0) s =
      (True, (advance (length (event_wire v)) s)\<lparr>mem := m\<rparr>) \<and> event_at eb p m v \<and> same_outside p LowToHigh_bytes m (mem s)"
proof -
  let ?fs = "LowToHigh_FIELDLIST eb" and ?u = "l2h_union_at eb p"
  let ?fl = "field_of ?fs 0 No_callback p 0"
  let ?s1 = "(advance 1 s)\<lparr>fixed_count_size := 0, mem := store p [0, 0] (mem s)\<rparr>"
  let ?m1 = "select p 1 (store p [0, 0] (mem s))"
  let ?m2 = "store ?u (le_bytes (unat eb) (of_nat v :: uint64)) ?m1"
  note f = LowToHigh_fields [OF eb, of p] and r = l2h_union_range [OF eb, of p]
  have len: "0 < length ?fs" by (simp add: LowToHigh_FIELDLIST_def)
  note u = union_field_of [OF union_LowToHigh [OF eb] len, of 0 No_callback p]
  have nosub: "\<not> PB_LTYPE_IS_SUBMSG (ftype ?fl)" using f(1) by (simp add: PB_LTYPE_IS_SUBMSG_def pb_types)
  have eb': "1 \<le> unat eb" "unat eb \<le> 4" "?u + unat eb \<le> p + LowToHigh_bytes"
    using eb r by (auto simp: enum_size_def)
  have o1: "same_outside p LowToHigh_bytes ?m1 (mem s)" and o2: "same_outside p LowToHigh_bytes ?m2 (mem s)"
    using r eb' by (auto simp: select_def LowToHigh_bytes_def intro!: same_outside_store)
  have un1: "unread p LowToHigh_bytes (advance 1 s)"
    by (rule unread_advance [OF un]) (simp add: stream(2) event_wire_def)
  have two: "stream_has [0x08] s" "stream_has [of_nat v] (advance 1 s)"
    using stream(1) by (simp_all add: event_wire_def stream_has_Cons)
  have lv: "leb128 v = [of_nat v]" using v by (simp add: leb128_small)
  have st: "stream_has (leb128 v) (?s1\<lparr>mem := ?m1\<rparr>)"
    using stream_same_outside [OF un1, of ?m1 "[of_nat v]"] two(2) o1 by (simp add: lv stream_has_def)
  have "v < 2 ^ (8 * unat (data_size ?fl))"
    using v eb by (auto simp: f enum_size_def)
  from decode_uvarint_field [OF f(1) _ st this, of env "pb_decode_inner env (Suc n)"]
  have "run_state (decode_basic_field env (pb_decode_inner env (Suc n)) PB_WT_VARINT ?fl) (?s1\<lparr>mem := ?m1\<rparr>) =
      (True, (advance 1 ?s1)\<lparr>mem := ?m2\<rparr>)"
    using enum_size_cases [OF eb] by (simp add: f lv advance_updates)
  then have field: "run_state (decode_field env (pb_decode_inner env (Suc n)) (pb_message_set_to_defaults env (Suc n)) (of_nat 0) ?fl) ?s1 =
      (True, (advance 1 ?s1)\<lparr>mem := ?m2\<rparr>)"
    using decode_oneof_field [OF u(1,2) nosub u(5)] by (simp add: f pb_wire_types del: pb_decode_inner.simps)
  have "run_state (pb_decode_inner env (Suc (Suc n)) (LowToHigh_msg eb) p 0) s =
      (True, (advance 1 ?s1)\<lparr>mem := ?m2, fixed_count_size := fixed_count_size s\<rparr>)"
    unfolding LowToHigh_msg_def
    by (rule decode_union [OF union_LowToHigh [OF eb] p len, of 1 0, OF _ _ _ _ _ _ field])
      (use two stream(2) un in \<open>auto simp: field_list_defs tag_bytes_small advance_def unread_def LowToHigh_bytes_def event_wire_def\<close>)
  moreover have "(advance 1 ?s1)\<lparr>mem := ?m2, fixed_count_size := fixed_count_size s\<rparr> =
      (advance (length (event_wire v)) s)\<lparr>mem := ?m2\<rparr>"
    by (simp add: advance_def event_wire_def)
  moreover have "event_at eb p ?m2 v"
  proof -
    have "load ?m2 p 2 = le_bytes 2 (1 :: uint16)"
      using load_store_disjoint [of p 2 ?u _ ?m1] r load_select by simp
    then show ?thesis
      using uint_at_store [OF v, of "unat eb" ?u ?m1] eb' le_word_bytes [of 2 "1 :: uint16"]
      by (simp add: event_at_def load_word_def message_tags)
  qed
  ultimately show ?thesis
    using o2 by (intro exI [of _ ?m2] conjI) (simp_all only:)
qed

end
