(* ===== verification/Board_Support.thy ===== *)
theory Board_Support
  imports Pb_Messages
begin

text \<open>
  The EVerest side of the link: \<open>RPMsgLink\<close> and \<open>board_support_ACImpl\<close> of
  \<open>everest-module/modules/TiAM625SDK/board_support/board_support_ACImpl.cpp\<close>. The
  operating system and the EVerest framework are the record \<open>host_os\<close>, a parameter.
\<close>

section \<open>The host\<close>

datatype everest_event =
    ET_CarPluggedIn | ET_CarRequestedPower | ET_CarRequestedStopPower | ET_CarUnplugged
  | ET_EFtoBCD | ET_ErrorDF | ET_ErrorE | ET_ErrorOverCurrent | ET_ErrorRCD | ET_ErrorRelais
  | ET_ErrorVentilationNotAvailable | ET_EvseReplugFinished | ET_EvseReplugStarted | ET_BCDtoEF
  | ET_PermanentFault | ET_PowerOff | ET_PowerOn

text \<open>
  \<open>os_write\<close> and \<open>os_read\<close> are \<open>write(fd, ...)\<close> and \<open>read(fd, ...)\<close> on the endpoint
  with their results; a read of \<open>n\<close> bytes delivers the bytes it has read, an error is
  \<open>None\<close>.
\<close>

record 'os host_os =
  os_char_init :: "('os, bool) state"
  os_char_open :: "nat \<Rightarrow> string \<Rightarrow> ('os, bool) state"
  os_write :: "uint8 list \<Rightarrow> ('os, int) state"
  os_read :: "nat \<Rightarrow> ('os, uint8 list option) state"
  os_publish_event :: "everest_event \<Rightarrow> ('os, unit) state"
  os_log :: "string \<Rightarrow> ('os, unit) state"

text \<open>Where the message structures and the two buffers of the link lie.\<close>

record host_cfg =
  h_pb_lib :: pb_env
  h_enum_bytes :: uint32
  h_out_at :: nat
  h_out_buf_at :: nat
  h_in_at :: nat
  h_in_buf_at :: nat

record 'os host =
  h_os :: 'os
  h_mem :: mem

definition on_os :: "('os, 'a) state \<Rightarrow> ('os host, 'a) state" where
  "on_os m = State (\<lambda>h. case run_state m (h_os h) of (a, w) \<Rightarrow> (a, h\<lparr>h_os := w\<rparr>))"

lemma run_on_os [simp]:
  "run_state (on_os m) h = (fst (run_state m (h_os h)), h\<lparr>h_os := snd (run_state m (h_os h))\<rparr>)"
  by (simp add: on_os_def split: prod.splits)

definition MCU_ENDPOINT_NUMBER :: nat where "MCU_ENDPOINT_NUMBER = 14"
definition MAX_RPMSG_BUFFER_SIZE :: nat where "MAX_RPMSG_BUFFER_SIZE = 512"
definition host_pb_fuel :: nat where "host_pb_fuel = 3"

definition host_pb :: "mem \<Rightarrow> ostream \<Rightarrow> istream \<Rightarrow> pb" where
  "host_pb m os is = \<lparr> mem = m, ostr = os, istr = is, fixed_count_size = 0, stuck = False \<rparr>"

section \<open>The link\<close>

text \<open>\<open>push_message(out)\<close> with \<open>out\<close> at \<open>h_out_at\<close>.\<close>

definition host_encode :: "host_cfg \<Rightarrow> ('os host, uint8 list) state" where
  "host_encode cfg = State (\<lambda>h.
     case run_state
       (pb_encode (h_pb_lib cfg) host_pb_fuel (HighToLow_msg (h_enum_bytes cfg)) (h_out_at cfg))
       (host_pb (h_mem h) (pb_ostream_from_buffer (h_out_buf_at cfg) MAX_RPMSG_BUFFER_SIZE)
          \<lparr> is_state = 0, bytes_left = 0, is_errmsg = None \<rparr>)
     of (_, s) \<Rightarrow> (load (mem s) (h_out_buf_at cfg) (bytes_written (ostr s)), h\<lparr>h_mem := mem s\<rparr>))"

definition push_message :: "'os host_os \<Rightarrow> host_cfg \<Rightarrow> ('os host, bool) state" where
  "push_message os cfg = do {
     bs \<leftarrow> host_encode cfg;
     n \<leftarrow> on_os (os_write os bs);
     State_Monad.return (n = int (length bs))
   }"

definition put_high_to_low :: "host_cfg \<Rightarrow> uint8 list \<Rightarrow> ('os host, unit) state" where
  "put_high_to_low cfg bs = modify (\<lambda>h. h\<lparr>h_mem := store (h_out_at cfg) bs (h_mem h)\<rparr>)"

text \<open>\<open>setup_connection\<close>; the structure it sends is uninitialised but for its tag.\<close>

definition setup_connection :: "'os host_os \<Rightarrow> host_cfg \<Rightarrow> ('os host, bool) state" where
  "setup_connection os cfg = do {
     ok \<leftarrow> on_os (os_char_init os);
     if \<not> ok then do { on_os (os_log os ''rpmsg_char_init failed''); State_Monad.return False }
     else do {
       ok \<leftarrow> on_os (os_char_open os MCU_ENDPOINT_NUMBER ''my_ep_name'');
       if \<not> ok then do { on_os (os_log os ''rpmsg_char_open failed''); State_Monad.return False }
       else do {
         on_os (os_log os ''Succesfully open rpmsg_char device'');
         put_high_to_low cfg (le_bytes 2 HighToLow_heartbeat_tag);
         ignore (push_message os cfg);
         State_Monad.return True
       }
     }
   }"

section \<open>Events from the firmware\<close>

text \<open>The \<open>convert\<close> of \<open>handle_low_to_high_message\<close>, on the raw value of the field.\<close>

definition convert_iec_event :: "uint32 \<Rightarrow> everest_event" where
  "convert_iec_event v =
     (if v = iec_event_value IEC61851Event_CAR_PLUGGED_IN then ET_CarPluggedIn
      else if v = iec_event_value IEC61851Event_CAR_REQUESTED_POWER then ET_CarRequestedPower
      else if v = iec_event_value IEC61851Event_CAR_REQUESTED_STOP_POWER then ET_CarRequestedStopPower
      else if v = iec_event_value IEC61851Event_CAR_UNPLUGGED then ET_CarUnplugged
      else if v = iec_event_value IEC61851Event_EF_TO_BCD then ET_EFtoBCD
      else if v = iec_event_value IEC61851Event_ERROR_DF then ET_ErrorDF
      else if v = iec_event_value IEC61851Event_ERROR_E then ET_ErrorE
      else if v = iec_event_value IEC61851Event_ERROR_OVER_CURRENT then ET_ErrorOverCurrent
      else if v = iec_event_value IEC61851Event_ERROR_RCD then ET_ErrorRCD
      else if v = iec_event_value IEC61851Event_ERROR_RELAIS then ET_ErrorRelais
      else if v = iec_event_value IEC61851Event_ERROR_VENTILATION_NOT_AVAILABLE
      then ET_ErrorVentilationNotAvailable
      else if v = iec_event_value IEC61851Event_EVSE_REPLUG_FINISHED then ET_EvseReplugFinished
      else if v = iec_event_value IEC61851Event_EVSE_REPLUG_STARTED then ET_EvseReplugStarted
      else if v = iec_event_value IEC61851Event_BCD_TO_EF then ET_BCDtoEF
      else if v = iec_event_value IEC61851Event_PERMANENT_FAULT then ET_PermanentFault
      else if v = iec_event_value IEC61851Event_POWER_OFF then ET_PowerOff
      else if v = iec_event_value IEC61851Event_POWER_ON then ET_PowerOn
      else ET_PermanentFault)"

definition handle_low_to_high_message :: "'os host_os \<Rightarrow> host_cfg \<Rightarrow> ('os host, unit) state" where
  "handle_low_to_high_message os cfg = do {
     m \<leftarrow> gets h_mem;
     let which = (load_word 2 m (h_in_at cfg) :: uint16) in
     if which = LowToHigh_event_tag then
       on_os (os_publish_event os (convert_iec_event
         (load_word (unat (h_enum_bytes cfg)) m
            (h_in_at cfg + unat (LowToHigh_union (h_enum_bytes cfg))))))
     else if which = LowToHigh_heartbeat_tag then on_os (os_log os ''Received heartbeat from MCU'')
     else on_os (os_log os ''Received unknown message via RPMsg'')
   }"

text \<open>\<open>pb_decode\<close> of the bytes read into \<open>in_buf\<close>, into the structure at \<open>h_in_at\<close>.\<close>

definition host_decode :: "host_cfg \<Rightarrow> uint8 list \<Rightarrow> ('os host, bool) state" where
  "host_decode cfg bs = State (\<lambda>h.
     case run_state
       (pb_decode (h_pb_lib cfg) host_pb_fuel (LowToHigh_msg (h_enum_bytes cfg)) (h_in_at cfg))
       (host_pb (store (h_in_buf_at cfg) bs (h_mem h)) PB_OSTREAM_SIZING
          (pb_istream_from_buffer (h_in_buf_at cfg) (length bs)))
     of (ok, s) \<Rightarrow> (ok, h\<lparr>h_mem := mem s\<rparr>))"

text \<open>One round of \<open>receive\<close>; \<open>False\<close> is the return from the loop after a read error.\<close>

definition receive_round :: "'os host_os \<Rightarrow> host_cfg \<Rightarrow> ('os host, bool) state" where
  "receive_round os cfg = do {
     r \<leftarrow> on_os (os_read os MAX_RPMSG_BUFFER_SIZE);
     case r of
       None \<Rightarrow> do { on_os (os_log os ''RPMsgLink input error''); State_Monad.return False }
     | Some [] \<Rightarrow> do { on_os (os_log os ''RPMsgLink input error''); State_Monad.return False }
     | Some (b # bs) \<Rightarrow> do {
         ok \<leftarrow> host_decode cfg (b # bs);
         if \<not> ok then do {
           on_os (os_log os ''RPMsgLink received corrupt data packet'');
           State_Monad.return True
         } else do {
           handle_low_to_high_message os cfg;
           State_Monad.return True
         }
       }
   }"

section \<open>Commands of EVerest\<close>

text \<open>\<open>HighToLow out = HighToLow_init_zero\<close>: all twelve bytes of the structure are zero.\<close>

definition HighToLow_sizeof :: nat where "HighToLow_sizeof = 12"

definition init_zero :: "host_cfg \<Rightarrow> ('os host, unit) state" where
  "init_zero cfg = put_high_to_low cfg (replicate HighToLow_sizeof 0)"

definition set_out :: "host_cfg \<Rightarrow> nat \<Rightarrow> uint8 list \<Rightarrow> ('os host, unit) state" where
  "set_out cfg off bs = modify (\<lambda>h. h\<lparr>h_mem := store (h_out_at cfg + off) bs (h_mem h)\<rparr>)"

definition set_which :: "host_cfg \<Rightarrow> uint16 \<Rightarrow> ('os host, unit) state" where
  "set_which cfg t = set_out cfg 0 (le_bytes 2 t)"

definition set_pwm_state :: "host_cfg \<Rightarrow> uint32 \<Rightarrow> ('os host, unit) state" where
  "set_pwm_state cfg st = set_out cfg 4 (le_bytes (unat (h_enum_bytes cfg)) st)"

definition handle_enable :: "'os host_os \<Rightarrow> host_cfg \<Rightarrow> bool \<Rightarrow> ('os host, unit) state" where
  "handle_enable os cfg val = do {
     init_zero cfg;
     set_which cfg (if val then HighToLow_enable_tag else HighToLow_disable_tag);
     ignore (push_message os cfg)
   }"

text \<open>The argument is a \<open>double\<close>; the assignment to the \<open>float\<close> member narrows it.\<close>

definition handle_pwm_on :: "'os host_os \<Rightarrow> host_cfg \<Rightarrow> float64 \<Rightarrow> ('os host, unit) state" where
  "handle_pwm_on os cfg val = do {
     init_zero cfg;
     set_which cfg HighToLow_set_pwm_tag;
     set_out cfg 8 (le_bytes 4 (f32_of_f64 val));
     set_pwm_state cfg PWMState_ON;
     ignore (push_message os cfg)
   }"

definition handle_pwm_off :: "'os host_os \<Rightarrow> host_cfg \<Rightarrow> ('os host, unit) state" where
  "handle_pwm_off os cfg = do {
     init_zero cfg;
     set_which cfg HighToLow_set_pwm_tag;
     set_pwm_state cfg PWMState_OFF;
     ignore (push_message os cfg)
   }"

definition handle_pwm_F :: "'os host_os \<Rightarrow> host_cfg \<Rightarrow> ('os host, unit) state" where
  "handle_pwm_F os cfg = do {
     init_zero cfg;
     set_which cfg HighToLow_set_pwm_tag;
     set_pwm_state cfg PWMState_F;
     ignore (push_message os cfg)
   }"

definition handle_allow_power_on :: "'os host_os \<Rightarrow> host_cfg \<Rightarrow> bool \<Rightarrow> ('os host, unit) state" where
  "handle_allow_power_on os cfg val = do {
     init_zero cfg;
     set_which cfg HighToLow_allow_power_on_tag;
     set_out cfg 4 [of_bool val];
     ignore (push_message os cfg)
   }"

text \<open>The commands that the hardware does not support.\<close>

definition handle_force_unlock :: "('os host, bool) state" where
  "handle_force_unlock = State_Monad.return True"

definition handle_setup :: "bool \<Rightarrow> bool \<Rightarrow> string \<Rightarrow> bool \<Rightarrow> ('os host, unit) state" where
  "handle_setup three_phases has_ventilation country_code rcd_enabled = State_Monad.return ()"

definition handle_switch_three_phases_while_charging :: "bool \<Rightarrow> ('os host, unit) state" where
  "handle_switch_three_phases_while_charging val = State_Monad.return ()"

definition handle_evse_replug :: "int \<Rightarrow> ('os host, unit) state" where
  "handle_evse_replug val = State_Monad.return ()"

definition handle_read_pp_ampacity :: "('os host, fval) state" where
  "handle_read_pp_ampacity = State_Monad.return (f64_of_int 16)"

record hardware_capabilities =
  max_current_A_import :: int
  max_current_A_export :: int
  max_phase_count_import :: int
  max_phase_count_export :: int
  min_current_A_import :: int
  min_current_A_export :: int
  min_phase_count_import :: int
  min_phase_count_export :: int
  supports_changing_phases_during_charging :: bool

definition handle_get_hw_capabilities :: "('os host, hardware_capabilities) state" where
  "handle_get_hw_capabilities = State_Monad.return
     \<lparr> max_current_A_import = 16, max_current_A_export = 0, max_phase_count_import = 3,
       max_phase_count_export = 3, min_current_A_import = 6, min_current_A_export = 0,
       min_phase_count_import = 3, min_phase_count_export = 3,
       supports_changing_phases_during_charging = False \<rparr>"

section \<open>Start\<close>

text \<open>\<open>init\<close>: \<open>False\<close> is the exception. \<open>ready\<close> only starts the receiving thread.\<close>

definition board_support_init :: "'os host_os \<Rightarrow> host_cfg \<Rightarrow> ('os host, bool) state" where
  "board_support_init os cfg = setup_connection os cfg"

end
