(* ===== verification/Message_Link.thy ===== *)
theory Message_Link
  imports Command_Codec Main_Loop Board_Support
begin

text \<open>
  The link between the two processors, end to end: what a handler of the EVerest module
  writes to the endpoint, the firmware performs, and what the state machine reports, EVerest
  is told.
\<close>

section \<open>The firmware receives a command\<close>

text \<open>The layout of the firmware's buffers: no structure at address 0, none on top of another.\<close>

definition fw_layout :: "fw_cfg \<Rightarrow> bool" where
  "fw_layout cfg \<longleftrightarrow>
     enum_size (enum_bytes cfg) \<and> input_at cfg \<noteq> 0 \<and> out_at cfg \<noteq> 0 \<and>
     (input_at cfg + HighToLow_bytes \<le> msg_buffer_at cfg \<or> msg_buffer_at cfg + HighToLow_size \<le> input_at cfg) \<and>
     (out_at cfg + LowToHigh_bytes \<le> encode_buf_at cfg \<or> encode_buf_at cfg + LowToHigh_size \<le> out_at cfg) \<and>
     LowToHigh_size < 2 ^ size_bits (pb_lib cfg)"

lemma decode_input_command:
  assumes cfg: "fw_layout cfg" and c: "small_command c"
  shows "\<exists>m. run_state (decode_input cfg (command_wire c)) f = (True, f\<lparr>stack := m\<rparr>) \<and>
     command_at (enum_bytes cfg) (input_at cfg) m c"
proof -
  let ?bs = "command_wire c" and ?m = "store (msg_buffer_at cfg) (command_wire c) (stack f)"
  let ?s = "pb_on ?m PB_OSTREAM_SIZING (pb_istream_from_buffer (msg_buffer_at cfg) (length ?bs))"
  have s: "mem ?s = ?m" "is_state (istr ?s) = msg_buffer_at cfg" "bytes_left (istr ?s) = length ?bs"
    by (simp_all add: pb_on_def pb_istream_from_buffer_def)
  have "stream_has ?bs ?s"
    by (simp add: stream_has_def s load_store_same)
  moreover have "unread (input_at cfg) HighToLow_bytes ?s"
    using cfg command_wire_length(1) [of c] by (auto simp: unread_def s fw_layout_def)
  ultimately obtain m where "run_state (pb_decode (pb_lib cfg) pb_fuel (HighToLow_msg (enum_bytes cfg)) (input_at cfg)) ?s =
      (True, (advance (length ?bs) ?s)\<lparr>mem := m\<rparr>)" "command_at (enum_bytes cfg) (input_at cfg) m c"
    using decode_command [of "enum_bytes cfg" "input_at cfg" c ?s "pb_lib cfg" 1] cfg c s
    by (auto simp: fw_layout_def pb_decode_def pb_fuel_def numeral_3_eq_3 simp del: pb_decode_inner.simps)
  then show ?thesis
    by (intro exI [of _ m]) (simp add: decode_input_def)
qed

text \<open>What a command asks the state machine to do.\<close>

definition perform :: "'hw sdk \<Rightarrow> ('hw fw) fsm_env \<Rightarrow> command \<Rightarrow> (('hw fw) fsm_sys, unit) state" where
  "perform sdk env c =
     (case c of
        Set_pwm st dc \<Rightarrow>
          if st = PWMState_F then fsm_set_pwm_f env
          else if st = PWMState_OFF then fsm_set_pwm_off env
          else if_then (st = PWMState_ON) (fsm_set_pwm_on env dc)
      | Allow_power_on b \<Rightarrow> fsm_allow_power_on b
      | Enable \<Rightarrow> fsm_enable env
      | Disable \<Rightarrow> fsm_disable env
      | Cpu_heartbeat \<Rightarrow> on_hal (on_drv_hw (debug_log sdk ''Received a heartbeat from the CPU'')))"

lemma in_pwm_state:
  assumes "enum_size eb" "uint_at m p (unat eb) = unat (st :: uint32)"
  shows "load_word (unat eb) m p = st"
proof -
  have "8 * length (load m p (unat eb)) \<le> 64" "8 * length (load m p (unat eb)) \<le> 32"
    using enum_size_le [OF assms(1)] by auto
  then have "(ucast (le_word (load m p (unat eb)) :: uint64) :: uint32) = load_word (unat eb) m p"
    unfolding load_word_def by (intro le_word_ucast) simp_all
  moreover have "(le_word (load m p (unat eb)) :: uint64) = ucast st"
    using arg_cong [OF assms(2), of "of_nat :: nat \<Rightarrow> uint64"] by (simp add: uint_at_def of_nat_unat)
  moreover have "(ucast (ucast st :: uint64) :: uint32) = st"
    by (rule bit_word_eqI) (auto simp: bit_ucast_iff)
  ultimately show ?thesis by simp
qed

lemma handle_command:
  assumes eb: "enum_size (enum_bytes cfg)" and at: "command_at (enum_bytes cfg) (input_at cfg) (stack (wld s)) c"
  shows "run_state (handle_incoming_message sdk cfg env) s = run_state (perform sdk env c) s"
proof -
  have w: "in_which cfg (stack (wld s)) = of_nat (command_tag c)"
    using at by (simp add: command_at_def in_which_def)
  show ?thesis
  proof (cases c)
    case (Set_pwm st dc)
    then have v: "in_pwm_state cfg (stack (wld s)) = st" "in_duty_cycle cfg (stack (wld s)) = dc"
      using at in_pwm_state [OF eb, of "stack (wld s)" "input_at cfg + 4" st] le_word_bytes [of 4 dc]
      by (simp_all add: command_at_def in_pwm_state_def in_duty_cycle_def load_word_def)
    show ?thesis
      by (simp add: handle_incoming_message_def perform_def w v Set_pwm command_tag_def message_tags if_then_def)
  qed (use at in \<open>simp_all add: handle_incoming_message_def perform_def w command_tag_def message_tags
        in_allow_power_on_def command_at_def if_then_def\<close>)
qed


section \<open>The host sends a command\<close>

definition host_layout :: "host_cfg \<Rightarrow> bool" where
  "host_layout cfg \<longleftrightarrow>
     enum_size (h_enum_bytes cfg) \<and> h_out_at cfg \<noteq> 0 \<and> h_in_at cfg \<noteq> 0 \<and>
     (h_out_at cfg + HighToLow_bytes \<le> h_out_buf_at cfg \<or> h_out_buf_at cfg + MAX_RPMSG_BUFFER_SIZE \<le> h_out_at cfg) \<and>
     (h_in_at cfg + LowToHigh_bytes \<le> h_in_buf_at cfg \<or> h_in_buf_at cfg + MAX_RPMSG_BUFFER_SIZE \<le> h_in_at cfg) \<and>
     HighToLow_size < 2 ^ size_bits (h_pb_lib cfg)"

lemma host_encode_command:
  assumes cfg: "host_layout cfg" and c: "small_command c"
    and at: "command_at (h_enum_bytes cfg) (h_out_at cfg) (h_mem h) c"
  shows "\<exists>m. run_state (host_encode cfg) h = (command_wire c, h\<lparr>h_mem := m\<rparr>)"
proof -
  let ?s = "host_pb (h_mem h) (pb_ostream_from_buffer (h_out_buf_at cfg) MAX_RPMSG_BUFFER_SIZE)
          \<lparr> is_state = 0, bytes_left = 0, is_errmsg = None \<rparr>"
  note l = command_wire_length(1) [of c]
  have s: "mem ?s = h_mem h" "os_callback (ostr ?s) = Os_buf_write" "os_errmsg (ostr ?s) = None"
    "os_state (ostr ?s) = h_out_buf_at cfg" "bytes_written (ostr ?s) = 0" "max_size (ostr ?s) = MAX_RPMSG_BUFFER_SIZE"
    by (simp_all add: host_pb_def pb_ostream_from_buffer_def)
  have r: "room (h_pb_lib cfg) (length (command_wire c)) ?s"
    using l cfg unfolding room_def s by (simp add: host_layout_def HighToLow_size_def MAX_RPMSG_BUFFER_SIZE_def)
  have a: "apart (length (command_wire c)) (h_out_at cfg) HighToLow_bytes ?s"
    using l cfg unfolding apart_def s
    by (auto simp: host_layout_def HighToLow_size_def MAX_RPMSG_BUFFER_SIZE_def)
  have "run_state (pb_encode (h_pb_lib cfg) host_pb_fuel (HighToLow_msg (h_enum_bytes cfg)) (h_out_at cfg)) ?s =
      (True, emit (command_wire c) ?s)"
    unfolding host_pb_fuel_def numeral_3_eq_3
    by (rule encode_command [OF _ _ _ c r a s(2,3)]) (use cfg at s in \<open>simp_all add: host_layout_def\<close>)
  moreover have "load (mem (emit (command_wire c) ?s)) (h_out_buf_at cfg) (bytes_written (ostr (emit (command_wire c) ?s))) = command_wire c"
    by (simp add: emit_def s load_store_same)
  ultimately show ?thesis
    by (intro exI [of _ "mem (emit (command_wire c) ?s)"]) (simp add: host_encode_def)
qed

text \<open>A handler has written \<open>c\<close> when the endpoint has been given exactly the bytes of \<open>c\<close>.\<close>

definition sends :: "'os host_os \<Rightarrow> command \<Rightarrow> 'os host \<Rightarrow> 'os host \<Rightarrow> bool" where
  "sends os c h h' \<longleftrightarrow> h_os h' = snd (run_state (os_write os (command_wire c)) (h_os h))"

lemma push_message_sends:
  assumes "host_layout cfg" "small_command c" "command_at (h_enum_bytes cfg) (h_out_at cfg) (h_mem h) c"
  shows "sends os c h (snd (run_state (push_message os cfg) h))"
  using host_encode_command [OF assms] by (auto simp: push_message_def sends_def)

lemma le_bytes_ucast:
  assumes "8 * n \<le> LENGTH('a)" "8 * n \<le> LENGTH('b)"
  shows "le_bytes n (ucast (w :: 'a::len word) :: 'b::len word) = le_bytes n w"
proof (rule nth_equalityI)
  fix i assume "i < length (le_bytes n (ucast w :: 'b word))"
  then have i: "i < n" by simp
  then have "8 * Suc i \<le> LENGTH('a)" "8 * Suc i \<le> LENGTH('b)" using assms by (auto intro: order_trans)
  then show "le_bytes n (ucast w :: 'b word) ! i = le_bytes n w ! i"
    using i by (intro bit_word_eqI) (auto simp: nth_le_bytes bit_ucast_iff bit_drop_bit_eq)
qed simp

lemma uint_at_enum:
  assumes "enum_size eb" "unat (st :: uint32) < 128"
  shows "uint_at (store a (le_bytes (unat eb) st) m) a (unat eb) = unat st"
proof -
  have n: "1 \<le> unat eb" "unat eb \<le> 4" using assms(1) by (auto simp: enum_size_def)
  then have "le_bytes (unat eb) st = le_bytes (unat eb) (of_nat (unat st) :: uint64)"
    using le_bytes_ucast [of "unat eb" st, where 'b = 64] by (simp add: of_nat_unat)
  then show ?thesis
    using uint_at_store [OF assms(2), of "unat eb" a m] n by simp
qed

text \<open>The structure as the handlers fill it: zeroed, the tag, then the members.\<close>

definition out_zero :: "nat \<Rightarrow> uint16 \<Rightarrow> mem \<Rightarrow> mem" where
  "out_zero p t m = store p (le_bytes 2 t) (store p (replicate HighToLow_sizeof 0) m)"

lemma out_zero_at:
  "load (out_zero p t m) p 2 = le_bytes 2 t" "load (out_zero p t m) (p + 8) 4 = [0, 0, 0, 0]"
  using load_store_same [of p "le_bytes 2 t"]
  by (simp_all add: out_zero_def load_def store_def HighToLow_sizeof_def upt_rec numeral_eq_Suc)

lemma out_tag:
  assumes "\<forall>(a, bs) \<in> set ws. p + 2 \<le> a"
  shows "load_word 2 (fold (\<lambda>(a, bs). store a bs) ws (out_zero p t m)) p = t"
proof -
  have "load (fold (\<lambda>(a, bs). store a bs) ws z) p 2 = load z p 2" for z
    using assms
  proof (induction ws arbitrary: z)
    case (Cons w ws)
    then show ?case by (cases w) (simp add: load_store_disjoint)
  qed simp
  then show ?thesis
    using le_word_bytes [of 2 t] by (simp add: load_word_def out_zero_at)
qed

lemma command_at_plain:
  "command_at eb p (out_zero p HighToLow_enable_tag m) Enable"
  "command_at eb p (out_zero p HighToLow_disable_tag m) Disable"
  "command_at eb p (out_zero p HighToLow_heartbeat_tag m) Cpu_heartbeat"
  using out_tag [of "[]" p _ m] by (simp_all add: command_at_def command_tag_def message_tags)

lemma command_at_allow:
  "command_at eb p (store (p + 4) [of_bool b] (out_zero p HighToLow_allow_power_on_tag m)) (Allow_power_on b)"
  using out_tag [of "[(p + 4, [of_bool b])]" p _ m]
  by (simp add: command_at_def command_tag_def message_tags) (simp add: store_def)

lemma command_at_set_pwm:
  assumes "enum_size eb" "unat st < 128"
  shows "command_at eb p (store (p + 4) (le_bytes (unat eb) st) (out_zero p HighToLow_set_pwm_tag m)) (Set_pwm st 0)"
    and "command_at eb p (store (p + 4) (le_bytes (unat eb) st) (store (p + 8) (le_bytes 4 dc) (out_zero p HighToLow_set_pwm_tag m)))
      (Set_pwm st dc)"
proof -
  have n: "unat eb \<le> 4" by (rule enum_size_le [OF assms(1)])
  have z: "le_bytes 4 (0 :: float32) = [0, 0, 0, 0]" by (simp add: numeral_eq_Suc)
  show "command_at eb p (store (p + 4) (le_bytes (unat eb) st) (out_zero p HighToLow_set_pwm_tag m)) (Set_pwm st 0)"
    using n out_tag [of "[(p + 4, le_bytes (unat eb) st)]" p _ m] out_zero_at(2) [of p HighToLow_set_pwm_tag m] z
      load_store_disjoint [of "p + 8" 4 "p + 4" "le_bytes (unat eb) st" "out_zero p HighToLow_set_pwm_tag m"]
    by (simp add: command_at_def command_tag_def uint_at_enum [OF assms]) (simp add: message_tags)
  show "command_at eb p (store (p + 4) (le_bytes (unat eb) st) (store (p + 8) (le_bytes 4 dc) (out_zero p HighToLow_set_pwm_tag m)))
      (Set_pwm st dc)"
    using n out_tag [of "[(p + 8, le_bytes 4 dc), (p + 4, le_bytes (unat eb) st)]" p _ m]
      load_store_same [of "p + 8" "le_bytes 4 dc"]
      load_store_disjoint [of "p + 8" 4 "p + 4" "le_bytes (unat eb) st" "store (p + 8) (le_bytes 4 dc) (out_zero p HighToLow_set_pwm_tag m)"]
    by (simp add: command_at_def command_tag_def uint_at_enum [OF assms]) (simp add: message_tags)
qed

text \<open>The commands EVerest gives, the handler of each, and what it is to send.\<close>

datatype everest_command =
    EC_enable bool | EC_pwm_on float64 | EC_pwm_off | EC_pwm_F | EC_allow_power_on bool

definition handle_everest :: "'os host_os \<Rightarrow> host_cfg \<Rightarrow> everest_command \<Rightarrow> ('os host, unit) state" where
  "handle_everest os cfg ec =
     (case ec of
        EC_enable b \<Rightarrow> handle_enable os cfg b
      | EC_pwm_on dc \<Rightarrow> handle_pwm_on os cfg dc
      | EC_pwm_off \<Rightarrow> handle_pwm_off os cfg
      | EC_pwm_F \<Rightarrow> handle_pwm_F os cfg
      | EC_allow_power_on b \<Rightarrow> handle_allow_power_on os cfg b)"

definition command_of :: "everest_command \<Rightarrow> command" where
  "command_of ec =
     (case ec of
        EC_enable b \<Rightarrow> if b then Enable else Disable
      | EC_pwm_on dc \<Rightarrow> Set_pwm PWMState_ON (f32_of_f64 dc)
      | EC_pwm_off \<Rightarrow> Set_pwm PWMState_OFF 0
      | EC_pwm_F \<Rightarrow> Set_pwm PWMState_F 0
      | EC_allow_power_on b \<Rightarrow> Allow_power_on b)"

lemma command_of_small: "small_command (command_of ec)"
  by (simp add: small_command_def command_of_def PWMState_ON_def PWMState_OFF_def PWMState_F_def
      split: everest_command.splits)

lemma handle_everest_sends:
  assumes "host_layout cfg"
  shows "sends os (command_of ec) h (snd (run_state (handle_everest os cfg ec) h))"
proof -
  have eb: "enum_size (h_enum_bytes cfg)" using assms by (simp add: host_layout_def)
  have push: "command_at (h_enum_bytes cfg) (h_out_at cfg) (h_mem h') (command_of ec) \<Longrightarrow>
      h_os (snd (run_state (push_message os cfg) h')) = snd (run_state (os_write os (command_wire (command_of ec))) (h_os h'))" for h'
    using push_message_sends [OF assms command_of_small, of h' ec os] by (simp add: sends_def)
  have st: "unat PWMState_ON < 128" "unat PWMState_OFF < 128" "unat PWMState_F < 128"
    by (simp_all add: PWMState_ON_def PWMState_OFF_def PWMState_F_def)
  note at = st command_at_plain command_at_allow command_at_set_pwm [OF eb] out_zero_def [symmetric]
  note defs = command_of_def handle_everest_def sends_def init_zero_def put_high_to_low_def set_which_def set_out_def
    set_pwm_state_def
  show ?thesis
  proof (cases ec)
    case (EC_enable b)
    show ?thesis
      using push [of "h\<lparr>h_mem := out_zero (h_out_at cfg) (if b then HighToLow_enable_tag else HighToLow_disable_tag) (h_mem h)\<rparr>"]
      by (simp add: EC_enable defs handle_enable_def at)
  next
    case (EC_pwm_on dc)
    show ?thesis
      using push [of "h\<lparr>h_mem := store (h_out_at cfg + 4) (le_bytes (unat (h_enum_bytes cfg)) PWMState_ON)
        (store (h_out_at cfg + 8) (le_bytes 4 (f32_of_f64 dc)) (out_zero (h_out_at cfg) HighToLow_set_pwm_tag (h_mem h)))\<rparr>"]
      by (simp add: EC_pwm_on defs handle_pwm_on_def at) 
  next
    case EC_pwm_off
    show ?thesis
      using push [of "h\<lparr>h_mem := store (h_out_at cfg + 4) (le_bytes (unat (h_enum_bytes cfg)) PWMState_OFF)
        (out_zero (h_out_at cfg) HighToLow_set_pwm_tag (h_mem h))\<rparr>"]
      by (simp add: EC_pwm_off defs handle_pwm_off_def at)
  next
    case EC_pwm_F
    show ?thesis
      using push [of "h\<lparr>h_mem := store (h_out_at cfg + 4) (le_bytes (unat (h_enum_bytes cfg)) PWMState_F)
        (out_zero (h_out_at cfg) HighToLow_set_pwm_tag (h_mem h))\<rparr>"]
      by (simp add: EC_pwm_F defs handle_pwm_F_def at)
  next
    case (EC_allow_power_on b)
    show ?thesis
      using push [of "h\<lparr>h_mem := store (h_out_at cfg + 4) [of_bool b]
        (out_zero (h_out_at cfg) HighToLow_allow_power_on_tag (h_mem h))\<rparr>"]
      by (simp add: EC_allow_power_on defs handle_allow_power_on_def at)
  qed
qed

section \<open>From the handler to the state machine\<close>

definition peer_known :: "uint16 \<Rightarrow> uint16 \<Rightarrow> 'hw fw \<Rightarrow> 'hw fw" where
  "peer_known core ep f =
     (if remote_peer_detected f then f
      else f\<lparr>remote_core_id := core, remote_end_point := ep, remote_peer_detected := True\<rparr>)"

lemma get_msg_command:
  assumes cfg: "fw_layout cfg" and c: "small_command c"
    and take: "run_state (sem_take sdk Pending_msgs (ms_to_ticks sdk t)) (hw (drvs f)) = (True, w1)"
    and recv: "run_state (rpmessage_recv sdk HighToLow_size) w1 = (Some (command_wire c, core, ep), w2)"
  shows "\<exists>m. run_state (get_msg sdk cfg t) f =
      (Some RPMsg_OK, (peer_known core ep (f\<lparr>drvs := (drvs f)\<lparr>hw := w2\<rparr>\<rparr>))\<lparr>stack := m\<rparr>) \<and>
    command_at (enum_bytes cfg) (input_at cfg) m c"
proof -
  let ?f = "peer_known core ep (f\<lparr>drvs := (drvs f)\<lparr>hw := w2\<rparr>\<rparr>)"
  obtain m where m: "run_state (decode_input cfg (command_wire c)) ?f = (True, ?f\<lparr>stack := m\<rparr>)"
    "command_at (enum_bytes cfg) (input_at cfg) m c"
    using decode_input_command [OF cfg c, of ?f] by blast
  then show ?thesis
    using take recv by (intro exI [of _ m]) (simp add: get_msg_def peer_known_def split: if_splits)
qed

text \<open>What the main loop then does: the command is performed, the state machine runs, the chore follows.\<close>

definition command_pass ::
  "cp_signal \<Rightarrow> 'hw sdk \<Rightarrow> ('hw fw) fsm_env \<Rightarrow> command \<Rightarrow> uint32 \<Rightarrow> (('hw fw) fsm_sys, uint32 option) state" where
  "command_pass junk sdk env c ts = do { perform sdk env c; fsm_run env; main_loop_chore junk sdk ts }"

lemma main_loop_pass_command:
  assumes cfg: "fw_layout cfg" and c: "small_command c"
    and take: "run_state (sem_take sdk Pending_msgs (ms_to_ticks sdk FSM_WAIT_INTERVAL_MS)) (hw (drvs (wld s))) = (True, w1)"
    and recv: "run_state (rpmessage_recv sdk HighToLow_size) w1 = (Some (command_wire c, core, ep), w2)"
  shows "\<exists>m. run_state (main_loop_pass junk sdk cfg env ts) s = run_state (command_pass junk sdk env c ts)
      (s\<lparr>wld := (peer_known core ep ((wld s)\<lparr>drvs := (drvs (wld s))\<lparr>hw := w2\<rparr>\<rparr>))\<lparr>stack := m\<rparr>\<rparr>)"
proof -
  obtain m where m: "run_state (get_msg sdk cfg FSM_WAIT_INTERVAL_MS) (wld s) =
      (Some RPMsg_OK, (peer_known core ep ((wld s)\<lparr>drvs := (drvs (wld s))\<lparr>hw := w2\<rparr>\<rparr>))\<lparr>stack := m\<rparr>)"
    "command_at (enum_bytes cfg) (input_at cfg) m c"
    using get_msg_command [OF cfg c take recv] by blast
  let ?s = "s\<lparr>wld := (peer_known core ep ((wld s)\<lparr>drvs := (drvs (wld s))\<lparr>hw := w2\<rparr>\<rparr>))\<lparr>stack := m\<rparr>\<rparr>"
  have "run_state (handle_incoming_message sdk cfg env) ?s = run_state (perform sdk env c) ?s"
    by (rule handle_command) (use cfg m(2) in \<open>simp_all add: fw_layout_def\<close>)
  then show ?thesis
    using m(1) by (intro exI [of _ m]) (simp add: main_loop_pass_def command_pass_def)
qed

section \<open>From the state machine to EVerest\<close>

text \<open>The event of EVerest that each event of the state machine stands for.\<close>

definition everest_of :: "event \<Rightarrow> everest_event" where
  "everest_of e =
     (case e of
        CarPluggedIn \<Rightarrow> ET_CarPluggedIn
      | CarRequestedPower \<Rightarrow> ET_CarRequestedPower
      | CarRequestedStopPower \<Rightarrow> ET_CarRequestedStopPower
      | CarUnplugged \<Rightarrow> ET_CarUnplugged
      | EF_To_BCD \<Rightarrow> ET_EFtoBCD
      | Error_DF \<Rightarrow> ET_ErrorDF
      | Error_E \<Rightarrow> ET_ErrorE
      | Error_OverCurrent \<Rightarrow> ET_ErrorOverCurrent
      | Error_RCD \<Rightarrow> ET_ErrorRCD
      | Error_Relais \<Rightarrow> ET_ErrorRelais
      | Error_VentilationNotAvailable \<Rightarrow> ET_ErrorVentilationNotAvailable
      | EvseReplugFinished \<Rightarrow> ET_EvseReplugFinished
      | EvseReplugStarted \<Rightarrow> ET_EvseReplugStarted
      | BCD_To_EF \<Rightarrow> ET_BCDtoEF
      | PermanentFault \<Rightarrow> ET_PermanentFault
      | PowerOff \<Rightarrow> ET_PowerOff
      | PowerOn \<Rightarrow> ET_PowerOn)"

definition event_bytes :: "event \<Rightarrow> uint8 list" where
  "event_bytes e = event_wire (unat (iec_event_value (convert_event e)))"

lemma event_value_small: "unat (iec_event_value e) < 128"
  by (cases e) (simp_all add: iec_event_value_def)

lemma convert_iec_convert: "convert_iec_event (iec_event_value (convert_event e)) = everest_of e"
  by (cases e) (simp_all add: convert_iec_event_def iec_event_value_def convert_event_def everest_of_def)

lemma put_event_at:
  assumes "enum_size (enum_bytes cfg)"
  shows "event_at (enum_bytes cfg) (out_at cfg) (put_event cfg e m) (unat (iec_event_value (convert_event e)))"
proof -
  let ?u = "l2h_union_at (enum_bytes cfg) (out_at cfg)"
  let ?bs = "le_bytes (unat (enum_bytes cfg)) (iec_event_value (convert_event e))"
  let ?m = "store (out_at cfg) (le_bytes 2 LowToHigh_event_tag) m"
  have m: "put_event cfg e m = store ?u ?bs ?m"
    by (simp add: put_event_def Let_def l2h_union_at_def)
  have "load (store ?u ?bs ?m) (out_at cfg) 2 = le_bytes 2 LowToHigh_event_tag"
    using l2h_union_range [OF assms, of "out_at cfg"] load_store_same [of "out_at cfg" "le_bytes 2 LowToHigh_event_tag" m]
    by (simp add: load_store_disjoint)
  then show ?thesis
    unfolding m event_at_def
    using uint_at_enum [OF assms event_value_small] le_word_bytes [of 2 LowToHigh_event_tag] by (simp add: load_word_def)
qed

lemma encode_output_event:
  assumes cfg: "fw_layout cfg" and at: "event_at (enum_bytes cfg) (out_at cfg) (stack f) v" and v: "v < 128"
  shows "\<exists>m. run_state (encode_output cfg) f = (event_wire v, f\<lparr>stack := m\<rparr>)"
proof -
  let ?s = "pb_on (stack f) (pb_ostream_from_buffer (encode_buf_at cfg) LowToHigh_size) PB_ISTREAM_EMPTY"
  have s: "mem ?s = stack f" "os_callback (ostr ?s) = Os_buf_write" "os_state (ostr ?s) = encode_buf_at cfg"
    "bytes_written (ostr ?s) = 0" "max_size (ostr ?s) = LowToHigh_size"
    by (simp_all add: pb_on_def pb_ostream_from_buffer_def)
  have r: "room (pb_lib cfg) LowToHigh_size ?s"
    using cfg unfolding room_def s by (simp add: fw_layout_def)
  have a: "apart LowToHigh_size (out_at cfg) LowToHigh_bytes ?s"
    using cfg unfolding apart_def s by (auto simp: fw_layout_def)
  have "run_state (pb_encode (pb_lib cfg) pb_fuel (LowToHigh_msg (enum_bytes cfg)) (out_at cfg)) ?s = (True, emit (event_wire v) ?s)"
    unfolding pb_fuel_def numeral_3_eq_3
    by (rule encode_event [OF _ _ _ v r a]) (use cfg at s in \<open>simp_all add: fw_layout_def\<close>)
  moreover have "load (mem (emit (event_wire v) ?s)) (encode_buf_at cfg) (bytes_written (ostr (emit (event_wire v) ?s))) = event_wire v"
    by (simp add: emit_def s load_store_same)
  ultimately show ?thesis
    by (intro exI [of _ "mem (emit (event_wire v) ?s)"]) (simp add: encode_output_def)
qed

lemma push_event_sends:
  assumes cfg: "fw_layout cfg" and peer: "remote_peer_detected f"
  shows "hw (drvs (snd (run_state (fw_push_event sdk cfg e) f))) =
     snd (run_state (rpmessage_send sdk (event_bytes e) (remote_end_point f)
       (clock_usec_to_ticks sdk (MSG_SEND_TIMEOUT_MS * 1000))) (hw (drvs f)))"
proof -
  let ?f = "f\<lparr>stack := put_event cfg e (stack f)\<rparr>"
  have "event_at (enum_bytes cfg) (out_at cfg) (stack ?f) (unat (iec_event_value (convert_event e)))"
    using put_event_at cfg by (simp add: fw_layout_def)
  from encode_output_event [OF cfg this event_value_small] obtain m where
    "run_state (encode_output cfg) ?f = (event_bytes e, ?f\<lparr>stack := m\<rparr>)"
    unfolding event_bytes_def by blast
  then show ?thesis
    using peer by (simp add: fw_push_event_def send_msg_def)
qed

lemma receive_event:
  assumes cfg: "host_layout cfg"
    and read: "run_state (os_read os MAX_RPMSG_BUFFER_SIZE) (h_os h) = (Some (event_bytes e), w)"
  shows "h_os (snd (run_state (receive_round os cfg) h)) = snd (run_state (os_publish_event os (everest_of e)) w)"
proof -
  let ?v = "unat (iec_event_value (convert_event e))" and ?eb = "h_enum_bytes cfg" and ?p = "h_in_at cfg"
  let ?h = "h\<lparr>h_os := w\<rparr>" and ?bs = "event_bytes e"
  let ?m0 = "store (h_in_buf_at cfg) ?bs (h_mem h)"
  let ?s = "host_pb ?m0 PB_OSTREAM_SIZING (pb_istream_from_buffer (h_in_buf_at cfg) (length ?bs))"
  have eb: "enum_size ?eb" using cfg by (simp add: host_layout_def)
  have s: "mem ?s = ?m0" "is_state (istr ?s) = h_in_buf_at cfg" "bytes_left (istr ?s) = length ?bs"
    by (simp_all add: host_pb_def pb_istream_from_buffer_def)
  have un: "unread ?p LowToHigh_bytes ?s"
    using cfg unfolding unread_def s
    by (auto simp: host_layout_def event_bytes_def event_wire_def MAX_RPMSG_BUFFER_SIZE_def)
  have st: "stream_has (event_wire ?v) ?s" "bytes_left (istr ?s) = length (event_wire ?v)"
    using load_store_same [of "h_in_buf_at cfg" ?bs "h_mem h"] unfolding stream_has_def s by (simp_all add: event_bytes_def)
  obtain m where m: "run_state (pb_decode_inner (h_pb_lib cfg) (Suc (Suc 1)) (LowToHigh_msg ?eb) ?p 0) ?s =
      (True, (advance (length (event_wire ?v)) ?s)\<lparr>mem := m\<rparr>)" "event_at ?eb ?p m ?v"
    using decode_event [OF eb _ event_value_small st un, of "h_pb_lib cfg" 1] cfg by (auto simp: host_layout_def)
  have dec: "run_state (host_decode cfg ?bs) ?h = (True, ?h\<lparr>h_mem := m\<rparr>)"
    using m(1) by (simp add: host_decode_def pb_decode_def host_pb_fuel_def numeral_3_eq_3 del: pb_decode_inner.simps)
  have v: "load_word 2 m ?p = LowToHigh_event_tag"
    "convert_iec_event (load_word (unat ?eb) m (?p + unat (LowToHigh_union ?eb))) = everest_of e"
    using m(2) in_pwm_state [OF eb, of m "l2h_union_at ?eb ?p" "iec_event_value (convert_event e)"]
    by (simp_all add: event_at_def l2h_union_at_def convert_iec_convert)
  obtain b bs where "event_bytes e = b # bs" by (simp add: event_bytes_def event_wire_def)
  then show ?thesis
    using read dec v by (simp add: receive_round_def handle_low_to_high_message_def)
qed

end
