(* ===== verification/Link_Properties.thy ===== *)
theory Link_Properties
  imports Message_Link Sim_Board
begin

text \<open>
  The properties of the link between the two processors, each with an instance on the
  simulated board and a simulated host.
\<close>

section \<open>A simulated host\<close>

record sim_host =
  sh_written :: "uint8 list list"
  sh_inbox :: "uint8 list list"
  sh_events :: "everest_event list"

definition sim_os :: "sim_host host_os" where
  "sim_os = \<lparr> os_char_init = State_Monad.return True, os_char_open = (\<lambda>n nm. State_Monad.return True),
     os_write = (\<lambda>bs. do { modify (sh_written_update (\<lambda>w. w @ [bs])); State_Monad.return (int (length bs)) }),
     os_read = (\<lambda>n. do {
       box \<leftarrow> gets sh_inbox;
       case box of [] \<Rightarrow> State_Monad.return None
       | bs # rest \<Rightarrow> do { modify (sh_inbox_update (\<lambda>_. rest)); State_Monad.return (Some (take n bs)) } }),
     os_publish_event = (\<lambda>e. modify (sh_events_update (\<lambda>l. l @ [e]))),
     os_log = (\<lambda>msg. State_Monad.return ()) \<rparr>"

lemma sim_os_simps [simp]:
  "os_write sim_os bs = do { modify (sh_written_update (\<lambda>w. w @ [bs])); State_Monad.return (int (length bs)) }"
  "os_read sim_os n = do {
       box \<leftarrow> gets sh_inbox;
       case box of [] \<Rightarrow> State_Monad.return None
       | bs # rest \<Rightarrow> do { modify (sh_inbox_update (\<lambda>_. rest)); State_Monad.return (Some (take n bs)) } }"
  "os_publish_event sim_os e = modify (sh_events_update (\<lambda>l. l @ [e]))"
  by (simp_all add: sim_os_def)

definition sim_host_cfg :: host_cfg where
  "sim_host_cfg = \<lparr> h_pb_lib = sim_lib, h_enum_bytes = 4, h_out_at = 16, h_out_buf_at = 1024,
     h_in_at = 64, h_in_buf_at = 2048 \<rparr>"

definition sim_host0 :: "uint8 list list \<Rightarrow> sim_host host" where
  "sim_host0 box = \<lparr> h_os = \<lparr> sh_written = [], sh_inbox = box, sh_events = [] \<rparr>, h_mem = (\<lambda>a. 0) \<rparr>"

lemma sim_layouts: "host_layout sim_host_cfg" "fw_layout sim_cfg"
  by (simp_all add: host_layout_def fw_layout_def sim_host_cfg_def enum_size_def sim_lib_def HighToLow_bytes_def
      LowToHigh_bytes_def MAX_RPMSG_BUFFER_SIZE_def HighToLow_size_def LowToHigh_size_def)

section \<open>Commands\<close>

text \<open>C15: Each command of EVerest makes the module write one message to the endpoint, the one that
  stands for the command: its bytes on the wire, at most nine of them, and nothing else happens
  on the host.\<close>

theorem everest_command_sent:
  assumes "host_layout cfg"
  shows "h_os (snd (run_state (handle_everest os cfg ec) h)) =
      snd (run_state (os_write os (command_wire (command_of ec))) (h_os h)) \<and>
    length (command_wire (command_of ec)) \<le> HighToLow_size"
  using handle_everest_sends [OF assms, of os ec h] command_wire_length(1) by (simp_all add: sends_def)

theorem everest_command_sent_witness:
  "sh_written (h_os (snd (run_state (handle_everest sim_os sim_host_cfg EC_pwm_F) (sim_host0 [])))) = [[0x0A, 0x02, 0x08, 0x02]]"
proof -
  have "le_bytes 4 (0 :: float32) = [0, 0, 0, 0]" by (simp add: numeral_eq_Suc)
  then have "command_wire (command_of EC_pwm_F) = [0x0A, 0x02, 0x08, 0x02]"
    by (simp add: command_of_def command_wire_def SetPWM_wire_def PWMState_F_def)
  then show ?thesis
    using everest_command_sent [OF sim_layouts(1), of sim_os EC_pwm_F "sim_host0 []"] by (simp add: sim_host0_def)
qed

text \<open>C16: A message with the bytes of a command, taken from the link in a pass of the main loop,
  makes that pass perform the command and then run the state machine and the chore; the sender
  of the first message becomes the peer that events are sent to.\<close>

theorem firmware_performs_command:
  assumes "fw_layout cfg" "small_command c"
    and "run_state (sem_take sdk Pending_msgs (ms_to_ticks sdk FSM_WAIT_INTERVAL_MS)) (hw (drvs (wld s))) = (True, w1)"
    and "run_state (rpmessage_recv sdk HighToLow_size) w1 = (Some (command_wire c, core, ep), w2)"
  shows "\<exists>m. run_state (main_loop_pass junk sdk cfg env ts) s =
    run_state (do { perform sdk env c; fsm_run env; main_loop_chore junk sdk ts })
      (s\<lparr>wld := (peer_known core ep ((wld s)\<lparr>drvs := (drvs (wld s))\<lparr>hw := w2\<rparr>\<rparr>))\<lparr>stack := m\<rparr>\<rparr>)"
  using main_loop_pass_command [OF assms, of junk env ts] by (simp only: command_pass_def)

definition sim_fw_inbox :: "(uint8 list \<times> uint16 \<times> uint16) list \<Rightarrow> sim fw" where
  "sim_fw_inbox box = sim_fw\<lparr>drvs := sim_drv\<lparr>hw := sim_init\<lparr>sim_inbox := box, sim_pending := length box\<rparr>\<rparr>\<rparr>"

definition sim_sys :: "(uint8 list \<times> uint16 \<times> uint16) list \<Rightarrow> (sim fw) fsm_sys" where
  "sim_sys box = \<lparr> obj = fsm_members 1 False, wld = sim_fw_inbox box \<rparr>"

lemma sim_inbox_one:
  "run_state (sem_take sim_sdk Pending_msgs t) (hw (drvs (wld (sim_sys [(bs, core, ep)])))) =
     (True, sim_init\<lparr>sim_inbox := [(bs, core, ep)]\<rparr>)"
  "length bs \<le> n \<Longrightarrow> run_state (rpmessage_recv sim_sdk n) (sim_init\<lparr>sim_inbox := [(bs, core, ep)]\<rparr>) = (Some (bs, core, ep), sim_init)"
  by (simp_all add: sim_sys_def sim_fw_inbox_def sim_drv_def sim_take_def sim_recv_def sim_init_def)

definition sim_junk :: cp_signal where
  "sim_junk = \<lparr> cp_valid = False, cp_high = 0, cp_low = 0 \<rparr>"

definition sim_env :: "(sim fw) fsm_env" where
  "sim_env = firmware_env (\<lambda>x. 0) sim_junk sim_sdk sim_cfg 0 0"

theorem firmware_performs_command_witness:
  "\<exists>m. run_state (main_loop_pass sim_junk sim_sdk sim_cfg sim_env 0) (sim_sys [([0x10, 0x01], 0, 14)]) =
    run_state (do { perform sim_sdk sim_env (Allow_power_on True); fsm_run sim_env; main_loop_chore sim_junk sim_sdk 0 })
      ((sim_sys [])\<lparr>wld := (peer_known 0 14 (sim_fw_inbox []))\<lparr>stack := m\<rparr>\<rparr>)"
proof -
  let ?s = "sim_sys [([0x10, 0x01], 0, 14)]"
  have s: "(wld ?s)\<lparr>drvs := (drvs (wld ?s))\<lparr>hw := sim_init\<rparr>\<rparr> = sim_fw_inbox []" "?s\<lparr>wld := w\<rparr> = (sim_sys [])\<lparr>wld := w\<rparr>" for w
    by (simp_all add: sim_sys_def sim_fw_inbox_def sim_drv_def sim_init_def)
  have c: "small_command (Allow_power_on True)" "command_wire (Allow_power_on True) = [0x10, 0x01]"
    by (simp_all add: small_command_def command_wire_def)
  have recv: "run_state (rpmessage_recv sim_sdk HighToLow_size) (sim_init\<lparr>sim_inbox := [([0x10, 0x01], 0, 14)]\<rparr>) =
      (Some (command_wire (Allow_power_on True), 0, 14), sim_init)"
    using sim_inbox_one(2) [of "[0x10, 0x01]" HighToLow_size 0 14] by (simp add: c(2) HighToLow_size_def)
  show ?thesis
    using firmware_performs_command [OF sim_layouts(2) c(1) sim_inbox_one(1) recv, of sim_junk sim_env 0]
    unfolding s .
qed

text \<open>C17: Every event the state machine raises reaches EVerest as the event of the same name: the
  firmware, once it knows its peer, hands the link the two bytes of the event for that peer, and
  the module that reads these bytes publishes that event, once.\<close>

theorem event_reaches_everest:
  assumes "fw_layout cfg" "remote_peer_detected f" "host_layout hcfg"
    and "run_state (os_read os MAX_RPMSG_BUFFER_SIZE) (h_os h) = (Some (event_bytes e), w)"
  shows "hw (drvs (snd (run_state (fw_push_event sdk cfg e) f))) =
      snd (run_state (rpmessage_send sdk (event_bytes e) (remote_end_point f)
        (clock_usec_to_ticks sdk (MSG_SEND_TIMEOUT_MS * 1000))) (hw (drvs f))) \<and>
    h_os (snd (run_state (receive_round os hcfg) h)) = snd (run_state (os_publish_event os (everest_of e)) w)"
  using push_event_sends [OF assms(1,2)] receive_event [OF assms(3,4)] by blast

theorem event_reaches_everest_witness:
  "sim_outbox (hw (drvs (snd (run_state (fw_push_event sim_sdk sim_cfg CarUnplugged)
      (sim_fw\<lparr>remote_peer_detected := True, remote_end_point := 14\<rparr>))))) = [([0x08, 0x05], 14)] \<and>
   sh_events (h_os (snd (run_state (receive_round sim_os sim_host_cfg) (sim_host0 [[0x08, 0x05]])))) = [ET_CarUnplugged]"
proof -
  have b: "event_bytes CarUnplugged = [0x08, 0x05]"
    by (simp add: event_bytes_def event_wire_def convert_event_def iec_event_value_def)
  have r: "run_state (os_read sim_os MAX_RPMSG_BUFFER_SIZE) (h_os (sim_host0 [[0x08, 0x05]])) =
      (Some (event_bytes CarUnplugged), \<lparr> sh_written = [], sh_inbox = [], sh_events = [] \<rparr>)"
    by (simp add: b sim_host0_def MAX_RPMSG_BUFFER_SIZE_def)
  show ?thesis
    using event_reaches_everest [OF sim_layouts(2) _ sim_layouts(1) r,
        of "sim_fw\<lparr>remote_peer_detected := True, remote_end_point := 14\<rparr>" sim_sdk]
    by (simp add: b sim_fw_def sim_drv_def sim_init_def everest_of_def)
qed


end
