(* ===== verification/Firmware_Run.thy ===== *)
theory Firmware_Run
  imports Firmware Link_Properties
begin

text \<open>
  The firmware from power-up to a closed power path, on the simulated board: three
  messages of EVerest (enable, PWM on, power allowed) and three passes of the main loop
  with a vehicle in state C. It is the run at which the invariant of the whole firmware
  is not vacuous.
\<close>

section \<open>A session on the simulated board\<close>

definition sim_raw_C :: raw_cp_signal where
  "sim_raw_C = \<lparr> raw_high = 2913, raw_low = 0, raw_valid = True \<rparr>"

lemma reads_C:
  "st \<noteq> CP_Disabled \<Longrightarrow> classify_cp pwm (cp_signal_of_raw junk sim_raw_C) st = (True, CP_C)"
proof -
  have v: "cp_volts 0 = 3241972297" "cp_volts 2913 = 1086327486"
    by code_simp+
  have "is_voltage_in_range 3241972297 (f32_of_int (- 12))"
    "map (\<lambda>c. is_voltage_in_range 1086327486 (f32_of_int c)) [12, 9, 6] = [False, False, True]"
    by code_simp+
  then show "st \<noteq> CP_Disabled \<Longrightarrow> ?thesis"
    by (simp add: classify_cp_def cp_signal_of_raw_def sim_raw_C_def v)
qed

text \<open>What the passes of the session depend on, apart from the object and the relay.\<close>

definition fw_obs :: "sim fw \<Rightarrow> _" where
  "fw_obs f = (raw_signal (smp (drvs f)), sim_inbox (hw (drvs f)), sim_pending (hw (drvs f)), sim_ticks (hw (drvs f)))"

lemma fsm_run_keeps:
  assumes "keeps obs (rcd_got_fired env)" "keeps obs (rcd_reset env)" "keeps obs (rcd_enable env)" "keeps obs (rcd_disable env)"
    "keeps obs (lock_lock env)" "keeps obs (lock_unlock env)" "keeps obs (ps_is_on env)" "\<And>b. keeps obs (ps_on env b)" "keeps obs (ps_off env)"
    "keeps obs (ps_reset_emergency_switch env)" "\<And>dc. keeps obs (cp_set_pwm env dc)" "keeps obs (cp_get_cp_signal env)"
    "keeps obs (clk_get_current_ticks env)" "\<And>e. keeps obs (push_event env e)"
  shows "keeps (\<lambda>s. obs (wld s)) (fsm_run env)"
proof -
  note hal = assms [THEN keeps_on_hal]
  have power: "keeps (\<lambda>s. obs (wld s)) (fsm_power_on env)" "keeps (\<lambda>s. obs (wld s)) (fsm_power_off env)"
    unfolding fsm_power_on_def fsm_power_off_def start_lock_check_def
    by (intro keeps_intros hal)+
  have el: "keeps (\<lambda>s. obs (wld s)) (on_hal (countdown_elapsed env c))" for c
    using assms(13) by (simp add: keeps_def run_countdown_elapsed Let_def)
  have "keeps (\<lambda>s. obs (wld s)) (fsm_run_switch env st)" for st
    unfolding fsm_run_switch_def fsm_run_Disabled_def fsm_run_A_def fsm_run_B_def fsm_run_C_def fsm_run_D_def
      fsm_run_E_def fsm_run_F_def fsm_run_DF_def fsm_run_D_powered_def fsm_run_pwm_stopped_def start_pwm_stop_def
      fsm_enter_C_def fsm_enter_D_def bcd_to_ef_def fsm_set_pwm_off_def
    by (cases st) (simp_all only: cp_state.case, (intro keeps_intros hal power el)+)
  then have body: "keeps (\<lambda>s. obs (wld s)) (case a of (ok, new) \<Rightarrow> do {
      on_obj (cur_state_update (\<lambda>_. new));
      if_then ok (do { fsm_run_switch env new;
        on_obj (\<lambda>f. f\<lparr>prev_state := cur_state f, prev_pwm_running := cur_pwm_running f\<rparr>) }) })" for a
    by (cases a) (simp, intro keeps_intros)
  show ?thesis
    unfolding fsm_run_def fsm_check_rcd_def fsm_check_lock_def read_cp_state_def
    by (intro keeps_intros hal power el body assms)
qed

abbreviation sim_fw_env :: "cp_signal \<Rightarrow> uint32 \<Rightarrow> (sim fw) fsm_env" where
  "sim_fw_env junk tclr \<equiv> firmware_env (\<lambda>x. 0) junk sim_sdk sim_cfg 0x4201000 tclr"

definition sim_relay :: "sim fw \<Rightarrow> bool" where
  "sim_relay f = sim_latch (hw (drvs f)) (0x4201000, 9)"

interpretation sim_session: firmware_board sim_sdk "0x4201000" 9 "\<lambda>w. sim_latch w (0x4201000, 9)" "\<lambda>x. 0" junk sim_cfg tclr
  for junk tclr
  by unfold_locales (simp add: sim_board_def)

lemma sim_set_pwm_keeps: "keeps (\<lambda>w. (sim_inbox w, sim_pending w, sim_ticks w)) (control_pilot_set_pwm ub sim_sdk b tclr dc)"
  by (simp add: keeps_def control_pilot_set_pwm_def Let_def)

lemma sim_push_keeps: "keeps fw_obs (fw_push_event sim_sdk sim_cfg e)"
  by (simp add: keeps_def fw_obs_def fw_push_event_def send_msg_def encode_output_def split: prod.splits)

lemma sim_env_keeps: "keeps (\<lambda>s. fw_obs (wld s)) (fsm_run (sim_fw_env junk tclr))"
  apply (rule fsm_run_keeps)
  using sim_set_pwm_keeps [THEN keepsD] sim_push_keeps [THEN keepsD]
  by (auto simp: firmware_env_def sim_push_keeps keeps_def fw_obs_def stub_defs power_switch_on_def power_switch_off_def
      power_switch_is_on_def power_switch_reset_emergency_switch_def get_latest_cp_signal_def sim_take_def sim_give_def)

lemma sim_take_pending:
  "sim_pending w = Suc n \<Longrightarrow> run_state (sem_take sim_sdk Pending_msgs t) w = (True, w\<lparr>sim_pending := n\<rparr>)"
  by (simp add: sim_take_def)

lemma sim_recv_message:
  "sim_inbox w = (bs, core, ep) # box \<Longrightarrow> length bs \<le> n \<Longrightarrow>
     run_state (rpmessage_recv sim_sdk n) w = (Some (bs, core, ep), w\<lparr>sim_inbox := box\<rparr>)"
  by (simp add: sim_recv_def)

lemma session_message:
  assumes obs: "fw_obs (wld s) = (raw, (command_wire c, core, ep) # box, Suc n, t)" and c: "small_command c"
  shows "\<exists>s1. obj s1 = obj s \<and> fw_obs (wld s1) = (raw, box, n, t) \<and> sim_relay (wld s1) = sim_relay (wld s) \<and>
    run_state (main_loop_pass junk sim_sdk sim_cfg env ts) s = run_state (command_pass junk sim_sdk env c ts) s1"
proof -
  let ?w = "hw (drvs (wld s))"
  let ?w1 = "?w\<lparr>sim_pending := n\<rparr>"
  have take: "run_state (sem_take sim_sdk Pending_msgs (ms_to_ticks sim_sdk FSM_WAIT_INTERVAL_MS)) ?w = (True, ?w1)"
    using obs by (intro sim_take_pending) (simp add: fw_obs_def)
  have recv: "run_state (rpmessage_recv sim_sdk HighToLow_size) ?w1 =
      (Some (command_wire c, core, ep), ?w1\<lparr>sim_inbox := box\<rparr>)"
    using obs command_wire_length(1) [of c] by (intro sim_recv_message) (simp_all add: fw_obs_def)
  obtain m where "run_state (main_loop_pass junk sim_sdk sim_cfg env ts) s = run_state (command_pass junk sim_sdk env c ts)
      (s\<lparr>wld := (peer_known core ep ((wld s)\<lparr>drvs := (drvs (wld s))\<lparr>hw := ?w1\<lparr>sim_inbox := box\<rparr>\<rparr>\<rparr>))\<lparr>stack := m\<rparr>\<rparr>)"
    using main_loop_pass_command [OF sim_layouts(2) c take recv, of junk env ts] by blast
  then show ?thesis
    using obs
    by (intro exI [of _ "s\<lparr>wld := (peer_known core ep ((wld s)\<lparr>drvs := (drvs (wld s))\<lparr>hw := ?w1\<lparr>sim_inbox := box\<rparr>\<rparr>\<rparr>))\<lparr>stack := m\<rparr>\<rparr>"])
      (auto simp: fw_obs_def peer_known_def sim_relay_def)
qed

lemma session_chore:
  "\<exists>ts'. fst (run_state (main_loop_chore junk sim_sdk ts) s) = Some ts' \<and>
     obj (snd (run_state (main_loop_chore junk sim_sdk ts) s)) = obj s \<and>
     fw_obs (wld (snd (run_state (main_loop_chore junk sim_sdk ts) s))) = fw_obs (wld s) \<and>
     sim_relay (wld (snd (run_state (main_loop_chore junk sim_sdk ts) s))) = sim_relay (wld s)"
  by (auto simp: main_loop_chore_def fw_obs_def sim_relay_def get_latest_cp_signal_def sim_take_def sim_give_def)

lemma session_reading:
  assumes "fw_obs (wld s) = (sim_raw_C, box, n, t)" "cur_state (obj s) \<noteq> CP_Disabled"
  shows "fsm_reading (sim_fw_env junk tclr) s = (True, CP_C)"
  using assms reads_C
  by (simp add: fsm_reading_def fsm_check_rcd_def fsm_check_lock_def firmware_env_def stub_defs Let_def read_cp_state_def
      fw_obs_def get_latest_cp_signal_def run_countdown_elapsed)

lemma sim_perform_keeps: "keeps (\<lambda>s. fw_obs (wld s)) (perform sim_sdk (sim_fw_env junk tclr) c)"
  using sim_set_pwm_keeps [THEN keepsD]
  by (cases c) (auto simp: keeps_def perform_def fsm_request_defs firmware_env_def fw_obs_def control_pilot_enable_def
      control_pilot_disable_def)

lemma session_pass:
  assumes obs: "fw_obs (wld s) = (raw, (command_wire c, core, ep) # box, Suc n, t)" and c: "small_command c"
  shows "\<exists>s1 ts' s'. run_state (main_loop_pass junk sim_sdk sim_cfg (sim_fw_env junk tclr) ts) s = (Some ts', s') \<and>
    obj s1 = obj s \<and> fw_obs (wld s1) = (raw, box, n, t) \<and> fw_obs (wld s') = (raw, box, n, t) \<and>
    obj s' = obj (snd (run_state (do { perform sim_sdk (sim_fw_env junk tclr) c; fsm_run (sim_fw_env junk tclr) }) s1)) \<and>
    sim_relay (wld s') =
      sim_relay (wld (snd (run_state (do { perform sim_sdk (sim_fw_env junk tclr) c; fsm_run (sim_fw_env junk tclr) }) s1)))"
proof -
  let ?env = "sim_fw_env junk tclr"
  obtain s1 where s1: "obj s1 = obj s" "fw_obs (wld s1) = (raw, box, n, t)"
    "run_state (main_loop_pass junk sim_sdk sim_cfg ?env ts) s = run_state (command_pass junk sim_sdk ?env c ts) s1"
    using session_message [OF obs c] by blast
  let ?s2 = "snd (run_state (do { perform sim_sdk ?env c; fsm_run ?env }) s1)"
  let ?s' = "snd (run_state (main_loop_chore junk sim_sdk ts) ?s2)"
  have "fw_obs (wld ?s2) = (raw, box, n, t)"
    using s1(2) keepsD [OF sim_perform_keeps] keepsD [OF sim_env_keeps] by simp
  moreover have "run_state (command_pass junk sim_sdk ?env c ts) s1 = run_state (main_loop_chore junk sim_sdk ts) ?s2"
    by (simp add: command_pass_def)
  ultimately show ?thesis
    using s1 session_chore [of junk ts ?s2] by (intro exI [of _ s1] exI [of _ "the (fst (run_state (main_loop_chore junk sim_sdk ts) ?s2))"] exI [of _ ?s']) (auto simp: prod_eq_iff)
qed

lemma sim_ps_on: "sim_relay (snd (run_state (ps_on (sim_fw_env junk tclr) b) f))"
  by (simp add: firmware_env_def power_switch_on_def power_switch_is_on_def sim_relay_def sim_board_def)

text \<open>The object after start-up, after the enabling, and after the PWM has been switched on.\<close>

definition session_obj :: "nat \<Rightarrow> fsm" where
  "session_obj n =
     (let o0 = (fsm_members 1 False)\<lparr>pwm_duty_cycle := f32_of_int 1\<rparr>;
          o1 = o0\<lparr>cur_state := CP_C, prev_state := CP_C\<rparr>;
          o2 = o1\<lparr>pwm_duty_cycle := f32_of_fval (f64_lit 1 2), cur_pwm_running := True, prev_pwm_running := True\<rparr>
      in if n = 0 then o0 else if n = 1 then o1 else o2)"

definition session_do :: "cp_signal \<Rightarrow> uint32 \<Rightarrow> command \<Rightarrow> ((sim fw) fsm_sys, unit) state" where
  "session_do junk tclr c = do { perform sim_sdk (sim_fw_env junk tclr) c; fsm_run (sim_fw_env junk tclr) }"

lemma session_step:
  assumes "fw_obs (wld s) = (sim_raw_C, box, n, 0)"
  shows "obj s = session_obj 0 \<Longrightarrow> obj (snd (run_state (session_do junk tclr Enable) s)) = session_obj 1"
    and "obj s = session_obj 1 \<Longrightarrow>
      obj (snd (run_state (session_do junk tclr (Set_pwm PWMState_ON (f32_of_fval (f64_lit 1 2)))) s)) = session_obj 2"
    and "obj s = session_obj 2 \<Longrightarrow> sim_relay (wld (snd (run_state (session_do junk tclr (Allow_power_on True)) s)))"
proof -
  let ?env = "sim_fw_env junk tclr"
  have reading: "fsm_reading ?env (snd (run_state (perform sim_sdk ?env c) s)) = (True, CP_C)"
    if "cur_state (obj (snd (run_state (perform sim_sdk ?env c) s))) \<noteq> CP_Disabled" for c
  proof -
    have "fw_obs (wld (snd (run_state (perform sim_sdk ?env c) s))) = (sim_raw_C, box, n, 0)"
      using assms keepsD [OF sim_perform_keeps, of junk tclr c s] by simp
    from session_reading [OF this that] show ?thesis .
  qed
  have classified: "obj (fsm_classified ?env s') = (obj s')\<lparr>cur_state := CP_C\<rparr>"
    if "fsm_reading ?env s' = (True, CP_C)" "lock_check_countdown (obj s') = countdown_new 1 1000" for s'
    using that by (simp add: fsm_classified_def fsm_pre_def Let_def fsm_check_rcd_def fsm_check_lock_def run_countdown_elapsed
        countdown_elapsed_at_def countdown_new_def read_cp_state_def)
  note step = session_do_def run_fsm_run Let_def fsm_run_switch_def fsm_run_C_def fsm_enter_C_def latch_previous_def
    fsm_run_pwm_stopped_def run_countdown_elapsed countdown_elapsed_at_def fsm_request_defs perform_def classified
    session_obj_def fsm_members_def countdown_new_def
  show "obj s = session_obj 0 \<Longrightarrow> obj (snd (run_state (session_do junk tclr Enable) s)) = session_obj 1"
    using reading [of Enable] by (simp add: step)
  show "obj s = session_obj 1 \<Longrightarrow>
      obj (snd (run_state (session_do junk tclr (Set_pwm PWMState_ON (f32_of_fval (f64_lit 1 2)))) s)) = session_obj 2"
    using reading [of "Set_pwm PWMState_ON (f32_of_fval (f64_lit 1 2))"] by (simp add: step PWMState_ON_def PWMState_OFF_def PWMState_F_def)
  show "obj s = session_obj 2 \<Longrightarrow> sim_relay (wld (snd (run_state (session_do junk tclr (Allow_power_on True)) s)))"
    using reading [of "Allow_power_on True"] 
      sim_ps_on [unfolded sim_relay_def] by (simp add: step fsm_power_on_def sim_relay_def start_lock_check_def)
qed

lemma sim_construct_keeps: "keeps (\<lambda>w. (sim_inbox w, sim_pending w, sim_ticks w)) (control_pilot_construct sim_sdk b)"
  by (simp add: keeps_def control_pilot_construct_def get_default_tclr_def Let_def)

definition session_sampler :: sampler where
  "session_sampler = sim_sampler\<lparr>raw_signal := sim_raw_C\<rparr>"

lemma session_boot:
  "\<exists>tclr f'. run_state (main_task_drivers sim_sdk sim_cfg session_sampler) (sim_fw_inbox box) = (Some (0x4201000, tclr), f') \<and>
     fw_obs f' = (sim_raw_C, box, length box, 0)"
  using sim_construct_keeps [THEN keepsD]
  by (simp add: main_task_drivers_def rpmsg_wait_for_linux_def rpmsg_construct_def power_switch_construct_def power_switch_off_def
      power_switch_is_on_def sampler_construct_def fw_obs_def sim_fw_inbox_def sim_fw_def sim_drv_def sim_init_def
      session_sampler_def sim_board_def sim_take_def sim_give_def prod_eq_iff check_def Let_def)

definition session_commands :: "command list" where
  "session_commands = [Enable, Set_pwm PWMState_ON (f32_of_fval (f64_lit 1 2)), Allow_power_on True]"

definition session_inbox :: "(uint8 list \<times> uint16 \<times> uint16) list" where
  "session_inbox = map (\<lambda>c. (command_wire c, 0, 14)) session_commands"

lemma session_runs:
  "\<exists>s. firmware_run (\<lambda>x. 0) sim_junk session_sampler False sim_sdk sim_cfg 3 (sim_fw_inbox session_inbox) = Some s \<and>
     sim_relay (wld s)"
proof -
  obtain tclr f' where drivers: "run_state (main_task_drivers sim_sdk sim_cfg session_sampler) (sim_fw_inbox session_inbox) =
      (Some (0x4201000, tclr), f')" "fw_obs f' = (sim_raw_C, session_inbox, 3, 0)"
    using session_boot [of session_inbox] by (auto simp: session_inbox_def session_commands_def)
  let ?env = "sim_fw_env sim_junk tclr"
  let ?start = "snd (run_state (main_task_start sim_sdk) (fsm_construct ?env False f'))"
  have start: "fst (run_state (main_task_start sim_sdk) (fsm_construct ?env False f')) = Some 0"
    "obj ?start = session_obj 0" "fw_obs (wld ?start) = (sim_raw_C, session_inbox, Suc 2, 0)"
    using drivers(2) sim_set_pwm_keeps [THEN keepsD]
    by (simp_all add: main_task_start_def fsm_construct_def fsm_request_defs firmware_env_def control_pilot_disable_def
        stub_defs session_obj_def fw_obs_def fsm_members_def)
  have small: "small_command c" if "c \<in> set session_commands" for c
    using that by (auto simp: session_commands_def small_command_def PWMState_ON_def)
  note pass = session_pass [where junk = sim_junk and tclr = tclr and raw = sim_raw_C and core = 0 and ep = 14 and t = 0]
  obtain a1 t1 s1 where p1: "run_state (main_loop_pass sim_junk sim_sdk sim_cfg ?env 0) ?start = (Some t1, s1)"
    "obj a1 = obj ?start" "fw_obs (wld a1) = (sim_raw_C, tl session_inbox, 2, 0)" "fw_obs (wld s1) = (sim_raw_C, tl session_inbox, 2, 0)"
    "obj s1 = obj (snd (run_state (session_do sim_junk tclr Enable) a1))"
    using pass [of ?start Enable "tl session_inbox" 2 0] start(3) small
    by (auto simp: session_inbox_def session_commands_def session_do_def)
  have o1: "obj s1 = session_obj 1"
    using session_step(1) [OF p1(3)] p1(2,5) start(2) by simp
  let ?on = "Set_pwm PWMState_ON (f32_of_fval (f64_lit 1 2))"
  obtain a2 t2 s2 where p2: "run_state (main_loop_pass sim_junk sim_sdk sim_cfg ?env t1) s1 = (Some t2, s2)"
    "obj a2 = obj s1" "fw_obs (wld a2) = (sim_raw_C, tl (tl session_inbox), 1, 0)" "fw_obs (wld s2) = (sim_raw_C, tl (tl session_inbox), 1, 0)"
    "obj s2 = obj (snd (run_state (session_do sim_junk tclr ?on) a2))"
    using pass [of s1 ?on "tl (tl session_inbox)" 1 t1] p1(4) small
    by (auto simp: session_inbox_def session_commands_def session_do_def)
  have o2: "obj s2 = session_obj 2"
    using session_step(2) [OF p2(3)] p2(2,5) o1 by simp
  obtain a3 t3 s3 where p3: "run_state (main_loop_pass sim_junk sim_sdk sim_cfg ?env t2) s2 = (Some t3, s3)"
    "obj a3 = obj s2" "fw_obs (wld a3) = (sim_raw_C, [], 0, 0)"
    "sim_relay (wld s3) = sim_relay (wld (snd (run_state (session_do sim_junk tclr (Allow_power_on True)) a3)))"
    using pass [of s2 "Allow_power_on True" "[]" 0 t2] p2(4) small
    by (auto simp: session_inbox_def session_commands_def session_do_def)
  have "sim_relay (wld s3)"
    using session_step(3) [OF p3(3)] p3(2,4) o2 by simp
  moreover have "snd (run_state (main_loop sim_junk sim_sdk sim_cfg ?env 3 0) ?start) = s3"
    using p1(1) p2(1) p3(1) by (simp add: numeral_3_eq_3)
  moreover obtain s0 where s0: "run_state (main_task_start sim_sdk) (fsm_construct ?env False f') = (Some 0, s0)"
    using start(1) by (cases "run_state (main_task_start sim_sdk) (fsm_construct ?env False f')") simp
  ultimately show ?thesis
    unfolding firmware_run_def drivers(1) by (intro exI [of _ s3]) (simp add: s0)
qed

section \<open>Safety of the whole firmware\<close>



end
