(* ===== verification/Codec_Properties.thy ===== *)
theory Codec_Properties
  imports Message_Link Sim_Board
begin

text \<open>
  The properties of the message codec: integers, buffers, descriptors and whole messages,
  each with an instance on the simulated board's configuration of the library.
\<close>

section \<open>Integers\<close>

text \<open>C35: Round trip of the varint encoding of nanopb on 64-bit values. With room for its bytes
  the encoder succeeds and writes the base-128 digits of the value, at most ten bytes; reading
  these bytes back gives the value and consumes exactly them.\<close>

theorem varint_roundtrip:
  assumes "os_callback (ostr s) = Os_buf_write" "room env (length (leb128 (unat v))) s"
  shows "run_state (pb_encode_varint env v) s = (True, emit (leb128 (unat v)) s) \<and>
    length (leb128 (unat v)) \<le> 10 \<and>
    run_state pb_decode_varint (reread (leb128 (unat v)) s) =
      (Some v, advance (length (leb128 (unat v))) (reread (leb128 (unat v)) s))"
proof -
  have v: "unat v < 2 ^ 64" using unsigned_less [of v] by simp
  then have "unat v < 128 ^ Suc 9" by simp
  then show ?thesis
    using encode_varint [OF assms(2)] length_leb128 [of "unat v" 9]
      decode_varint_leb [OF stream_has_reread [OF assms(1)] v] by simp
qed

definition sim_pb :: "nat \<Rightarrow> mem \<Rightarrow> pb" where
  "sim_pb n m = pb_on m (pb_ostream_from_buffer 128 n) PB_ISTREAM_EMPTY"

lemma sim_pb_simps [simp]:
  "os_callback (ostr (sim_pb n m)) = Os_buf_write" "os_errmsg (ostr (sim_pb n m)) = None"
  "mem (sim_pb n m) = m" "os_state (ostr (sim_pb n m)) = 128" "bytes_written (ostr (sim_pb n m)) = 0"
  "max_size (ostr (sim_pb n m)) = n" "size_bits sim_lib = 32"
  by (simp_all add: sim_pb_def pb_on_def pb_ostream_from_buffer_def sim_lib_def)

theorem varint_roundtrip_witness:
  "run_state pb_decode_varint (reread [0xAC, 0x02] (sim_pb 2 (\<lambda>a. 0))) =
     (Some 300, advance 2 (reread [0xAC, 0x02] (sim_pb 2 (\<lambda>a. 0))))"
proof -
  have "leb128 300 = [0xAC, 0x02]" by (simp add: leb128_big leb128_small)
  moreover have "unat (300 :: uint64) = 300" by simp
  moreover have len: "length [0xAC, 0x02 :: uint8] = 2" by simp
  ultimately have b: "leb128 (unat (300 :: uint64)) = [0xAC, 0x02]" "length (leb128 (unat (300 :: uint64))) = 2"
    by (simp_all only:)
  have "room sim_lib (length (leb128 (unat (300 :: uint64)))) (sim_pb 2 (\<lambda>a. 0))"
    unfolding b(2) by (simp add: room_def)
  from varint_roundtrip [OF sim_pb_simps(1) this] show ?thesis
    unfolding b(1) len by blast
qed

text \<open>C36: Round trip of the zig-zag encoding of signed values: a value of small magnitude, of either
  sign, takes few bytes, since what is written is the varint of \<open>2 * i\<close> or of \<open>- 2 * i - 1\<close>; and
  reading gives the value back.\<close>

theorem svarint_roundtrip:
  assumes "os_callback (ostr s) = Os_buf_write" "room env (length (leb128 (zigzag (sint v)))) s"
  shows "run_state (pb_encode_svarint env v) s = (True, emit (leb128 (zigzag (sint v))) s) \<and>
    run_state pb_decode_svarint (reread (leb128 (zigzag (sint v))) s) =
      (Some v, advance (length (leb128 (zigzag (sint v)))) (reread (leb128 (zigzag (sint v))) s))"
  using encode_svarint [OF assms(2)] decode_svarint_zigzag [OF stream_has_reread [OF assms(1)]] by simp

theorem svarint_roundtrip_witness:
  "run_state pb_decode_svarint (reread [0x03] (sim_pb 1 (\<lambda>a. 0))) =
     (Some (- 2), advance 1 (reread [0x03] (sim_pb 1 (\<lambda>a. 0))))"
proof -
  have "sint (- 2 :: uint64) = - 2" by simp
  then have "leb128 (zigzag (sint (- 2 :: uint64))) = [0x03]" by (simp add: zigzag_def leb128_small)
  then show ?thesis
    using svarint_roundtrip [where s = "sim_pb 1 (\<lambda>a. 0)" and env = sim_lib and v = "- 2"] by (simp add: room_def del: leb128.simps)
qed

text \<open>C40: A write that does not fit the rest of the buffer is refused: the stream, its position and
  the memory stay as they were, only the error message is set.\<close>

theorem write_refused_when_full:
  assumes "os_callback (ostr s) = Os_buf_write" "max_size (ostr s) < bytes_written (ostr s) + n" "0 < n"
    and "bytes_written (ostr s) + n < 2 ^ size_bits env"
  shows "run_state (pb_write env b n) s =
    (False, s\<lparr>ostr := (ostr s)\<lparr>os_errmsg :=
       (case os_errmsg (ostr s) of None \<Rightarrow> Some ''stream full'' | Some e \<Rightarrow> Some e)\<rparr>\<rparr>)"
  using run_pb_write_full [OF assms, of b] by (simp add: set_error_def split: option.splits)

theorem write_refused_when_full_witness:
  "run_state (pb_write sim_lib (Buf_local [1, 2, 3]) 3) (sim_pb 2 (\<lambda>a. 0)) =
    (False, (sim_pb 2 (\<lambda>a. 0))\<lparr>ostr := (ostr (sim_pb 2 (\<lambda>a. 0)))\<lparr>os_errmsg := Some ''stream full''\<rparr>\<rparr>)"
  using write_refused_when_full [of "sim_pb 2 (\<lambda>a. 0)" 3 sim_lib "Buf_local [1, 2, 3]"] by simp


section \<open>Descriptors\<close>

text \<open>C31: The generated descriptor of a message is the list of its fields, packed into words. For any
  list of fields that the generator accepts, the iterator starts at the first field, steps through
  the fields in their order and wraps to the first again; at each it has the tag, the type, the
  sizes, the address and the submessage that were written down for that field.\<close>

theorem iterator_walks_fields:
  assumes "valid_fields fs" "fs \<noteq> []" "p \<noteq> 0"
  shows "pb_field_iter_begin env m (PB_BIND fs dv cb) p = (True, field_of fs dv cb p 0) \<and>
    ((\<lambda>it. snd (pb_field_iter_next env m it)) ^^ k) (field_of fs dv cb p 0) = field_of fs dv cb p (k mod length fs)"
proof (rule conjI [OF begin_field [OF assms]])
  show "((\<lambda>it. snd (pb_field_iter_next env m it)) ^^ k) (field_of fs dv cb p 0) = field_of fs dv cb p (k mod length fs)"
  proof (induction k)
    case (Suc k)
    have "k mod length fs < length fs" using assms(2) by simp
    then show ?case
      using Suc next_field [OF assms(1) _ assms(3), of "k mod length fs"] by (auto simp: mod_Suc not_less_eq)
  qed simp
qed

theorem iterator_walks_fields_witness:
  "((\<lambda>it. snd (pb_field_iter_next sim_lib (\<lambda>a. 0) it)) ^^ 7) (field_of (HighToLow_FIELDLIST 4) 0 No_callback 16 0) =
     field_of (HighToLow_FIELDLIST 4) 0 No_callback 16 2"
proof -
  have fs: "valid_fields (HighToLow_FIELDLIST 4)" "HighToLow_FIELDLIST 4 \<noteq> []" "7 mod length (HighToLow_FIELDLIST 4) = 2"
    using union_HighToLow [of 4] by (simp_all add: union_fields_def plain_fields_def HighToLow_FIELDLIST_def)
  show ?thesis
    using iterator_walks_fields [OF fs(1,2), of 16 sim_lib "\<lambda>a. 0" 0 No_callback 7] unfolding fs(3) by simp
qed

definition field_index :: "field_spec list \<Rightarrow> uint32 \<Rightarrow> nat" where
  "field_index fs t = length (takeWhile (\<lambda>s. fs_tag s \<noteq> t) fs)"

text \<open>C32: The search for a tag, from whichever field, ends: within one round over the fields it stops
  at the field that has the tag, or, where no field has it, reports so and is back where it began.\<close>

theorem find_terminates:
  assumes "plain_fields fs" "p \<noteq> 0" "i < length fs"
  shows "pb_field_iter_find env m (field_of fs dv cb p i) t =
    (if field_index fs t < length fs then Some (True, field_of fs dv cb p (field_index fs t))
     else Some (False, field_of fs dv cb p i))"
proof (cases "field_index fs t < length fs")
  case True
  then have "fs_tag (fs ! field_index fs t) = t"
    using nth_length_takeWhile [of "\<lambda>s. fs_tag s \<noteq> t" fs] by (simp add: field_index_def)
  then show ?thesis
    using find_field(1) [OF assms True, where env = env and m = m and dv = dv and cb = cb and t = t] True by simp
next
  case False
  then have "takeWhile (\<lambda>s. fs_tag s \<noteq> t) fs = fs"
    using length_takeWhile_le [of "\<lambda>s. fs_tag s \<noteq> t" fs] takeWhile_eq_take [of "\<lambda>s. fs_tag s \<noteq> t" fs]
    by (simp add: field_index_def)
  then have "t \<notin> fs_tag ` set fs"
    by (auto simp: takeWhile_eq_all_conv)
  then show ?thesis
    using find_field(2) [OF assms, where env = env and m = m and dv = dv and cb = cb and t = t] False by simp
qed

theorem find_terminates_witness:
  "pb_field_iter_find sim_lib (\<lambda>a. 0) (field_of (HighToLow_FIELDLIST 4) 0 No_callback 16 3) 2 =
     Some (True, field_of (HighToLow_FIELDLIST 4) 0 No_callback 16 1) \<and>
   pb_field_iter_find sim_lib (\<lambda>a. 0) (field_of (HighToLow_FIELDLIST 4) 0 No_callback 16 3) 9 =
     Some (False, field_of (HighToLow_FIELDLIST 4) 0 No_callback 16 3)"
proof -
  have fs: "plain_fields (HighToLow_FIELDLIST 4)" "3 < length (HighToLow_FIELDLIST 4)"
    "field_index (HighToLow_FIELDLIST 4) 2 = 1" "field_index (HighToLow_FIELDLIST 4) 9 = 5" "length (HighToLow_FIELDLIST 4) = 5"
    using union_HighToLow [of 4] by (simp_all add: union_fields_def field_index_def field_list_defs)
  show ?thesis
    using find_terminates [OF fs(1) _ fs(2), of 16 sim_lib "\<lambda>a. 0" 0 No_callback 2]
      find_terminates [OF fs(1) _ fs(2), of 16 sim_lib "\<lambda>a. 0" 0 No_callback 9]
    unfolding fs(3-5) by simp
qed

section \<open>Messages\<close>

text \<open>C18: Round trip of the commands between two processors that may give an enumeration different
  sizes. From a structure that holds a command, the generated encoder writes at most nine bytes;
  the generated decoder, given exactly these bytes, succeeds and leaves that same command in
  the structure it fills, and changes no memory outside that structure.\<close>

theorem command_roundtrip:
  assumes "enum_size eb" "p \<noteq> 0" "command_at eb p (mem s) c" "small_command c"
    and "room env HighToLow_size s" "apart HighToLow_size p HighToLow_bytes s"
    and "os_callback (ostr s) = Os_buf_write" "os_errmsg (ostr s) = None"
    and "enum_size eb'" "q \<noteq> 0" "unread q HighToLow_bytes (reread (command_wire c) s)"
  shows "run_state (pb_encode env pb_fuel (HighToLow_msg eb) p) s = (True, emit (command_wire c) s) \<and>
    length (command_wire c) \<le> HighToLow_size \<and>
    (\<exists>m. run_state (pb_decode env' pb_fuel (HighToLow_msg eb') q) (reread (command_wire c) s) =
        (True, (advance (length (command_wire c)) (reread (command_wire c) s))\<lparr>mem := m\<rparr>) \<and>
      command_at eb' q m c \<and> same_outside q HighToLow_bytes m (mem (reread (command_wire c) s)))"
proof -
  note l = command_wire_length(1) [of c]
  have "run_state (pb_encode env pb_fuel (HighToLow_msg eb) p) s = (True, emit (command_wire c) s)"
    unfolding pb_fuel_def numeral_3_eq_3
    by (rule encode_command [OF assms(1-4) room_mono [OF assms(5) l] apart_mono [OF assms(6) l] assms(7,8)]) simp_all
  moreover have "bytes_left (istr (reread (command_wire c) s)) = length (command_wire c)"
    by (simp add: reread_def pb_istream_from_buffer_def)
  ultimately show ?thesis
    using decode_command [OF assms(9,10,4) stream_has_reread [OF assms(7)] _ assms(11), of env' 1] l
    by (simp add: pb_decode_def pb_fuel_def numeral_3_eq_3 del: pb_decode_inner.simps pb_encode.simps)
qed

theorem command_roundtrip_witness:
  "\<exists>m. run_state (pb_decode sim_lib pb_fuel (HighToLow_msg 1) 64)
      (reread (command_wire (Set_pwm PWMState_OFF 0)) (sim_pb 9 (store 20 (le_bytes 4 PWMState_OFF) (out_zero 16 HighToLow_set_pwm_tag (\<lambda>a. 0))))) =
     (True, m) \<and> command_at 1 64 (mem m) (Set_pwm PWMState_OFF 0)"
proof -
  let ?m = "store 20 (le_bytes 4 PWMState_OFF) (out_zero 16 HighToLow_set_pwm_tag (\<lambda>a. 0))" and ?c = "Set_pwm PWMState_OFF 0"
  have e: "enum_size 4" "enum_size 1" by (simp_all add: enum_size_def)
  have at: "command_at 4 16 (mem (sim_pb 9 ?m)) ?c"
    using command_at_set_pwm(1) [OF e(1), of PWMState_OFF 16 "\<lambda>a. 0"] by (simp add: PWMState_OFF_def)
  have "small_command ?c" by (simp add: small_command_def PWMState_OFF_def)
  moreover have "room sim_lib HighToLow_size (sim_pb 9 ?m)" "apart HighToLow_size 16 HighToLow_bytes (sim_pb 9 ?m)"
    by (simp_all add: room_def apart_def HighToLow_size_def HighToLow_bytes_def)
  moreover have "unread 64 HighToLow_bytes (reread (command_wire ?c) (sim_pb 9 ?m))"
    by (simp add: unread_def reread_def pb_istream_from_buffer_def HighToLow_bytes_def)
  ultimately show ?thesis
    using command_roundtrip [OF e(1) _ at _ _ _ sim_pb_simps(1,2) e(2), of sim_lib 64 sim_lib] by fastforce
qed


end
