(* ===== verification/Pb_Utf8.thy ===== *)
theory Pb_Utf8
  imports Pb_Common
begin

text \<open>
  \<open>pb_validate_utf8\<close> against the definition of UTF-8: the encoder of Unicode scalar values,
  the check on the numbers of the bytes, and that the check accepts exactly the encodings.
\<close>

unbundle bit_operations_syntax

text \<open>Clearing the low \<open>k\<close> bits of a byte.\<close>

lemma unat_high_bits: "unat (b AND NOT (mask k) :: uint8) = unat b div 2 ^ k * 2 ^ k"
proof -
  have e: "b AND NOT (mask k) = push_bit k (drop_bit k b)"
    by (rule bit_word_eqI) (auto simp: bit_simps)
  have u: "unat b < 2 ^ 8" using unsigned_less [of b] by simp
  then have l: "unat b div 2 ^ k * 2 ^ k < 2 ^ 8"
    using div_times_less_eq_dividend [of "unat b" "2 ^ k"] by (rule le_less_trans [rotated])
  have "unat (drop_bit k b) = unat b div 2 ^ k"
    unfolding unsigned_drop_bit_eq using u by (simp add: drop_bit_eq_div take_bit_nat_eq_self)
  then show ?thesis
    unfolding e unsigned_push_bit_eq using l by (simp add: push_bit_eq_mult take_bit_nat_eq_self)
qed

lemma high_bits_eq:
  assumes "m = NOT (mask k)" "k \<le> 7"
  shows "(b :: uint8) AND m = v \<longleftrightarrow> unat b div 2 ^ k * 2 ^ k = unat v"
  unfolding assms(1) word_unat_eq_iff unat_high_bits ..

lemma utf8_masks:
  fixes b :: uint8
  shows "b < 0x80 \<longleftrightarrow> unat b < 128"
    and "b AND 0xe0 = 0xc0 \<longleftrightarrow> 192 \<le> unat b \<and> unat b < 224"
    and "b AND 0xc0 = 0x80 \<longleftrightarrow> 128 \<le> unat b \<and> unat b < 192"
    and "b AND 0xfe = 0xc0 \<longleftrightarrow> 192 \<le> unat b \<and> unat b < 194"
    and "b AND 0xf0 = 0xe0 \<longleftrightarrow> 224 \<le> unat b \<and> unat b < 240"
    and "b AND 0xe0 = 0x80 \<longleftrightarrow> 128 \<le> unat b \<and> unat b < 160"
    and "b AND 0xe0 = 0xa0 \<longleftrightarrow> 160 \<le> unat b \<and> unat b < 192"
    and "b AND 0xfe = 0xbe \<longleftrightarrow> 190 \<le> unat b \<and> unat b < 192"
    and "b AND 0xf8 = 0xf0 \<longleftrightarrow> 240 \<le> unat b \<and> unat b < 248"
    and "b AND 0xf0 = 0x80 \<longleftrightarrow> 128 \<le> unat b \<and> unat b < 144"
proof -
  have m: "(0xe0 :: uint8) = NOT (mask 5)" "(0xc0 :: uint8) = NOT (mask 6)" "(0xfe :: uint8) = NOT (mask 1)"
    "(0xf0 :: uint8) = NOT (mask 4)" "(0xf8 :: uint8) = NOT (mask 3)"
    by (simp_all add: mask_eq_exp_minus_1)
  show "b < 0x80 \<longleftrightarrow> unat b < 128" by (simp add: word_less_nat_alt)
  show "b AND 0xe0 = 0xc0 \<longleftrightarrow> 192 \<le> unat b \<and> unat b < 224"
    "b AND 0xe0 = 0x80 \<longleftrightarrow> 128 \<le> unat b \<and> unat b < 160"
    "b AND 0xe0 = 0xa0 \<longleftrightarrow> 160 \<le> unat b \<and> unat b < 192"
    by (subst high_bits_eq [OF m(1)]; simp; linarith?)+
  show "b AND 0xc0 = 0x80 \<longleftrightarrow> 128 \<le> unat b \<and> unat b < 192"
    by (subst high_bits_eq [OF m(2)]; simp; linarith?)
  show "b AND 0xfe = 0xc0 \<longleftrightarrow> 192 \<le> unat b \<and> unat b < 194" "b AND 0xfe = 0xbe \<longleftrightarrow> 190 \<le> unat b \<and> unat b < 192"
    by (subst high_bits_eq [OF m(3)]; simp; linarith?)+
  show "b AND 0xf0 = 0xe0 \<longleftrightarrow> 224 \<le> unat b \<and> unat b < 240" "b AND 0xf0 = 0x80 \<longleftrightarrow> 128 \<le> unat b \<and> unat b < 144"
    by (subst high_bits_eq [OF m(4)]; simp; linarith?)+
  show "b AND 0xf8 = 0xf0 \<longleftrightarrow> 240 \<le> unat b \<and> unat b < 248"
    by (subst high_bits_eq [OF m(5)]; simp; linarith?)
qed

section \<open>The encoding\<close>

text \<open>UTF-8 as Unicode defines it, of the scalar values that nanopb accepts in a string: all but 0,
  which ends the string, and the two noncharacters at the end of the basic plane.\<close>

definition utf8_scalar :: "nat \<Rightarrow> bool" where
  "utf8_scalar c \<longleftrightarrow> 0 < c \<and> c < 0x110000 \<and> \<not> (0xD800 \<le> c \<and> c < 0xE000) \<and> c \<noteq> 0xFFFE \<and> c \<noteq> 0xFFFF"

definition utf8_codes :: "nat \<Rightarrow> nat list" where
  "utf8_codes c =
     (if c < 0x80 then [c]
      else if c < 0x800 then [0xC0 + c div 64, 0x80 + c mod 64]
      else if c < 0x10000 then [0xE0 + c div 64 div 64, 0x80 + c div 64 mod 64, 0x80 + c mod 64]
      else [0xF0 + c div 64 div 64 div 64, 0x80 + c div 64 div 64 mod 64, 0x80 + c div 64 mod 64, 0x80 + c mod 64])"

definition utf8_of :: "nat \<Rightarrow> uint8 list" where
  "utf8_of c = map of_nat (utf8_codes c)"

text \<open>The loop of the check, on the numbers of the next four bytes.\<close>

definition continuation :: "nat \<Rightarrow> bool" where
  "continuation n \<longleftrightarrow> 128 \<le> n \<and> n < 192"

lemma validate_numbers:
  fixes s :: "uint8 list"
  defines "n i \<equiv> unat (byte_at s i)"
  shows "pb_validate_utf8 s =
    (if n 0 = 0 then True
     else if n 0 < 128 then pb_validate_utf8 (drop 1 s)
     else if 194 \<le> n 0 \<and> n 0 < 224 then continuation (n 1) \<and> pb_validate_utf8 (drop 2 s)
     else if 224 \<le> n 0 \<and> n 0 < 240 then
       continuation (n 1) \<and> continuation (n 2) \<and> \<not> (n 0 = 224 \<and> n 1 < 160) \<and> \<not> (n 0 = 237 \<and> 160 \<le> n 1) \<and>
       \<not> (n 0 = 239 \<and> n 1 = 191 \<and> 190 \<le> n 2) \<and> pb_validate_utf8 (drop 3 s)
     else if 240 \<le> n 0 \<and> n 0 < 245 then
       continuation (n 1) \<and> continuation (n 2) \<and> continuation (n 3) \<and> \<not> (n 0 = 240 \<and> n 1 < 144) \<and>
       \<not> (n 0 = 244 \<and> 144 \<le> n 1) \<and> pb_validate_utf8 (drop 4 s)
     else False)"
proof -
  have z: "byte_at s 0 = 0 \<longleftrightarrow> n 0 = 0" and eqs: "byte_at s 0 = 0xe0 \<longleftrightarrow> n 0 = 224" "byte_at s 0 = 0xed \<longleftrightarrow> n 0 = 237"
    "byte_at s 0 = 0xef \<longleftrightarrow> n 0 = 239" "byte_at s 1 = 0xbf \<longleftrightarrow> n 1 = 191" "byte_at s 0 = 0xf0 \<longleftrightarrow> n 0 = 240"
    "byte_at s 0 = 0xf4 \<longleftrightarrow> n 0 = 244" "0x8f < byte_at s 1 \<longleftrightarrow> 144 \<le> n 1" "0xf4 < byte_at s 0 \<longleftrightarrow> 245 \<le> n 0"
    by (auto simp: n_def word_unat_eq_iff word_less_nat_alt)
  note step = pb_validate_utf8.simps [of s, unfolded z eqs utf8_masks, folded n_def]
  consider "n 0 < 128" | "128 \<le> n 0" "n 0 < 194" | "194 \<le> n 0" "n 0 < 224" | "224 \<le> n 0" "n 0 < 240"
    | "240 \<le> n 0" "n 0 < 245" | "245 \<le> n 0" by linarith
  then show ?thesis
    by cases (subst step; auto simp: continuation_def)+
qed


lemma utf8_digits:
  obtains a b d where "c = (a * 64 + b) * 64 + d" "b < 64" "d < (64 :: nat)"
    "c div 64 = a * 64 + b" "c mod 64 = d" "c div 64 div 64 = a" "c div 64 mod 64 = b"
proof -
  define a b d where "a = c div 64 div 64" "b = c div 64 mod 64" "d = c mod 64"
  show thesis by (rule that [of a b d]) (simp_all add: a_b_d_def)
qed

lemma utf8_codes_bytes: "utf8_scalar c \<Longrightarrow> n \<in> set (utf8_codes c) \<Longrightarrow> 0 < n \<and> n < 256"
  unfolding utf8_codes_def utf8_scalar_def
  by (simp split: if_splits; elim disjE conjE; simp; linarith?)

lemma unat_small: "n < 256 \<Longrightarrow> unat (of_nat n :: uint8) = n"
  by (simp add: unsigned_of_nat take_bit_nat_eq_self)

lemma byte_at_simps [simp]:
  "byte_at [] i = 0" "byte_at (b # s) 0 = b" "byte_at (b # s) (Suc i) = byte_at s i"
  by (simp_all add: byte_at_def)

lemma byte_at_codes:
  "utf8_scalar c \<Longrightarrow> i < length (utf8_codes c) \<Longrightarrow> unat (byte_at (utf8_of c @ s) i) = utf8_codes c ! i"
  using utf8_codes_bytes [of c "utf8_codes c ! i"]
  by (simp add: byte_at_def utf8_of_def nth_append unat_small)

lemma validate_scalar:
  assumes "utf8_scalar c"
  shows "pb_validate_utf8 (utf8_of c @ s) = pb_validate_utf8 s"
proof -
  have c: "0 < c" "c < 0x110000" "\<not> (0xD800 \<le> c \<and> c < 0xE000)" "c \<noteq> 0xFFFE" "c \<noteq> 0xFFFF"
    using assms by (simp_all add: utf8_scalar_def)
  note n = byte_at_codes [OF assms, of _ s]
  have l: "drop (length (utf8_codes c)) (utf8_of c @ s) = s" by (simp add: utf8_of_def)
  obtain a b d where abd: "c = (a * 64 + b) * 64 + d" "b < 64" "d < (64 :: nat)"
    "c div 64 = a * 64 + b" "c mod 64 = d" "c div 64 div 64 = a" "c div 64 mod 64 = b"
    by (rule utf8_digits)
  obtain e f where ef: "a = e * 64 + f" "f < 64" "a div 64 = e" "a mod 64 = f"
    by (rule that [of "a div 64" "a mod 64"]) simp_all
  have c3: "c = a * 4096 + b * 64 + d" and c4: "c = e * 262144 + f * 4096 + b * 64 + d"
    using abd(1) ef(1) by simp_all
  consider "c < 0x80" | "0x80 \<le> c" "c < 0x800" | "0x800 \<le> c" "c < 0x10000" | "0x10000 \<le> c" by linarith
  then show ?thesis
  proof cases
    case 1
    then have k: "utf8_codes c = [c]" by (simp add: utf8_codes_def)
    show ?thesis
      using n [of 0] l 1 c unfolding k by (subst validate_numbers) simp
  next
    case 2
    then have k: "utf8_codes c = [192 + (a * 64 + b), 128 + d]" by (simp add: utf8_codes_def abd(4,5))
    have "192 + (a * 64 + b) < 224" "194 \<le> 192 + (a * 64 + b)" unfolding abd(4) [symmetric] using 2 by linarith+
    then show ?thesis
      using n [of 0] n [of 1] l abd(3) unfolding k by (subst validate_numbers) (simp add: continuation_def numeral_2_eq_2)
  next
    case 3
    then have k: "utf8_codes c = [224 + a, 128 + b, 128 + d]" by (simp add: utf8_codes_def abd(5-7))
    have "224 + a < 240" "\<not> (224 + a = 224 \<and> 128 + b < 160)" "\<not> (224 + a = 237 \<and> 160 \<le> 128 + b)"
      "\<not> (224 + a = 239 \<and> 128 + b = 191 \<and> 190 \<le> 128 + d)" using 3 c3 abd(2,3) c(3-5) by linarith+
    then show ?thesis
      using n [of 0] n [of 1] n [of 2] l abd(2,3) unfolding k
      by (subst validate_numbers) (simp add: continuation_def numeral_2_eq_2 numeral_3_eq_3)
  next
    case 4
    then have k: "utf8_codes c = [240 + e, 128 + f, 128 + b, 128 + d]" by (simp add: utf8_codes_def abd(5-7) ef(3,4))
    have "240 + e < 245" "\<not> (240 + e = 240 \<and> 128 + f < 144)" "\<not> (240 + e = 244 \<and> 144 \<le> 128 + f)"
      using 4 c4 abd(2,3) ef(2) c(2) by linarith+
    moreover have "drop 4 (utf8_of c @ s) = s" using l unfolding k by (simp add: numeral_eq_Suc)
    ultimately show ?thesis
      using n [of 0] n [of 1] n [of 2] n [of 3] abd(2,3) ef(2) unfolding k
      by (subst validate_numbers) (simp add: continuation_def)
  qed
qed

lemma byte_number: "byte_at s i = of_nat (unat (byte_at s i))" by simp

lemma take_bytes:
  assumes "\<And>i. i < k \<Longrightarrow> byte_at s i \<noteq> 0"
  shows "s = map (byte_at s) [0..<k] @ drop k s"
proof -
  have "k \<le> length s"
  proof (rule ccontr)
    assume "\<not> k \<le> length s"
    then show False using assms [of "length s"] by (simp add: byte_at_def)
  qed
  then have "map (byte_at s) [0..<k] = take k s"
    by (intro nth_equalityI) (simp_all add: byte_at_def)
  then show ?thesis by simp
qed

text \<open>The scalar value in front, from the numbers of its bytes.\<close>

lemma codes_front:
  assumes "utf8_codes c = map (\<lambda>i. unat (byte_at s i)) [0..<k]" "\<And>i. i < k \<Longrightarrow> byte_at s i \<noteq> 0"
  shows "s = utf8_of c @ drop k s"
proof -
  have "utf8_of c = map (byte_at s) [0..<k]" unfolding utf8_of_def assms(1) by simp
  then show ?thesis using take_bytes [OF assms(2)] by simp
qed

lemma digit64: "d < 64 \<Longrightarrow> (x * 64 + d) div 64 = x \<and> (x * 64 + d) mod 64 = (d :: nat)"
  by simp

lemma validate_front:
  assumes v: "pb_validate_utf8 s" and nz: "byte_at s 0 \<noteq> 0"
  shows "\<exists>c k. utf8_scalar c \<and> s = utf8_of c @ drop k s \<and> 0 < k \<and> pb_validate_utf8 (drop k s)"
proof -
  define n where "n i = unat (byte_at s i)" for i
  have n0: "n 0 \<noteq> 0" using nz by (simp add: n_def unat_eq_zero)
  have z: "byte_at s i \<noteq> 0" if "0 < n i" for i using that by (auto simp: n_def)
  note V = validate_numbers [of s, folded n_def]
  consider "n 0 < 128" | "194 \<le> n 0" "n 0 < 224" | "224 \<le> n 0" "n 0 < 240" | "240 \<le> n 0" "n 0 < 245"
    using v n0 unfolding V by (auto split: if_splits)
  then show ?thesis
  proof cases
    case 1
    have "utf8_scalar (n 0)" using 1 n0 by (simp add: utf8_scalar_def)
    moreover have "s = utf8_of (n 0) @ drop 1 s"
      by (rule codes_front) (use 1 z n0 in \<open>auto simp: utf8_codes_def n_def [symmetric]\<close>)
    ultimately show ?thesis using v n0 1 unfolding V by (intro exI [of _ "n 0"] exI [of _ 1]) simp
  next
    case 2
    then have c1: "128 \<le> n 1" "n 1 < 192" "pb_validate_utf8 (drop 2 s)" using v unfolding V by (auto simp: continuation_def)
    define a d where "a = n 0 - 192" "d = n 1 - 128"
    have n: "n 0 = 192 + a" "n 1 = 128 + d" "d < 64" "2 \<le> a" "a < 32" using 2 c1 by (auto simp: a_d_def)
    have "utf8_scalar (a * 64 + d)" using n by (simp add: utf8_scalar_def)
    moreover have "s = utf8_of (a * 64 + d) @ drop 2 s"
      by (rule codes_front) (use n z n0 in \<open>auto simp: utf8_codes_def n_def [symmetric] less_Suc_eq numeral_2_eq_2\<close>)
    ultimately show ?thesis using c1(3) by (intro exI [of _ "a * 64 + d"] exI [of _ 2]) simp
  next
    case 3
    then have c1: "128 \<le> n 1" "n 1 < 192" "128 \<le> n 2" "n 2 < 192" "\<not> (n 0 = 224 \<and> n 1 < 160)" "\<not> (n 0 = 237 \<and> 160 \<le> n 1)"
      "\<not> (n 0 = 239 \<and> n 1 = 191 \<and> 190 \<le> n 2)" "pb_validate_utf8 (drop 3 s)"
      using v unfolding V by (auto simp: continuation_def)
    define a b d where "a = n 0 - 224" "b = n 1 - 128" "d = n 2 - 128"
    have n: "n 0 = 224 + a" "n 1 = 128 + b" "n 2 = 128 + d" "a < 16" "b < 64" "d < 64" using 3 c1 by (auto simp: a_b_d_def)
    define c where "c = (a * 64 + b) * 64 + d"
    have c: "c = a * 4096 + b * 64 + d" by (simp add: c_def)
    have q: "c div 64 = a * 64 + b" "c mod 64 = d" using digit64 [OF n(6), of "a * 64 + b"] unfolding c_def by blast+
    have r: "\<not> (a = 0 \<and> b < 32)" "\<not> (a = 13 \<and> 32 \<le> b)" "\<not> (a = 15 \<and> b = 63 \<and> 62 \<le> d)" using c1(5-7) unfolding n by linarith+
    have range: "0x800 \<le> c" "c < 0x10000"
      unfolding c using r(1) n(4-6) by (cases "a = 0"; linarith)+
    have "a = 13 \<and> 32 \<le> b" if "0xD800 \<le> c \<and> c < 0xE000"
    proof -
      have "a = 13" using that n(5,6) unfolding c by linarith
      then show ?thesis using that n(6) unfolding c by linarith
    qed
    moreover have "a = 15 \<and> b = 63 \<and> 62 \<le> d" if "0xFFFE \<le> c"
    proof -
      have "a = 15" using that n(4-6) unfolding c by linarith
      then show ?thesis using that n(5,6) unfolding c by linarith
    qed
    ultimately have "\<not> (0xD800 \<le> c \<and> c < 0xE000)" "c \<noteq> 0xFFFE" "c \<noteq> 0xFFFF" using r(2,3) by auto
    moreover have "0 < c" "c < 0x110000" using range by linarith+
    ultimately have "utf8_scalar c" unfolding utf8_scalar_def by blast
    moreover have "utf8_codes c = [224 + a, 128 + b, 128 + d]" using range digit64 [OF n(5), of a] by (simp add: utf8_codes_def q)
    then have "s = utf8_of c @ drop 3 s"
      using n(1-3) z [of 2] z
      by (intro codes_front) (auto simp: n_def [symmetric] less_Suc_eq numeral_2_eq_2 numeral_3_eq_3)
    ultimately show ?thesis using c1(8) by (intro exI [of _ c] exI [of _ 3]) simp
  next
    case 4
    then have c1: "128 \<le> n 1" "n 1 < 192" "128 \<le> n 2" "n 2 < 192" "128 \<le> n 3" "n 3 < 192" "\<not> (n 0 = 240 \<and> n 1 < 144)"
      "\<not> (n 0 = 244 \<and> 144 \<le> n 1)" "pb_validate_utf8 (drop 4 s)"
      using v unfolding V by (auto simp: continuation_def)
    define e f b d where "e = n 0 - 240" "f = n 1 - 128" "b = n 2 - 128" "d = n 3 - 128"
    have n: "n 0 = 240 + e" "n 1 = 128 + f" "n 2 = 128 + b" "n 3 = 128 + d" "e < 5" "f < 64" "b < 64" "d < 64"
      using 4 c1 by (auto simp: e_f_b_d_def)
    define c where "c = ((e * 64 + f) * 64 + b) * 64 + d"
    have c: "c = e * 262144 + f * 4096 + b * 64 + d" by (simp add: c_def)
    have q: "c div 64 = (e * 64 + f) * 64 + b" "c mod 64 = d" using digit64 [OF n(8), of "(e * 64 + f) * 64 + b"] unfolding c_def by blast+
    have r: "\<not> (e = 0 \<and> f < 16)" "\<not> (e = 4 \<and> 16 \<le> f)" using c1(7,8) unfolding n by linarith+
    have range: "0x10000 \<le> c" unfolding c using r(1) by (cases "e = 0"; linarith)
    have "c < 0x110000" unfolding c using r(2) n(5-8) by (cases "e = 4"; linarith)
    moreover have "0 < c" "\<not> (0xD800 \<le> c \<and> c < 0xE000)" "c \<noteq> 0xFFFE" "c \<noteq> 0xFFFF" using range by linarith+
    ultimately have "utf8_scalar c" unfolding utf8_scalar_def by blast
    moreover have "utf8_codes c = [240 + e, 128 + f, 128 + b, 128 + d]" using range digit64 [OF n(7), of "e * 64 + f"] digit64 [OF n(6), of e] by (simp add: utf8_codes_def q)
    ultimately have "s = utf8_of c @ drop (Suc (Suc (Suc (Suc 0)))) s"
      using n(1-4) z
      by (intro codes_front) (auto simp: n_def [symmetric] less_Suc_eq numeral_2_eq_2 numeral_3_eq_3)
    then have "s = utf8_of c @ drop 4 s" by (simp add: numeral_eq_Suc)
    with \<open>utf8_scalar c\<close> show ?thesis using c1(9) by (intro exI [of _ c] exI [of _ 4]) simp
  qed
qed


section \<open>The check decides UTF-8\<close>

lemma validate_sound:
  "pb_validate_utf8 s \<Longrightarrow> \<exists>cs rest. list_all utf8_scalar cs \<and> s = concat (map utf8_of cs) @ rest \<and> byte_at rest 0 = 0"
proof (induction "length s" arbitrary: s rule: less_induct)
  case less
  show ?case
  proof (cases "byte_at s 0 = 0")
    case True
    then show ?thesis by (intro exI [of _ "[]"] exI [of _ s]) simp
  next
    case False
    from validate_front [OF less.prems False] obtain c k where
      c: "utf8_scalar c" "s = utf8_of c @ drop k s" "0 < k" "pb_validate_utf8 (drop k s)" by blast
    have "s \<noteq> []" using False by auto
    then have "length (drop k s) < length s" using c(3) by simp
    from less.hyps [OF this c(4)] obtain cs rest where
      "list_all utf8_scalar cs" "drop k s = concat (map utf8_of cs) @ rest" "byte_at rest 0 = 0" by blast
    then show ?thesis
      using c(1,2) by (intro exI [of _ "c # cs"] exI [of _ rest]) simp
  qed
qed

lemma validate_complete:
  "list_all utf8_scalar cs \<Longrightarrow> byte_at rest 0 = 0 \<Longrightarrow> pb_validate_utf8 (concat (map utf8_of cs) @ rest)"
proof (induction cs)
  case Nil
  then show ?case by (subst pb_validate_utf8.simps) simp
next
  case (Cons c cs)
  then show ?case by (simp add: validate_scalar del: pb_validate_utf8.simps)
qed

lemma utf8_of_nonzero: "utf8_scalar c \<Longrightarrow> b \<in> set (utf8_of c) \<Longrightarrow> b \<noteq> 0"
  using utf8_codes_bytes [of c] unat_small by (fastforce simp: utf8_of_def)

definition c_string :: "uint8 list \<Rightarrow> uint8 list" where
  "c_string s = takeWhile (\<lambda>b. b \<noteq> 0) s"

lemma validate_iff:
  "pb_validate_utf8 s \<longleftrightarrow> (\<exists>cs. list_all utf8_scalar cs \<and> c_string s = concat (map utf8_of cs))"
proof
  assume "pb_validate_utf8 s"
  then obtain cs rest where cs: "list_all utf8_scalar cs" "s = concat (map utf8_of cs) @ rest" "byte_at rest 0 = 0"
    using validate_sound by blast
  have "takeWhile (\<lambda>b. b \<noteq> 0) rest = []" using cs(3) by (cases rest) simp_all
  then have "c_string s = concat (map utf8_of cs)"
    unfolding c_string_def cs(2) using cs(1) utf8_of_nonzero by (subst takeWhile_append2) (auto simp: list_all_iff)
  then show "\<exists>cs. list_all utf8_scalar cs \<and> c_string s = concat (map utf8_of cs)" using cs(1) by blast
next
  assume "\<exists>cs. list_all utf8_scalar cs \<and> c_string s = concat (map utf8_of cs)"
  then obtain cs where cs: "list_all utf8_scalar cs" "c_string s = concat (map utf8_of cs)" by blast
  have "s = c_string s @ dropWhile (\<lambda>b. b \<noteq> 0) s" by (simp add: c_string_def)
  moreover have "byte_at (dropWhile (\<lambda>b. b \<noteq> 0) s) 0 = 0"
    using hd_dropWhile [of "\<lambda>b. b \<noteq> 0" s]
    by (cases "dropWhile (\<lambda>b. b \<noteq> 0) s = []") (simp_all add: byte_at_def hd_conv_nth del: dropWhile_eq_Nil_conv)
  ultimately show "pb_validate_utf8 s"
    using validate_complete [OF cs(1), of "dropWhile (\<lambda>b. b \<noteq> 0) s"] cs(2) by simp
qed


text \<open>C30: The check of strings decides UTF-8. A C string is accepted exactly if it is the
  concatenation of the encodings of Unicode scalar values, each in its shortest form, surrogates
  excluded, and none of them one of the noncharacters U+FFFE and U+FFFF.\<close>

theorem validate_utf8_correct:
  "pb_validate_utf8 s \<longleftrightarrow> (\<exists>cs. list_all utf8_scalar cs \<and> c_string s = concat (map utf8_of cs))"
  by (rule validate_iff)


end
