(* ===== verification/Pb_Float.thy ===== *)
theory Pb_Float
  imports Codec_Properties Ieee_Float
begin

text \<open>
  The conversion that nanopb offers to targets without a usable \<open>double\<close> (its option
  \<open>PB_CONVERT_DOUBLE_FLOAT\<close>): a \<open>float\<close> of the program is a \<open>double\<close> on the wire.
  \<open>pb_encode_float_as_double\<close> of \<open>pb_encode.c\<close> widens the bit pattern,
  \<open>pb_decode_double_as_float\<close> of \<open>pb_decode.c\<close> narrows it. The messages of this
  repository hold no \<open>double\<close>, so the two are verified on their own: widening is exact
  against the IEEE-754 reading of the patterns, and narrowing undoes it on the wire.
\<close>

section \<open>Widening and narrowing\<close>

text \<open>The loop that normalises the significand of a denormal: it ends only if a bit is set below
  the one it looks for.\<close>

partial_function (option) normalise_mantissa :: "uint64 \<Rightarrow> int \<Rightarrow> (uint64 \<times> int) option" where
  "normalise_mantissa mantissa exponent =
     (if mantissa AND 0x800000 = 0
      then normalise_mantissa (push_bit 1 mantissa) (exponent - 1)
      else Some (mantissa, exponent))"

definition float_as_double :: "float32 \<Rightarrow> uint64 option" where
  "float_as_double i =
     (let sign = drop_bit 31 i AND 1;
          exponent = uint (drop_bit 23 i AND 0xFF) - 127;
          mantissa = ucast (i AND 0x7FFFFF);
          combine = (\<lambda>(m, e). push_bit 29 m OR push_bit 52 (word_of_int (e + 1023))
                       OR push_bit 63 (ucast sign))
      in map_option combine
        (if exponent = 128 then Some (mantissa, 1024)
         else if exponent = - 127 then
           (if mantissa = 0 then Some (mantissa, - 1023)
            else map_option (\<lambda>(m, e). (m AND 0x7FFFFF, e))
                   (normalise_mantissa (push_bit 1 mantissa) exponent))
         else Some (mantissa, exponent)))"

definition double_as_float :: "uint64 \<Rightarrow> float32" where
  "double_as_float val =
     (let sign = drop_bit 63 val AND 1;
          exponent = uint (drop_bit 52 val AND 0x7FF) - 1023;
          mantissa = ucast (drop_bit 28 val AND 0xFFFFFF) :: uint32;
          (mantissa, exponent) =
            (if exponent = 1024 then (drop_bit 1 mantissa, 128)
             else
               let (mantissa, exponent) =
                     (if 127 < exponent then (0, 128)
                      else if exponent < - 150 then (0, - 127)
                      else if exponent < - 126
                      then (drop_bit (nat (- 126 - exponent)) (mantissa OR 0x1000000), - 127)
                      else (mantissa, exponent));
                   mantissa = drop_bit 1 (mantissa + 1)
               in if mantissa AND 0x800000 \<noteq> 0
                  then (drop_bit 1 (mantissa AND 0x7FFFFF), exponent + 1)
                  else (mantissa, exponent))
      in mantissa OR push_bit 23 (word_of_int (exponent + 127)) OR push_bit 31 (ucast sign))"

definition pb_encode_float_as_double :: "pb_env \<Rightarrow> float32 \<Rightarrow> (pb, bool) state option" where
  "pb_encode_float_as_double env val = map_option (encode_fixed64_value env) (float_as_double val)"

definition pb_decode_double_as_float :: "nat \<Rightarrow> (pb, bool) state" where
  "pb_decode_double_as_float dest =
     check_some (pb_read_local 8) (\<lambda>bs. do {
       put_bytes dest (le_bytes 4 (double_as_float (le_word bs)));
       State_Monad.return True
     })"

section \<open>The loop ends\<close>

lemma and_bit: "(w :: 'a::len word) AND 2 ^ n = 0 \<longleftrightarrow> \<not> bit w n"
  by (rule and_exp_eq_0_iff_not_bit)

lemma mask_consts:
  "(w :: 'a::len word) AND 0x7FFFFF = take_bit 23 w"
  "(w :: 'a::len word) AND 0xFFFFFF = take_bit 24 w"
  "(w :: 'a::len word) AND 0x7FF = take_bit 11 w"
  "(w :: 'a::len word) AND 1 = take_bit 1 w"
  by (simp_all add: take_bit_eq_mask mask_eq_exp_minus_1)

lemma bit23: "(m :: 'a::len word) AND 0x800000 = 0 \<longleftrightarrow> \<not> bit m 23"
  using and_bit [of m 23] by simp

lemma bit23_unat:
  "unat (m :: uint64) < 2 ^ 24 \<Longrightarrow> bit m 23 \<longleftrightarrow> 2 ^ 23 \<le> unat m"
proof -
  assume "unat m < 2 ^ 24"
  then have "unat m div 2 ^ 23 = (if 2 ^ 23 \<le> unat m then 1 else 0)"
    by (auto intro: div_nat_eqI)
  moreover have "bit (unat m) 23 = bit m 23"
    by (simp add: bit_unsigned_iff)
  ultimately show ?thesis
    unfolding bit_iff_odd [of "unat m"] by (auto split: if_splits)
qed

lemma normalise_ends:
  assumes "0 < unat m" "unat m < 2 ^ 24"
  shows "\<exists>k. normalise_mantissa m e = Some (push_bit k m, e - int k) \<and>
     2 ^ 23 \<le> unat m * 2 ^ k \<and> unat m * 2 ^ k < 2 ^ 24"
  using assms
proof (induction "2 ^ 24 - unat m" arbitrary: m e rule: less_induct)
  case less
  show ?case
  proof (cases "bit m 23")
    case True
    then show ?thesis
      using less.prems bit23_unat by (intro exI [of _ 0]) (simp add: normalise_mantissa.simps bit23)
  next
    case False
    then have small: "unat m < 2 ^ 23"
      using bit23_unat less.prems(2) by auto
    have double: "unat (push_bit 1 m) = 2 * unat m"
      using small by (simp add: push_bit_eq_mult unat_word_ariths)
    obtain k where "normalise_mantissa (push_bit 1 m) (e - 1) = Some (push_bit k (push_bit 1 m), e - 1 - int k)"
      "2 ^ 23 \<le> unat (push_bit 1 m) * 2 ^ k" "unat (push_bit 1 m) * 2 ^ k < 2 ^ 24"
    proof -
      have "2 ^ 24 - unat (push_bit 1 m) < 2 ^ 24 - unat m" "0 < unat (push_bit 1 m)" "unat (push_bit 1 m) < 2 ^ 24"
        using small less.prems unfolding double by simp_all
      from less.hyps [OF this, of "e - 1"] that show ?thesis by blast
    qed
    then show ?thesis
      using False double
      by (intro exI [of _ "Suc k"]) (simp add: normalise_mantissa.simps [of m] bit23 push_bit_push_bit ac_simps)
  qed
qed

section \<open>The fields of a pattern\<close>

lemma pattern32:
  "(i :: float32) = take_bit 23 i OR push_bit 23 (take_bit 8 (drop_bit 23 i)) OR push_bit 31 (take_bit 1 (drop_bit 31 i))"
proof (rule bit_word_eqI)
  fix n assume "n < LENGTH(32)"
  then have "n < 23 \<or> (23 \<le> n \<and> n < 31) \<or> n = 31" by simp linarith
  then show "bit i n = bit (take_bit 23 i OR push_bit 23 (take_bit 8 (drop_bit 23 i)) OR push_bit 31 (take_bit 1 (drop_bit 31 i))) n"
    unfolding bit_or_iff bit_push_bit_iff bit_take_bit_iff bit_drop_bit_eq comp_apply by auto
qed

lemma pattern64_bit:
  fixes m e s :: uint64
  assumes small: "take_bit 52 m = m" "take_bit 11 e = e" "take_bit 1 s = s"
  shows "bit (m OR push_bit 52 e OR push_bit 63 s) n =
     (if n < 52 then bit m n else if n < 63 then bit e (n - 52) else if n = 63 then bit s 0 else False)"
proof -
  have "bit m n \<Longrightarrow> n < 52" "bit e n \<Longrightarrow> n < 11" "bit s n \<Longrightarrow> n < 1" for n
    using small by (metis bit_take_bit_iff)+
  from this(1) [of n] this(2) [of "n - 52"] this(3) [of "n - 63"] show ?thesis
    unfolding bit_or_iff bit_push_bit_iff by auto
qed

lemma fields64:
  fixes m e s :: uint64
  assumes "take_bit 52 m = m" "take_bit 11 e = e" "take_bit 1 s = s"
  defines "v \<equiv> m OR push_bit 52 e OR push_bit 63 s"
  shows "take_bit 11 (drop_bit 52 v) = e" "take_bit 1 (drop_bit 63 v) = s"
    "take_bit 24 (drop_bit 28 v) = drop_bit 28 m" "take_bit 52 v = m"
proof -
  have bits: "bit m n \<Longrightarrow> n < 52" "bit e n \<Longrightarrow> n < 11" "bit s n \<Longrightarrow> n < 1" for n
    using assms(1-3) by (metis bit_take_bit_iff)+
  have v: "bit v n =
     (if n < 52 then bit m n else if n < 63 then bit e (n - 52) else if n = 63 then bit s 0 else False)" for n
    unfolding v_def by (rule pattern64_bit [OF assms(1-3)])
  show "take_bit 11 (drop_bit 52 v) = e"
    by (rule bit_word_eqI, unfold bit_take_bit_iff bit_drop_bit_eq comp_apply v) (use bits(2) in auto)
  show "take_bit 1 (drop_bit 63 v) = s"
    by (rule bit_word_eqI, unfold bit_take_bit_iff bit_drop_bit_eq comp_apply v) (use bits(3) in auto)
  show "take_bit 24 (drop_bit 28 v) = drop_bit 28 m"
    by (rule bit_word_eqI, unfold bit_take_bit_iff bit_drop_bit_eq comp_apply v) (use bits(1) in force)
  show "take_bit 52 v = m"
    by (rule bit_word_eqI, unfold bit_take_bit_iff v) (use bits(1) in auto)
qed

section \<open>There and back\<close>

lemma wide_significand:
  fixes f :: uint32
  assumes "take_bit 23 f = f"
  shows "ucast (drop_bit 28 (push_bit 29 (ucast f :: uint64))) = push_bit 1 f"
    "take_bit 52 (push_bit 29 (ucast f :: uint64)) = push_bit 29 (ucast f)"
proof -
  have bits: "bit f n \<Longrightarrow> n < 23" for n
    using assms by (metis bit_take_bit_iff)
  show "ucast (drop_bit 28 (push_bit 29 (ucast f :: uint64))) = push_bit 1 f"
    by (rule bit_word_eqI, unfold bit_ucast_iff bit_drop_bit_eq bit_push_bit_iff comp_apply)
      (use bits in auto)
  show "take_bit 52 (push_bit 29 (ucast f :: uint64)) = push_bit 29 (ucast f)"
    by (rule bit_word_eqI, unfold bit_take_bit_iff bit_ucast_iff bit_push_bit_iff)
      (use bits in fastforce)
qed

lemma round_exact:
  fixes f :: uint32
  assumes "take_bit 23 f = f"
  shows "drop_bit 1 (push_bit 1 f) = f" "drop_bit 1 (push_bit 1 f + 1) = f" "f AND 0x800000 = 0"
proof -
  have bits: "bit f n \<Longrightarrow> n < 23" for n
    using assms by (metis bit_take_bit_iff)
  have "push_bit 1 f AND 1 = 0"
    by (rule bit_word_eqI, unfold bit_and_iff bit_push_bit_iff bit_1_iff) auto
  then have "push_bit 1 f + 1 = push_bit 1 f OR 1"
    by (rule disjunctive_add_eq_or)
  then show "drop_bit 1 (push_bit 1 f + 1) = f"
    by (simp only:) (rule bit_word_eqI, unfold bit_drop_bit_eq bit_or_iff bit_push_bit_iff bit_1_iff comp_apply, use bits in fastforce)
  show "drop_bit 1 (push_bit 1 f) = f"
    by (rule bit_word_eqI, unfold bit_drop_bit_eq bit_push_bit_iff comp_apply) (use bits in fastforce)
  show "f AND 0x800000 = 0"
    using bits [of 23] by (auto simp: bit23)
qed

lemma wide_unat: "unat (ucast (f :: uint32) :: uint64) = unat f"
proof -
  have "take_bit LENGTH(64) (unat f) = unat f"
    using less_trans [OF unat_less_exp [of f], of "2 ^ 64"] by (intro take_bit_nat_eq_self) simp
  then show ?thesis
    by (subst unsigned_ucast_eq)
qed

text \<open>What the widening makes of the fields of a pattern: the sign stays; the rest depends on the exponent.\<close>

definition wide :: "uint32 \<Rightarrow> uint64 \<Rightarrow> uint32 \<Rightarrow> uint64" where
  "wide sign e f = push_bit 29 (ucast f) OR push_bit 52 e OR push_bit 63 (ucast sign)"

lemma float_as_double_cases:
  fixes i :: float32
  defines "s \<equiv> take_bit 1 (drop_bit 31 i)" and "x \<equiv> uint (take_bit 8 (drop_bit 23 i))" and "f \<equiv> take_bit 23 i"
  shows "x = 255 \<Longrightarrow> float_as_double i = Some (wide s 2047 f)"
    and "x = 0 \<Longrightarrow> f = 0 \<Longrightarrow> float_as_double i = Some (wide s 0 0)"
    and "0 < x \<Longrightarrow> x < 255 \<Longrightarrow> float_as_double i = Some (wide s (word_of_int (x + 896)) f)"
    and "x = 0 \<Longrightarrow> f \<noteq> 0 \<Longrightarrow> \<exists>k. 0 < k \<and> k \<le> 23 \<and> 2 ^ 23 \<le> unat f * 2 ^ k \<and> unat f * 2 ^ k < 2 ^ 24 \<and>
       float_as_double i = Some (wide s (word_of_int (897 - int k)) (take_bit 23 (push_bit k f)))"
proof -
  have f: "take_bit 23 f = f"
    by (simp add: f_def)
  have fas: "float_as_double i = map_option (\<lambda>(m, e). push_bit 29 m OR push_bit 52 (word_of_int (e + 1023)) OR push_bit 63 (ucast s))
     (if x = 255 then Some (ucast f, 1024)
      else if x = 0 then
        (if f = 0 then Some (ucast f, - 1023)
         else map_option (\<lambda>(m, e). (take_bit 23 m, e)) (normalise_mantissa (push_bit 1 (ucast f)) (x - 127)))
      else Some (ucast f, x - 127))"
  proof -
    have "(ucast f :: uint64) = 0 \<longleftrightarrow> f = 0"
      using wide_unat [of f] by (metis unsigned_0 unsigned_eq_0_iff)
    then show ?thesis
      unfolding float_as_double_def Let_def mask_consts and_low_mask s_def x_def f_def by simp
  qed
  show "x = 255 \<Longrightarrow> float_as_double i = Some (wide s 2047 f)"
    by (simp add: fas wide_def)
  show "x = 0 \<Longrightarrow> f = 0 \<Longrightarrow> float_as_double i = Some (wide s 0 0)"
    by (simp add: fas wide_def)
  show "0 < x \<Longrightarrow> x < 255 \<Longrightarrow> float_as_double i = Some (wide s (word_of_int (x + 896)) f)"
    by (simp add: fas wide_def add.commute)
  assume x: "x = 0" "f \<noteq> 0"
  have small: "0 < unat f" "unat f < 2 ^ 23"
    using x(2) f unat_take_bit [of 23 f] by (simp_all add: unat_gt_0)
  let ?g = "push_bit 1 (ucast f :: uint64)"
  have g: "unat ?g = 2 * unat f"
    using small wide_unat [of f] by (simp add: push_bit_eq_mult unat_word_ariths)
  obtain k where k: "normalise_mantissa ?g (- 127) = Some (push_bit k ?g, - 127 - int k)"
    "2 ^ 23 \<le> unat ?g * 2 ^ k" "unat ?g * 2 ^ k < 2 ^ 24"
    using normalise_ends [of ?g "- 127"] small g by auto
  show "\<exists>k. 0 < k \<and> k \<le> 23 \<and> 2 ^ 23 \<le> unat f * 2 ^ k \<and> unat f * 2 ^ k < 2 ^ 24 \<and>
       float_as_double i = Some (wide s (word_of_int (897 - int k)) (take_bit 23 (push_bit k f)))"
  proof (intro exI [of _ "Suc k"] conjI)
    show "2 ^ 23 \<le> unat f * 2 ^ Suc k" "unat f * 2 ^ Suc k < 2 ^ 24"
      using k(2,3) unfolding g by (simp_all add: ac_simps)
    moreover have "1 * 2 ^ Suc k \<le> unat f * 2 ^ Suc k"
      using small(1) by (intro mult_le_mono1) simp
    ultimately have "(2 :: nat) ^ Suc k < 2 ^ 24" by linarith
    then show "Suc k \<le> 23"
      using power_less_imp_less_exp [of "2 :: nat" "Suc k" 24] by simp
    have "take_bit 23 (push_bit k ?g) = ucast (take_bit 23 (push_bit (Suc k) f))"
      by (rule bit_word_eqI, unfold push_bit_push_bit bit_take_bit_iff bit_ucast_iff bit_push_bit_iff) auto
    then show "float_as_double i = Some (wide s (word_of_int (897 - int (Suc k))) (take_bit 23 (push_bit (Suc k) f)))"
      using x k(1) by (simp add: fas wide_def)
  qed simp
qed


lemma wide_exponent:
  assumes E: "0 \<le> E" "E < 2048"
  shows "take_bit 11 (word_of_int E :: uint64) = word_of_int E"
proof -
  have "take_bit 11 E = E"
    using E by (simp add: take_bit_int_eq_self)
  moreover have "take_bit 11 (word_of_int (take_bit 11 E) :: uint64) = word_of_int (take_bit 11 E)"
    by transfer (simp add: take_bit_take_bit)
  ultimately show ?thesis by simp
qed

lemma wide_sign:
  fixes s :: uint32
  assumes s: "take_bit 1 s = s"
  shows "take_bit 1 (ucast s :: uint64) = ucast s"
proof (rule bit_word_eqI)
  have "bit s n \<Longrightarrow> n < 1" for n
    using s by (metis bit_take_bit_iff)
  then show "bit (take_bit 1 (ucast s :: uint64)) n = bit (ucast s :: uint64) n" for n
    unfolding bit_take_bit_iff bit_ucast_iff by auto
qed

lemma double_as_float_wide:
  fixes f s :: uint32
  assumes f: "take_bit 23 f = f" and s: "take_bit 1 s = s" and E: "0 \<le> E" "E < 2048"
  shows "E = 2047 \<Longrightarrow> double_as_float (wide s (word_of_int E) f) = f OR push_bit 23 255 OR push_bit 31 s"
    and "E < 873 \<Longrightarrow> double_as_float (wide s (word_of_int E) f) = push_bit 31 s"
    and "896 < E \<Longrightarrow> E < 1151 \<Longrightarrow> double_as_float (wide s (word_of_int E) f) =
       f OR push_bit 23 (word_of_int (E - 896)) OR push_bit 31 s"
    and "873 \<le> E \<Longrightarrow> E \<le> 896 \<Longrightarrow> drop_bit (nat (897 - E)) (push_bit 1 f OR 0x1000000) = push_bit 1 g \<Longrightarrow>
      take_bit 23 g = g \<Longrightarrow> double_as_float (wide s (word_of_int E) f) = g OR push_bit 31 s"
proof -
  let ?v = "wide s (word_of_int E) f"
  have ucast_s: "ucast (ucast s :: uint64) = s"
    by (rule bit_word_eqI) (simp add: bit_simps)
  note F = fields64 [OF wide_significand(2) [OF f] wide_exponent [OF E] wide_sign [OF s], folded wide_def]
  have d: "double_as_float ?v =
    (let (mantissa, exponent) =
            (if E = 2047 then (f, 128)
             else
               let (mantissa, exponent) =
                     (if 1150 < E then (0, 128)
                      else if E < 873 then (0, - 127)
                      else if E < 897
                      then (drop_bit (nat (897 - E)) (push_bit 1 f OR 0x1000000), - 127)
                      else (push_bit 1 f, E - 1023));
                   mantissa = drop_bit 1 (mantissa + 1)
               in if mantissa AND 0x800000 \<noteq> 0
                  then (drop_bit 1 (take_bit 23 mantissa), exponent + 1)
                  else (mantissa, exponent))
      in mantissa OR push_bit 23 (word_of_int (exponent + 127)) OR push_bit 31 s)"
  proof -
    have "uint (word_of_int E :: uint64) = E"
      using E by (simp add: uint_word_of_int)
    then show ?thesis
      unfolding double_as_float_def mask_consts F Let_def wide_significand(1) [OF f] ucast_s
      using round_exact(1) [OF f] by (simp add: algebra_simps)
  qed
  show "E = 2047 \<Longrightarrow> double_as_float ?v = f OR push_bit 23 255 OR push_bit 31 s"
    unfolding d by simp
  show "E < 873 \<Longrightarrow> double_as_float ?v = push_bit 31 s"
    unfolding d by simp
  show "896 < E \<Longrightarrow> E < 1151 \<Longrightarrow> double_as_float ?v =
       f OR push_bit 23 (word_of_int (E - 896)) OR push_bit 31 s"
    using round_exact(2,3) [OF f] unfolding d by simp
  show "873 \<le> E \<Longrightarrow> E \<le> 896 \<Longrightarrow> drop_bit (nat (897 - E)) (push_bit 1 f OR 0x1000000) = push_bit 1 g \<Longrightarrow>
      take_bit 23 g = g \<Longrightarrow> double_as_float ?v = g OR push_bit 31 s"
    using round_exact(2,3) [of g] unfolding d by simp
qed
lemma unat_push:
  "unat w * 2 ^ k < 2 ^ LENGTH('a) \<Longrightarrow> unat (push_bit k (w :: 'a::len word)) = unat w * 2 ^ k"
  by (subst unsigned_push_bit_eq) (simp add: push_bit_eq_mult take_bit_nat_eq_self)

lemma denormal_back:
  fixes f :: uint32
  assumes "2 ^ 23 \<le> unat f * 2 ^ k" "unat f * 2 ^ k < 2 ^ 24"
  shows "drop_bit k (push_bit 1 (take_bit 23 (push_bit k f)) OR 0x1000000) = push_bit 1 f"
proof -
  let ?p = "push_bit k f"
  have p: "unat ?p = unat f * 2 ^ k"
    using assms(2) by (intro unat_push) simp
  have "unat ?p div 2 ^ 23 = 1"
    using assms unfolding p by (intro div_nat_eqI) simp_all
  then have one: "bit ?p 23"
    using bit_unsigned_iff [of ?p 23, where 'a = nat] unfolding bit_iff_odd [of "unat ?p"] by simp
  have "take_bit 24 ?p = ?p"
    unfolding word_eq_iff_unsigned [where 'a = nat] unat_take_bit p using assms(2) by simp
  then have top: "bit ?p n \<Longrightarrow> n < 24" for n
    by (metis bit_take_bit_iff)
  have "push_bit 1 (take_bit 23 ?p) OR 2 ^ 24 = push_bit 1 ?p"
  proof (rule bit_word_eqI)
    fix n assume "n < LENGTH(32)"
    then show "bit (push_bit 1 (take_bit 23 ?p) OR 2 ^ 24) n = bit (push_bit 1 ?p) n"
      unfolding bit_or_iff bit_push_bit_iff [of 1] bit_take_bit_iff bit_exp_iff
      using one top [of "n - 1"] by (cases "n = 24") auto
  qed
  moreover have "drop_bit k (push_bit 1 ?p) = push_bit 1 f"
    unfolding word_eq_iff_unsigned [where 'a = nat]
  proof -
    have b: "unat f * 2 ^ Suc k < 2 ^ LENGTH(32)"
      using assms(2) by simp
    then have "unat (push_bit (Suc k) f) = unat f * 2 ^ Suc k"
      by (rule unat_push)
    moreover have "unat f * 2 ^ 1 \<le> unat f * 2 ^ Suc k"
      by (intro mult_le_mono2 power_increasing) simp_all
    then have "unat (push_bit 1 f) = unat f * 2 ^ 1"
      using b by (intro unat_push) (rule le_less_trans)
    ultimately show "unat (drop_bit k (push_bit 1 ?p)) = unat (push_bit 1 f)"
      by (simp add: unat_drop_bit push_bit_push_bit)
  qed
  ultimately show ?thesis by simp
qed

lemma double_as_float_wide_all:
  "\<exists>d. float_as_double i = Some d \<and> double_as_float d = i"
proof -
  let ?s = "take_bit 1 (drop_bit 31 i)" and ?x = "take_bit 8 (drop_bit 23 i)" and ?f = "take_bit 23 i"
  have i: "i = ?f OR push_bit 23 ?x OR push_bit 31 ?s"
    by (rule pattern32)
  have tb: "take_bit 23 ?f = ?f" "take_bit 1 ?s = ?s"
    unfolding take_bit_take_bit by simp_all
  have x: "word_of_int (uint ?x) = ?x" "0 \<le> uint ?x" "uint ?x < 256"
  proof -
    show "uint ?x < 256"
      using unat_take_bit [of 8 "drop_bit 23 i"] unfolding uint_nat by simp
  qed simp_all
  note C = float_as_double_cases [of i] and D = double_as_float_wide [OF tb]
  consider "uint ?x = 255" | "uint ?x = 0" "?f = 0" | "0 < uint ?x" "uint ?x < 255" | "uint ?x = 0" "?f \<noteq> 0"
    using x by linarith
  then show ?thesis
  proof cases
    case 1
    then have "?x = 255" using x(1) by simp
    with C(1) [OF 1] D(1) [of 2047] i show ?thesis by simp
  next
    case 2
    then have "?x = 0" using x(1) by simp
    with C(2) [OF 2] D(2) [of 0] i 2 show ?thesis by simp
  next
    case 3
    with C(3) [OF 3] D(3) [of "uint ?x + 896"] i x show ?thesis by simp
  next
    case 4
    then have x0: "?x = 0" using x(1) by simp
    obtain k where k: "0 < k" "k \<le> 23" "2 ^ 23 \<le> unat ?f * 2 ^ k" "unat ?f * 2 ^ k < 2 ^ 24"
      and w: "float_as_double i = Some (wide ?s (word_of_int (897 - int k)) (take_bit 23 (push_bit k ?f)))"
      using C(4) [OF 4] by blast
    have "double_as_float (wide ?s (word_of_int (897 - int k)) (take_bit 23 (push_bit k ?f))) = ?f OR push_bit 31 ?s"
      using k denormal_back [OF k(3,4)]
      by (intro double_as_float_wide(4) [OF _ tb(2)]) simp_all
    with w i x0 show ?thesis by simp
  qed
qed
section \<open>The widened value\<close>

text \<open>Two values of the two formats are the same number, or both infinite with the same sign, or both no number.\<close>

fun same_number :: "fval \<Rightarrow> fval \<Rightarrow> bool" where
  "same_number FNaN FNaN = True"
| "same_number (FInf s) (FInf t) = (s = t)"
| "same_number (FFin s m e) (FFin t n f) =
     (s = t \<and> m * 2 ^ nat (e - min e f) = n * 2 ^ nat (f - min e f))"
| "same_number _ _ = False"

lemma mask52: "(w :: 'a::len word) AND 0xFFFFFFFFFFFFF = take_bit 52 w"
  by (simp add: take_bit_eq_mask mask_eq_exp_minus_1)

lemma f64_decode_wide:
  fixes f s :: uint32
  assumes f: "take_bit 23 f = f" and s: "take_bit 1 s = s" and E: "0 \<le> E" "E < 2048"
  shows "f64_decode (wide s (word_of_int E) f) =
    (if E = 2047 then (if f = 0 then FInf (bit s 0) else FNaN)
     else if E = 0 then FFin (bit s 0) (uint f * 2 ^ 29) (- 1074)
     else FFin (bit s 0) (uint f * 2 ^ 29 + 2 ^ 52) (E - 1075))"
proof -
  let ?v = "wide s (word_of_int E) f"
  note F = fields64 [OF wide_significand(2) [OF f] wide_exponent [OF E] wide_sign [OF s], folded wide_def]
  have "bit ?v 63 = bit s 0"
    using arg_cong [OF F(2), of "\<lambda>w. bit w 0"]
    unfolding bit_take_bit_iff bit_drop_bit_eq comp_apply bit_ucast_iff by simp
  moreover have "uint (word_of_int E :: uint64) = E"
    using E by (simp add: uint_word_of_int)
  moreover have "unat (push_bit 29 (ucast f :: uint64)) = unat f * 2 ^ 29"
    using unat_take_bit [of 23 f] unfolding f wide_unat [symmetric] by (intro unat_push) simp
  then have "uint (push_bit 29 (ucast f :: uint64)) = uint f * 2 ^ 29"
    by (simp only: uint_nat of_nat_mult of_nat_power of_nat_numeral)
  ultimately show ?thesis
    unfolding f64_decode_def mask_consts mask52 F Let_def by (auto simp: unsigned_eq_0_iff)
qed



text \<open>Narrowing cuts a significand off, so a NaN whose payload is in the low bits becomes infinite.\<close>

lemma narrowed_nan:
  "f64_decode 0x7FF0000000000001 = FNaN \<and> f32_decode (double_as_float 0x7FF0000000000001) = FInf False"
  by (simp add: f64_decode_def f32_decode_def double_as_float_def)

section \<open>On the wire\<close>

text \<open>C37: Round trip of a float through the eight bytes of a double. For every pattern, denormals,
  infinities and NaNs included, the loop of the encoder ends; with room for eight bytes the encoder
  writes the widened pattern, and the decoder reads it back and stores the four bytes of the
  original pattern at its destination.\<close>

theorem float_double_roundtrip:
  assumes "os_callback (ostr s) = Os_buf_write" "room env 8 s"
  shows "\<exists>d m. float_as_double w = Some d \<and> pb_encode_float_as_double env w = Some m \<and>
    run_state m s = (True, emit (le_bytes 8 d) s) \<and>
    run_state (pb_decode_double_as_float dest) (reread (le_bytes 8 d) s) =
      (True, (advance 8 (reread (le_bytes 8 d) s))
         \<lparr>mem := store dest (le_bytes 4 w) (mem (reread (le_bytes 8 d) s))\<rparr>)"
proof -
  obtain d where d: "float_as_double w = Some d" "double_as_float d = w"
    using double_as_float_wide_all by blast
  have "run_state (encode_fixed64_value env d) s = (True, emit (le_bytes 8 d) s)"
    using run_pb_write [of env "le_bytes 8 d" s] assms(2)
    by (simp add: encode_fixed64_value_def fixed64_bytes)
  moreover have again: "le_word (le_bytes 8 d) = d"
    by (rule le_word_bytes) simp
  have "stream_has (le_bytes 8 d) (reread (le_bytes 8 d) s)"
    by (rule stream_has_reread [OF assms(1)])
  then have "run_state (pb_decode_double_as_float dest) (reread (le_bytes 8 d) s) =
      (True, (advance 8 (reread (le_bytes 8 d) s))
         \<lparr>mem := store dest (le_bytes 4 w) (mem (reread (le_bytes 8 d) s))\<rparr>)"
    using load_advance [of "le_bytes 8 d" "reread (le_bytes 8 d) s"] again d(2)
    by (auto simp: pb_decode_double_as_float_def run_pb_read_local stream_has_def)
  ultimately show ?thesis
    using d(1) by (simp add: pb_encode_float_as_double_def)
qed

text \<open>The least positive float, a denormal.\<close>

theorem float_double_roundtrip_witness:
  "\<exists>d m. float_as_double 1 = Some d \<and> pb_encode_float_as_double sim_lib 1 = Some m \<and>
     fst (run_state m (sim_pb 8 (\<lambda>a. 0))) \<and>
     load (mem (snd (run_state (pb_decode_double_as_float 200) (reread (le_bytes 8 d) (sim_pb 8 (\<lambda>a. 0)))))) 200 4
       = [1, 0, 0, 0]"
proof -
  have room: "room sim_lib 8 (sim_pb 8 (\<lambda>a. 0))"
    by (simp add: room_def)
  have one: "le_bytes 4 (1 :: uint32) = [1, 0, 0, 0]"
    by (simp add: numeral_eq_Suc)
  from float_double_roundtrip [OF sim_pb_simps(1) room, where w = 1 and dest = 200]
  obtain d m where dm: "float_as_double 1 = Some d" "pb_encode_float_as_double sim_lib 1 = Some m"
    and w: "run_state m (sim_pb 8 (\<lambda>a. 0)) = (True, emit (le_bytes 8 d) (sim_pb 8 (\<lambda>a. 0)))"
    and r: "run_state (pb_decode_double_as_float 200) (reread (le_bytes 8 d) (sim_pb 8 (\<lambda>a. 0))) =
      (True, (advance 8 (reread (le_bytes 8 d) (sim_pb 8 (\<lambda>a. 0))))
         \<lparr>mem := store 200 (le_bytes 4 (1 :: float32)) (mem (reread (le_bytes 8 d) (sim_pb 8 (\<lambda>a. 0))))\<rparr>)"
    by blast
  have four: "length [1, 0, 0, 0 :: uint8] = 4" by simp
  show ?thesis
    using dm w r load_store_same [of 200 "[1, 0, 0, 0]"] unfolding one four
    by (intro exI [of _ d] exI [of _ m]) simp
qed

end
