(* ===== verification/Pb_Safety.thy ===== *)
theory Pb_Safety
  imports Codec_Properties
begin

text \<open>
  The decoder on arbitrary input. Whatever bytes the stream holds, decoding a message
  writes only into the structure it fills, reads only on within the stream, and never
  runs out of fuel or dereferences a null pointer. The proof follows the code: an
  operation is \<open>confined\<close> to a range of addresses, the collection \<open>confined_intros\<close>
  holds a rule for every construct and helper, and the two recursive functions are
  handled together, by induction on the nesting of the message.
\<close>

section \<open>Confined operations\<close>

text \<open>
  A step from \<open>s\<close> to \<open>s'\<close> that changes no memory outside the range, moves the input
  stream on by no more bytes than it held, and does not get stuck.
\<close>

definition ok_step :: "nat \<Rightarrow> nat \<Rightarrow> pb \<Rightarrow> pb \<Rightarrow> bool" where
  "ok_step lo hi s s' \<longleftrightarrow>
     (\<forall>x. x < lo \<or> hi \<le> x \<longrightarrow> mem s' x = mem s x) \<and>
     bytes_left (istr s') \<le> bytes_left (istr s) \<and>
     is_state (istr s) \<le> is_state (istr s') \<and>
     is_state (istr s') + bytes_left (istr s') \<le> is_state (istr s) + bytes_left (istr s) \<and>
     ostr s' = ostr s \<and> stuck s' = stuck s"

definition confined :: "nat \<Rightarrow> nat \<Rightarrow> (pb, 'a) state \<Rightarrow> bool" where
  "confined lo hi m \<longleftrightarrow> (\<forall>s. ok_step lo hi s (snd (run_state m s)))"

named_theorems confined_intros

lemma confinedD: "confined lo hi m \<Longrightarrow> ok_step lo hi s (snd (run_state m s))"
  by (simp add: confined_def)

lemma ok_step_refl [simp]: "ok_step lo hi s s"
  by (simp add: ok_step_def)

lemma ok_step_trans: "ok_step lo hi s t \<Longrightarrow> ok_step lo hi t u \<Longrightarrow> ok_step lo hi s u"
  unfolding ok_step_def by fastforce

lemma ok_step_widen: "ok_step lo hi s t \<Longrightarrow> lo' \<le> lo \<Longrightarrow> hi \<le> hi' \<Longrightarrow> ok_step lo' hi' s t"
  by (auto simp: ok_step_def)

lemma confined_widen: "confined lo hi m \<Longrightarrow> lo' \<le> lo \<Longrightarrow> hi \<le> hi' \<Longrightarrow> confined lo' hi' m"
  unfolding confined_def by (blast intro: ok_step_widen)

lemma confined_bind [confined_intros]:
  "confined lo hi m \<Longrightarrow> (\<And>a. confined lo hi (f a)) \<Longrightarrow> confined lo hi (State_Monad.bind m f)"
  unfolding confined_def by (auto intro: ok_step_trans)

lemma confined_bind_where:
  "confined lo hi m \<Longrightarrow> (\<And>s a. fst (run_state m s) = a \<Longrightarrow> confined lo hi (f a)) \<Longrightarrow>
     confined lo hi (State_Monad.bind m f)"
  unfolding confined_def by (auto intro: ok_step_trans)

lemma confined_return [confined_intros]: "confined lo hi (State_Monad.return a)"
  by (simp add: confined_def)

lemma confined_gets [confined_intros]: "confined lo hi (gets f)"
  by (simp add: confined_def)

lemma confined_if [confined_intros]:
  "(c \<Longrightarrow> confined lo hi m) \<Longrightarrow> (\<not> c \<Longrightarrow> confined lo hi n) \<Longrightarrow> confined lo hi (if c then m else n)"
  by simp

lemma confined_if_then [confined_intros]: "(c \<Longrightarrow> confined lo hi m) \<Longrightarrow> confined lo hi (if_then c m)"
  by (simp add: if_then_def confined_return)

lemma confined_ignore [confined_intros]: "confined lo hi m \<Longrightarrow> confined lo hi (ignore m)"
  by (simp add: confined_def)

lemma confined_check [confined_intros]:
  "confined lo hi m \<Longrightarrow> confined lo hi n \<Longrightarrow> confined lo hi (check m n)"
  unfolding check_def by (intro confined_intros)

lemma confined_check_some [confined_intros]:
  "confined lo hi m \<Longrightarrow> (\<And>x. confined lo hi (f x)) \<Longrightarrow> confined lo hi (check_some m f)"
  unfolding check_some_def by (intro confined_bind) (auto split: option.split intro: confined_return)

lemma confined_option [confined_intros]:
  "(r = None \<Longrightarrow> confined lo hi m) \<Longrightarrow> (\<And>x. r = Some x \<Longrightarrow> confined lo hi (f x)) \<Longrightarrow>
     confined lo hi (case r of None \<Rightarrow> m | Some x \<Rightarrow> f x)"
  by (cases r) simp_all

lemma confined_prod [confined_intros]:
  "(\<And>x y. r = (x, y) \<Longrightarrow> confined lo hi (f x y)) \<Longrightarrow> confined lo hi (case r of (x, y) \<Rightarrow> f x y)"
  by (cases r) simp

lemma confined_errors [confined_intros]:
  "confined lo hi (is_return_error msg)" "confined lo hi (is_return_none msg)" "confined lo hi (is_set_error msg)"
  by (simp_all add: confined_def ok_step_def is_set_error_def)

lemma confined_reads [confined_intros]:
  "confined lo hi (get_u8 a)" "confined lo hi (get_u16 a)" "confined lo hi (get_ptr env a)"
  by (simp_all add: confined_def)

lemma confined_put_bytes [confined_intros]:
  "lo \<le> a \<Longrightarrow> a + length bs \<le> hi \<Longrightarrow> confined lo hi (put_bytes a bs)"
  by (auto simp: confined_def ok_step_def store_def)

lemma confined_put_u16 [confined_intros]:
  "lo \<le> a \<Longrightarrow> a + 2 \<le> hi \<Longrightarrow> confined lo hi (put_u16 a w)"
  unfolding put_u16_def by (intro confined_intros) simp_all

lemma confined_fixed_count [confined_intros]: "confined lo hi (modify (fixed_count_size_update f))"
  by (simp add: confined_def ok_step_def)

lemma confined_with_fixed_count [confined_intros]: "confined lo hi m \<Longrightarrow> confined lo hi (with_fixed_count m)"
  unfolding with_fixed_count_def by (intro confined_intros)

section \<open>The input stream\<close>

lemma buf_copy_outside: "x < dest \<or> dest + (i + n) \<le> x \<Longrightarrow> buf_copy dest b i n m x = m x"
  by (induction n arbitrary: i m) auto

lemma confined_pb_read [confined_intros]:
  assumes "buf \<noteq> 0 \<Longrightarrow> lo \<le> buf \<and> buf + n \<le> hi"
  shows "confined lo hi (pb_read buf n)"
  using assms buf_copy_outside [of _ buf 0 n]
  by (auto simp: confined_def ok_step_def pb_read_def buf_read_def take_left_def Let_def)

lemma confined_take_left [confined_intros]: "confined lo hi (take_left n)"
  by (auto simp: confined_def ok_step_def take_left_def)

lemma confined_pb_read_local [confined_intros]: "confined lo hi (pb_read_local n)"
  by (auto simp: confined_def ok_step_def pb_read_local_def buf_read_def take_left_def Let_def)

lemma confined_readbyte [confined_intros]: "confined lo hi pb_readbyte"
  by (auto simp: confined_def ok_step_def pb_readbyte_def buf_read_def take_left_def Let_def)

lemma readbyte_left:
  "fst (run_state pb_readbyte s) \<noteq> None \<Longrightarrow> bytes_left (istr (snd (run_state pb_readbyte s))) < bytes_left (istr s)"
  by (auto simp: pb_readbyte_def buf_read_def take_left_def Let_def split: if_splits)

lemma confined_with_istream [confined_intros]: "confined lo hi m \<Longrightarrow> confined lo hi (with_istream sub m)"
  by (auto simp: confined_def ok_step_def with_istream_def)

lemma confined_varint32_loop:
  "64 \<le> bitpos + 7 * n \<Longrightarrow> confined lo hi (varint32_loop (Suc n) bitpos result)"
proof (induction n arbitrary: bitpos result)
  case 0
  then show ?case
    unfolding varint32_loop.simps(2) Let_def by (intro confined_intros) simp_all
next
  case (Suc n)
  show ?case
    unfolding varint32_loop.simps(2) [of "Suc n"] Let_def by (intro confined_intros Suc.IH) (use Suc.prems in simp_all)
qed

lemma confined_varint32_eof [confined_intros]: "confined lo hi pb_decode_varint32_eof"
proof -
  have "confined lo hi (varint32_loop 10 7 r)" for r
    using confined_varint32_loop [of 7 9] by (simp add: numeral_eq_Suc del: varint32_loop.simps)
  then show ?thesis
    unfolding pb_decode_varint32_eof_def by (intro confined_intros)
qed

lemma confined_varint32 [confined_intros]: "confined lo hi pb_decode_varint32"
  unfolding pb_decode_varint32_def by (intro confined_intros)

lemma confined_varint_loop [confined_intros]: "confined lo hi (varint_loop n bitpos result)"
  by (induction n arbitrary: bitpos result)
    (unfold varint_loop.simps Let_def, (intro confined_intros; simp)+)

lemma confined_varint [confined_intros]: "confined lo hi pb_decode_varint" "confined lo hi pb_decode_svarint"
  unfolding pb_decode_varint_def pb_decode_svarint_def by (intro confined_intros)+

lemma confined_tag [confined_intros]: "confined lo hi pb_decode_tag"
  unfolding pb_decode_tag_def by (intro confined_intros)

text \<open>A tag that has been read has consumed at least one byte.\<close>

lemma varint32_left:
  "fst (fst (run_state pb_decode_varint32_eof s)) \<noteq> None \<Longrightarrow>
     bytes_left (istr (snd (run_state pb_decode_varint32_eof s))) < bytes_left (istr s)"
proof -
  let ?t = "snd (run_state pb_readbyte s)"
  assume r: "fst (fst (run_state pb_decode_varint32_eof s)) \<noteq> None"
  then have "bytes_left (istr ?t) < bytes_left (istr s)"
    by (intro readbyte_left) (auto simp: pb_decode_varint32_eof_def split: option.splits)
  moreover have "confined 0 0 (varint32_loop 10 7 v)" for v
    using confined_varint32_loop [of 7 9] by (simp add: numeral_eq_Suc del: varint32_loop.simps)
  then have "bytes_left (istr (snd (run_state (varint32_loop 10 7 v) ?t))) \<le> bytes_left (istr ?t)" for v
    using confinedD unfolding ok_step_def by blast
  ultimately show ?thesis
    using r le_less_trans
    by (auto simp: pb_decode_varint32_eof_def is_set_error_def simp del: varint32_loop.simps split: option.splits prod.splits if_splits)
qed

lemma tag_left:
  "fst (fst (run_state pb_decode_tag s)) \<noteq> None \<Longrightarrow>
     bytes_left (istr (snd (run_state pb_decode_tag s))) < bytes_left (istr s)"
  using varint32_left [of s] by (auto simp: pb_decode_tag_def split: prod.splits option.splits)

text \<open>Skipping a varint: the loop reads a byte in every round.\<close>

lemma skip_loop_ok:
  "bytes_left (istr s) < n \<Longrightarrow> ok_step lo hi s (snd (run_state (skip_varint_loop n) s))"
proof (induction n arbitrary: s)
  case (Suc n)
  let ?t = "snd (run_state (pb_read_local 1) s)"
  have t: "ok_step lo hi s ?t"
    by (rule confinedD [OF confined_pb_read_local])
  show ?case
  proof (cases "bytes_left (istr s) = 0")
    case True
    then show ?thesis using t by (simp add: pb_read_local_def)
  next
    case False
    then have "bytes_left (istr ?t) < n"
      using Suc.prems by (auto simp: pb_read_local_def buf_read_def take_left_def Let_def)
    from ok_step_trans [OF t Suc.IH [OF this]] t show ?thesis
      by (auto simp del: One_nat_def split: option.split)
  qed
qed simp

lemma confined_skip [confined_intros]:
  "confined lo hi pb_skip_varint" "confined lo hi (pb_skip_string env)" "confined lo hi (pb_skip_field env wt)"
proof -
  show v: "confined lo hi pb_skip_varint"
    unfolding confined_def pb_skip_varint_def
    by (simp del: skip_varint_loop.simps) (intro allI skip_loop_ok; simp)
  show t: "confined lo hi (pb_skip_string env)"
    unfolding pb_skip_string_def by (intro confined_intros) simp_all
  show "confined lo hi (pb_skip_field env wt)"
    unfolding pb_skip_field_def by (intro confined_intros v t) simp_all
qed

text \<open>A substream is confined to its bytes, and closing it moves the stream past them.\<close>

lemma substream_step:
  assumes "\<And>sub u. mem u = mem s \<Longrightarrow> ok_step lo hi u (snd (run_state (m sub) u))"
  shows "ok_step lo hi s (snd (run_state (check_some pb_make_string_substream (\<lambda>substream. do {
     (status, sub) \<leftarrow> with_istream substream (m substream);
     if c sub then is_return_error msg
     else check (pb_close_string_substream sub) (State_Monad.return status) })) s))"
proof -
  let ?m = "check_some pb_make_string_substream (\<lambda>substream. do {
     (status, sub) \<leftarrow> with_istream substream (m substream);
     if c sub then is_return_error msg
     else check (pb_close_string_substream sub) (State_Monad.return status) })"
  let ?t = "snd (run_state pb_decode_varint32 s)"
  have t: "ok_step lo hi s ?t"
    by (rule confinedD [OF confined_varint32])
  have "ok_step lo hi ?t (snd (run_state ?m s))"
  proof (cases "fst (run_state pb_decode_varint32 s)")
    case None
    then show ?thesis by (simp add: pb_make_string_substream_def)
  next
    case (Some sz)
    let ?sub = "(istr ?t)\<lparr>bytes_left := unat sz\<rparr>"
    let ?u = "?t\<lparr>istr := ?sub\<rparr>"
    let ?v = "snd (run_state (m ?sub) ?u)"
    have "mem ?t = mem s"
      using confinedD [OF confined_varint32, of 0 0 s] by (auto simp: ok_step_def)
    then have "ok_step lo hi ?u ?v"
      by (intro assms) simp
    then show ?thesis using Some
      by (cases "bytes_left (istr ?t) < unat sz")
        (auto simp: pb_make_string_substream_def take_left_def with_istream_def
           pb_close_string_substream_def ok_step_def pb_read_def buf_read_def Let_def)
  qed
  with t show "ok_step lo hi s (snd (run_state ?m s))"
    by (rule ok_step_trans)
qed

lemma confined_substream:
  assumes "\<And>sub. confined lo hi (m sub)"
  shows "confined lo hi (check_some pb_make_string_substream (\<lambda>substream. do {
     (status, sub) \<leftarrow> with_istream substream (m substream);
     check (pb_close_string_substream sub) (State_Monad.return status) }))"
  unfolding confined_def
  using substream_step [where c = "\<lambda>sub. False" and m = m] confinedD [OF assms] by simp

section \<open>Fields\<close>

text \<open>One item of a field in its range: its data there, and not shorter than its type.\<close>

definition item_within :: "nat \<Rightarrow> nat \<Rightarrow> field_iter \<Rightarrow> bool" where
  "item_within lo hi iter \<longleftrightarrow>
     PB_LTYPE (ftype iter) \<noteq> PB_LTYPE_SUBMSG_W_CB \<and>
     lo \<le> pData iter \<and> pData iter + unat (data_size iter) \<le> hi \<and>
     (PB_LTYPE (ftype iter) = PB_LTYPE_BOOL \<longrightarrow> 1 \<le> unat (data_size iter)) \<and>
     (PB_LTYPE (ftype iter) = PB_LTYPE_FIXED32 \<longrightarrow> 4 \<le> unat (data_size iter)) \<and>
     (PB_LTYPE (ftype iter) = PB_LTYPE_FIXED64 \<longrightarrow> 8 \<le> unat (data_size iter))"

text \<open>
  A field whose data, and whose presence flag, counter or union selector, lie in the range:
  static and without callbacks; the counter of an array lies before its items.
\<close>

definition field_within :: "nat \<Rightarrow> nat \<Rightarrow> field_iter \<Rightarrow> bool" where
  "field_within lo hi iter \<longleftrightarrow>
     PB_ATYPE (ftype iter) = PB_ATYPE_STATIC \<and> PB_LTYPE (ftype iter) \<noteq> PB_LTYPE_EXTENSION \<and>
     item_within lo (pData iter + unat (data_size iter)) iter \<and> pData iter = pField iter \<and>
     pField iter + (if PB_HTYPE (ftype iter) = PB_HTYPE_REPEATED
                    then unat (data_size iter) * unat (array_size iter) else unat (data_size iter)) \<le> hi \<and>
     (case pSize iter of
        Size_null \<Rightarrow> PB_HTYPE (ftype iter) = PB_HTYPE_REQUIRED \<or> PB_HTYPE (ftype iter) = PB_HTYPE_OPTIONAL
      | Size_at a \<Rightarrow> lo \<le> a \<and> a + 2 \<le> hi \<and> (PB_HTYPE (ftype iter) = PB_HTYPE_REPEATED \<longrightarrow> a + 2 \<le> pField iter)
      | _ \<Rightarrow> False)"

lemma field_within_item:
  "field_within lo hi iter \<Longrightarrow> PB_HTYPE (ftype iter) \<noteq> PB_HTYPE_REPEATED \<Longrightarrow> item_within lo hi iter"
  by (auto simp: field_within_def item_within_def)

lemma field_within_size:
  assumes "field_within lo hi iter" "pSize iter \<noteq> Size_null"
  obtains a where "pSize iter = Size_at a" "lo \<le> a" "a + 2 \<le> hi"
  using assms by (cases "pSize iter") (auto simp: field_within_def)

lemma confined_size [confined_intros]:
  assumes "field_within lo hi iter" "pSize iter \<noteq> Size_null"
  shows "confined lo hi (get_size iter)" "confined lo hi (put_size n iter)" "confined lo hi (put_has b iter)"
proof -
  obtain a where a: "pSize iter = Size_at a" "lo \<le> a" "a + 2 \<le> hi"
    by (rule field_within_size [OF assms])
  show "confined lo hi (get_size iter)"
    unfolding get_size_def using a by (simp add: confined_reads)
  show "confined lo hi (put_size n iter)"
    unfolding put_size_def using a by (simp add: confined_bind confined_put_u16 confined_return)
  show "confined lo hi (put_has b iter)"
    unfolding put_has_def using a by (simp add: confined_bind confined_put_bytes confined_return)
qed

lemma same_iter:
  "fst (run_state (put_size n iter) s) = iter \<or> pSize iter = Size_self"
  "fst (run_state (put_has b iter) s) = iter \<or> pSize iter = Size_self"
  by (cases "pSize iter"; simp add: put_size_def put_has_def)+

lemma confined_bind_iter:
  assumes "confined lo hi m" "\<And>s. fst (run_state m s) = x" "confined lo hi (f x)"
  shows "confined lo hi (State_Monad.bind m f)"
  using assms unfolding confined_def by (auto intro: ok_step_trans)

lemma confined_wrong_wire [confined_intros]:
  "confined lo hi m \<Longrightarrow> confined lo hi (wrong_wire_type ws w m)"
  unfolding wrong_wire_type_def by (intro confined_intros)

lemma confined_store_clamped:
  assumes "item_within lo hi field" "n \<le> unat (data_size field)"
  shows "confined lo hi (store_clamped field val clamp n)"
  using assms unfolding store_clamped_def
  by (intro confined_intros) (auto simp: item_within_def)

lemma confined_pb_dec_varint [confined_intros]:
  assumes "item_within lo hi field"
  shows "confined lo hi (pb_dec_varint field)"
  unfolding pb_dec_varint_def
  by (intro confined_intros confined_store_clamped [OF assms]) simp_all

lemma confined_dec_scalars [confined_intros]:
  assumes "item_within lo hi field"
  shows "PB_LTYPE (ftype field) = PB_LTYPE_BOOL \<Longrightarrow> confined lo hi (pb_dec_bool field)"
    "PB_LTYPE (ftype field) = PB_LTYPE_FIXED32 \<Longrightarrow> confined lo hi (pb_decode_fixed32 (pData field))"
    "PB_LTYPE (ftype field) = PB_LTYPE_FIXED64 \<Longrightarrow> confined lo hi (pb_decode_fixed64 (pData field))"
  unfolding pb_dec_bool_def pb_decode_bool_def pb_decode_fixed32_def pb_decode_fixed64_def
  by (intro confined_intros; use assms in \<open>simp add: item_within_def\<close>)+

text \<open>The computed size is exact unless the sum wraps, which the first comparison detects.\<close>

lemma wrap_exact:
  assumes "2 \<le> size_bits env" "k \<le> 2" "\<not> wrap env (n + k) < n"
  shows "wrap env (n + k) = n + k"
proof (rule ccontr)
  let ?M = "2 ^ size_bits env :: nat"
  assume "wrap env (n + k) \<noteq> n + k"
  then have M: "?M \<le> n + k" by (metis mod_less not_less wrap_def)
  have four: "4 \<le> ?M"
    using power_increasing [OF assms(1), of "2 :: nat"] by simp
  have "(n + k) mod ?M \<le> n + k - ?M"
    using M by (simp add: mod_if [of "n + k"] mod_less_eq_dividend)
  then show False
    using assms(2,3) M four by (simp add: wrap_def)
qed

lemma confined_fixed_length [confined_intros]:
  assumes "item_within lo hi field"
  shows "confined lo hi (pb_dec_fixed_length_bytes field)"
  unfolding pb_dec_fixed_length_bytes_def
  by (intro confined_intros) (use assms in \<open>simp_all add: item_within_def\<close>)

lemma confined_dec_sized [confined_intros]:
  assumes "item_within lo hi field" "2 \<le> size_bits env"
  shows "confined lo hi (pb_dec_bytes env field)" "confined lo hi (pb_dec_string env field)"
proof -
  have d: "lo \<le> pData field" "pData field + unat (data_size field) \<le> hi"
    using assms(1) by (simp_all add: item_within_def)
  show "confined lo hi (pb_dec_bytes env field)"
    unfolding pb_dec_bytes_def Let_def
    by (intro confined_intros)
      (use d wrap_exact [OF assms(2), of 2] in \<open>simp_all add: not_less\<close>, (fastforce simp: not_less)+)
  have minus: "- 1 = (0xFFFFFFFF :: uint32)" by simp
  have one: "sz \<noteq> 0xFFFFFFFF \<Longrightarrow> unat (sz + 1) = unat sz + 1" for sz :: uint32
    using unatSuc [of sz] minus by (simp add: add_eq_0_iff add.commute)
  have room: "unat sz \<le> wrap env (unat (sz + 1)) \<Longrightarrow> wrap env (unat (sz + 1)) \<le> unat (data_size field) \<Longrightarrow>
      pData field + unat sz + 1 \<le> hi" if "sz \<noteq> 0xFFFFFFFF" for sz :: uint32
    using d one [OF that] wrap_exact [OF assms(2), of 1 "unat sz"] by auto
  show "confined lo hi (pb_dec_string env field)"
    unfolding pb_dec_string_def Let_def
    apply (intro confined_intros)
    subgoal for x using d by simp
    subgoal for x using room [of x] by simp
    subgoal for x using d room [of x] by simp
    done
qed

text \<open>A submessage: its bytes are its own stream, and its structure lies within the field.\<close>

lemma confined_dec_submessage:
  assumes "item_within lo hi field"
    and "\<And>d flags. submsg_desc field = Some d \<Longrightarrow> confined lo hi (dec d (pData field) flags)"
  shows "confined lo hi (pb_dec_submessage env dec field)"
proof (cases "submsg_desc field")
  case None
  have "confined lo hi (check_some pb_make_string_substream (\<lambda>substream. is_return_error msg))" for msg
    unfolding pb_make_string_substream_def by (intro confined_intros)
  then show ?thesis using None by (simp add: pb_dec_submessage_def)
next
  case (Some d)
  have cb: "submsg_callback env field = State_Monad.return (True, False)"
    using assms(1) by (simp add: submsg_callback_def item_within_def)
  show ?thesis
    unfolding pb_dec_submessage_def Some option.case cb Let_def
    by (rule confined_substream) (intro confined_intros assms(2) Some)
qed

lemma confined_basic_field:
  assumes "item_within lo hi field" "2 \<le> size_bits env"
    and "\<And>d flags. PB_LTYPE (ftype field) = PB_LTYPE_SUBMESSAGE \<Longrightarrow> submsg_desc field = Some d \<Longrightarrow>
       confined lo hi (dec d (pData field) flags)"
  shows "confined lo hi (decode_basic_field env dec w field)"
  unfolding decode_basic_field_def Let_def
  by (intro confined_intros confined_dec_submessage assms)
    (use assms(1) in \<open>auto simp: item_within_def\<close>)

text \<open>
  What the initialisation and the decoder of a submessage have to guarantee for the
  field to be safe, wherever an item of the field lies.
\<close>

definition submsg_safe :: "pb_env \<Rightarrow> decoder \<Rightarrow> initialiser \<Rightarrow> field_iter \<Rightarrow> bool" where
  "submsg_safe env dec dfl field \<longleftrightarrow>
     (PB_LTYPE (ftype field) = PB_LTYPE_SUBMESSAGE \<longrightarrow>
       (\<exists>d. submsg_desc field = Some d \<and>
         (\<forall>q. q \<noteq> 0 \<longrightarrow>
           (\<forall>flags. confined q (q + unat (data_size field)) (dec d q flags)) \<and>
           (\<forall>m. fst (pb_field_iter_begin env m d q) \<longrightarrow>
             confined q (q + unat (data_size field)) (dfl (snd (pb_field_iter_begin env m d q)))))))"

lemma submsg_safe_data: "submsg_safe env dec dfl (field\<lparr>pData := a\<rparr>) = submsg_safe env dec dfl field"
  by (simp add: submsg_safe_def)

lemma confined_run_dfl [confined_intros]: "confined lo hi (dfl iter) \<Longrightarrow> confined lo hi (run_dfl dfl iter)"
  unfolding run_dfl_def by (intro confined_intros)

lemma confined_basic:
  assumes "item_within lo hi field" "2 \<le> size_bits env" "submsg_safe env dec dfl field" "pData field \<noteq> 0"
  shows "confined lo hi (decode_basic_field env dec w field)"
proof (rule confined_basic_field [OF assms(1,2)])
  fix d flags
  assume "PB_LTYPE (ftype field) = PB_LTYPE_SUBMESSAGE" "submsg_desc field = Some d"
  then have "confined (pData field) (pData field + unat (data_size field)) (dec d (pData field) flags)"
    using assms(3,4) by (auto simp: submsg_safe_def)
  then show "confined lo hi (dec d (pData field) flags)"
    by (rule confined_widen) (use assms(1) in \<open>auto simp: item_within_def\<close>)
qed

lemma confined_put_then:
  assumes "field_within lo hi field" "pSize field \<noteq> Size_null" "confined lo hi (f field)"
  shows "confined lo hi (State_Monad.bind (put_size n field) f)"
    "confined lo hi (State_Monad.bind (put_has b field) f)"
proof -
  have "fst (run_state (put_size n field) s) = field" "fst (run_state (put_has b field) s) = field" for s
    using same_iter [of _ field s] assms(1) by (cases "pSize field"; simp add: field_within_def; blast)+
  then show "confined lo hi (State_Monad.bind (put_size n field) f)"
    "confined lo hi (State_Monad.bind (put_has b field) f)"
    by (intro confined_bind_iter [where x = field] confined_size assms; blast)+
qed

lemma confined_submsg_begin:
  assumes "submsg_safe env dec dfl field" "item_within lo hi field" "pData field \<noteq> 0"
    and "PB_LTYPE (ftype field) = PB_LTYPE_SUBMESSAGE"
    and "submsg_desc field = Some d" "pb_field_iter_begin env m d (pData field) = (True, iter)"
  shows "confined lo hi (dfl iter)"
proof -
  have "confined (pData field) (pData field + unat (data_size field)) (dfl iter)"
    using assms(1,3-) unfolding submsg_safe_def by (metis fst_conv option.inject snd_conv)
  then show ?thesis
    by (rule confined_widen) (use assms(2) in \<open>auto simp: item_within_def\<close>)
qed

text \<open>
  The loop of a packed array: the counter \<open>n\<close> stands before the items and is not written by the
  decoding of one, so item \<open>n\<close> is the next one, and the loop ends at the capacity of the array.
\<close>

lemma array_item:
  fixes n :: uint16
  assumes "field_within lo hi field" "PB_HTYPE (ftype field) = PB_HTYPE_REPEATED" "n < array_size field"
  defines "q \<equiv> pField field + unat (data_size field) * unat n"
  shows "item_within q (q + unat (data_size field)) (field\<lparr>pData := q\<rparr>)"
    and "lo \<le> q" "q + unat (data_size field) \<le> hi"
proof -
  have "Suc (unat n) \<le> unat (array_size field)"
    using assms(3) by (simp add: word_less_nat_alt)
  then have "unat (data_size field) * Suc (unat n) \<le> unat (data_size field) * unat (array_size field)"
    by (rule mult_le_mono2)
  then show "lo \<le> q" "q + unat (data_size field) \<le> hi"
    using assms(1,2) by (auto simp: field_within_def item_within_def q_def)
  show "item_within q (q + unat (data_size field)) (field\<lparr>pData := q\<rparr>)"
    using assms(1) by (simp add: field_within_def item_within_def)
qed

lemma confined_array_item:
  fixes n :: uint16
  assumes "field_within lo hi field" "2 \<le> size_bits env" "submsg_safe env dec dfl field"
    and "pField field \<noteq> 0" "PB_HTYPE (ftype field) = PB_HTYPE_REPEATED" "n < array_size field"
  defines "q \<equiv> pField field + unat (data_size field) * unat n"
  shows "confined q (q + unat (data_size field)) (decode_basic_field env dec w (field\<lparr>pData := q\<rparr>))"
  by (rule confined_basic [OF _ assms(2)])
    (use array_item(1) [OF assms(1,5,6)] assms(3,4) in \<open>simp_all add: submsg_safe_data q_def\<close>)

lemma packed_loop_safe:
  fixes n :: uint16
  assumes f: "field_within lo hi field" and e: "2 \<le> size_bits env" and s: "submsg_safe env dec dfl field"
    and p: "pField field \<noteq> 0" and rep: "PB_HTYPE (ftype field) = PB_HTYPE_REPEATED" and a: "pSize field = Size_at a"
  shows "load_word 2 (mem st) a = n \<Longrightarrow> k \<noteq> 0 \<Longrightarrow> unat (array_size field) < unat n + k \<Longrightarrow>
     ok_step lo hi st (snd (run_state (packed_loop env dec k
       (field\<lparr>pData := pField field + unat (data_size field) * unat n\<rparr>)) st))"
proof (induction k arbitrary: n st)
  case (Suc k)
  let ?q = "pField field + unat (data_size field) * unat n"
  let ?field = "field\<lparr>pData := ?q\<rparr>"
  let ?m = "decode_basic_field env dec PB_WT_PACKED ?field"
  let ?t = "snd (run_state ?m st)"
  have size: "run_state (get_size (field\<lparr>pData := q\<rparr>)) u = (load_word 2 (mem u) a, u)"
    "run_state (put_size n' (field\<lparr>pData := q\<rparr>)) u = (field\<lparr>pData := q\<rparr>, snd (run_state (put_u16 a n') u))" for q u n'
    by (simp_all add: get_size_def put_size_def a)
  show ?case
  proof (cases "0 < bytes_left (istr st) \<and> n < array_size field")
    case False
    then show ?thesis using Suc.prems(1) by (auto simp: size)
  next
    case True
    then have n: "n < array_size field" by simp
    note r = array_item(2,3) [OF f rep n]
    have "ok_step ?q (?q + unat (data_size field)) st ?t"
      by (rule confinedD [OF confined_array_item [OF f e s p rep n]])
    moreover have "a + 2 \<le> ?q" "lo \<le> a" "a + 2 \<le> hi"
      using f rep by (auto simp: field_within_def a)
    ultimately have t: "ok_step lo hi st ?t" and count: "load_word 2 (mem ?t) a = n"
      using r Suc.prems(1) load_cong [of 2 "mem ?t" a "mem st"] by (auto simp: ok_step_def load_word_def)
    show ?thesis
    proof (cases "fst (run_state ?m st)")
      case False
      then show ?thesis using True t Suc.prems(1) by (simp add: size)
    next
      case ok: True
      let ?u = "snd (run_state (put_u16 a (n + 1)) ?t)"
      have u: "ok_step lo hi ?t ?u"
        by (rule confinedD [OF confined_put_u16]) fact+
      have "unat (array_size field) < 65536"
        by (rule order.strict_trans2 [OF unsigned_less]) simp
      moreover have "unat n < unat (array_size field)" using n by (simp only: word_less_nat_alt)
      ultimately have "unat n + 1 < 65536" by linarith
      then have Suc_n: "unat (n + 1) = unat n + 1"
        by (simp add: unat_word_ariths(1))
      have "load_word 2 (mem ?u) a = n + 1"
        using load_store_same [of a "le_bytes 2 (n + 1)" "mem ?t"] le_word_bytes [of 2 "n + 1"]
        by (simp add: load_word_def)
      moreover have "k \<noteq> 0" "unat (array_size field) < unat (n + 1) + k"
        using Suc.prems(3) n Suc_n by (auto simp: word_less_nat_alt)
      ultimately have "ok_step lo hi ?u (snd (run_state (packed_loop env dec k
          (field\<lparr>pData := pField field + unat (data_size field) * unat (n + 1)\<rparr>)) ?u))"
        by (rule Suc.IH)
      moreover have "dec_next_item ?field = field\<lparr>pData := pField field + unat (data_size field) * unat (n + 1)\<rparr>"
        unfolding Suc_n by (simp add: dec_next_item_def)
      then have "run_state (packed_loop env dec (Suc k) ?field) st = run_state (packed_loop env dec k
          (field\<lparr>pData := pField field + unat (data_size field) * unat (n + 1)\<rparr>)) ?u"
        using True ok count Suc.prems(1) by (simp add: size)
      ultimately show ?thesis
        using ok_step_trans [OF t ok_step_trans [OF u]] by simp
    qed
  qed
qed simp

lemma confined_repeated_field:
  assumes f: "field_within lo hi field" and e: "2 \<le> size_bits env" and s: "submsg_safe env dec dfl field"
    and p: "pField field \<noteq> 0" and rep: "PB_HTYPE (ftype field) = PB_HTYPE_REPEATED"
  shows "confined lo hi (decode_static_field env dec dfl w field)"
proof -
  obtain a where a: "pSize field = Size_at a"
    using f rep by (cases "pSize field") (auto simp: field_within_def pb_types)
  have null: "pSize field \<noteq> Size_null" by (simp add: a)
  have ht: "PB_HTYPE (ftype field) \<noteq> PB_HTYPE_REQUIRED" "PB_HTYPE (ftype field) \<noteq> PB_HTYPE_OPTIONAL"
    using rep by (simp_all add: pb_types)
  let ?at = "\<lambda>n :: uint16. field\<lparr>pData := pField field + unat (data_size field) * unat n\<rparr>"
  have size: "run_state (get_size field) u = (load_word 2 (mem u) a, u)" for u
    by (simp add: get_size_def a)
  have put: "State_Monad.bind (put_size n' (?at n)) f = State_Monad.bind (put_u16 a n') (\<lambda>_. f (?at n))" for n n' f
    by (simp add: put_size_def a State_Monad.bind_assoc)
  define packed where "packed = (\<lambda>n. check_some pb_make_string_substream (\<lambda>substream. do {
       (status, sub) \<leftarrow> with_istream substream (packed_loop env dec (unat (array_size field) + 1) (?at n));
       if bytes_left sub \<noteq> 0 then is_return_error ''array overflow''
       else check (pb_close_string_substream sub) (State_Monad.return status)
     }))"
  define single where "single = (\<lambda>n. do {
       field' \<leftarrow> put_size (n + 1) (?at n);
       if array_size field \<le> n then is_return_error ''array overflow''
       else decode_basic_field env dec w field'
     })"
  have split: "decode_static_field env dec dfl w field = do {
       n \<leftarrow> get_size field;
       if w = PB_WT_STRING \<and> PB_LTYPE (ftype field) \<le> PB_LTYPE_LAST_PACKABLE then packed n else single n
     }"
    unfolding packed_def single_def decode_static_field_def Let_def if_not_P [OF ht(1)] if_not_P [OF ht(2)] if_P [OF rep]
    by (simp cong: if_cong)
  have "ok_step lo hi s (snd (run_state (packed (load_word 2 (mem s) a)) s))" for s
    unfolding packed_def
    by (rule substream_step, rule packed_loop_safe [OF f e s p rep a]) simp_all
  moreover have "confined lo hi (single n)" for n
    unfolding single_def put
  proof (intro confined_intros)
    show "lo \<le> a" "a + 2 \<le> hi" using f by (simp_all add: field_within_def a)
    show "confined lo hi (decode_basic_field env dec w (?at n))" if "\<not> array_size field \<le> n"
      by (rule confined_widen [OF confined_array_item [OF f e s p rep]])
        (use array_item(2,3) [OF f rep, of n] that in \<open>simp_all add: not_le\<close>)
  qed
  ultimately show ?thesis
    unfolding split confined_def by (simp add: size)
qed

lemma confined_static_field:
  assumes f: "field_within lo hi field" and e: "2 \<le> size_bits env" and s: "submsg_safe env dec dfl field"
    and p: "pField field \<noteq> 0"
  shows "confined lo hi (decode_static_field env dec dfl w field)"
proof (cases "PB_HTYPE (ftype field) = PB_HTYPE_REPEATED")
  case True
  then show ?thesis by (rule confined_repeated_field [OF assms])
next
  case ht: False
  have i: "item_within lo hi field" by (rule field_within_item [OF f ht])
  have q: "pData field \<noteq> 0" using f p by (simp add: field_within_def)
  have lt: "PB_LTYPE (ftype field) \<noteq> PB_LTYPE_SUBMSG_W_CB"
    and d: "lo \<le> pData field" "pData field + unat (data_size field) \<le> hi"
    using i by (simp_all add: item_within_def)
  note b = confined_basic [OF i e s q]
  consider (req) "PB_HTYPE (ftype field) = PB_HTYPE_REQUIRED" | (opt) "PB_HTYPE (ftype field) = PB_HTYPE_OPTIONAL"
    | (oneof) "PB_HTYPE (ftype field) \<noteq> PB_HTYPE_REQUIRED" "PB_HTYPE (ftype field) \<noteq> PB_HTYPE_OPTIONAL"
    by blast
  then show ?thesis
  proof cases
    case req
    then show ?thesis using b by (simp add: decode_static_field_def)
  next
    case opt
    moreover have "PB_HTYPE_OPTIONAL \<noteq> PB_HTYPE_REQUIRED" by (simp add: pb_types)
    moreover have "confined lo hi (do {
        field \<leftarrow> (if pSize field \<noteq> Size_null then put_has True field else State_Monad.return field);
        decode_basic_field env dec w field })"
      using confined_put_then(2) [OF f, of "\<lambda>field. decode_basic_field env dec w field" True] b
      by (cases "pSize field = Size_null") simp_all
    ultimately show ?thesis by (simp add: decode_static_field_def)
  next
    case oneof
    then have null: "pSize field \<noteq> Size_null" using f by (auto simp: field_within_def)
    have sub: "submsg_desc field \<noteq> None" if "PB_LTYPE_IS_SUBMSG (ftype field)"
      using that s lt by (auto simp: PB_LTYPE_IS_SUBMSG_def submsg_safe_def)
    show ?thesis
      unfolding decode_static_field_def Let_def if_not_P [OF oneof(1)] if_not_P [OF oneof(2)] if_not_P [OF ht]
      by (intro confined_intros confined_put_then f null b)
        (use d lt sub in \<open>auto simp: PB_LTYPE_IS_SUBMSG_def intro: confined_submsg_begin [OF s i q]\<close>)
  qed
qed

lemma confined_decode_field:
  assumes "field_within lo hi field" "2 \<le> size_bits env" "submsg_safe env dec dfl field" "pField field \<noteq> 0"
  shows "confined lo hi (decode_field env dec dfl w field)"
  using confined_static_field [OF assms] assms(1)
  by (simp add: decode_field_def Let_def field_within_def)

lemma confined_set_to_default:
  assumes f: "field_within lo hi field" and s: "submsg_safe env dec dfl field" and p: "pField field \<noteq> 0"
  shows "confined lo hi (pb_field_set_to_default env dfl n field)"
proof -
  have t: "PB_LTYPE (ftype field) \<noteq> PB_LTYPE_EXTENSION" "PB_ATYPE (ftype field) = PB_ATYPE_STATIC"
    and null: "PB_HTYPE (ftype field) = PB_HTYPE_REPEATED \<or> PB_HTYPE (ftype field) = PB_HTYPE_ONEOF \<Longrightarrow> pSize field \<noteq> Size_null"
    and q: "pData field \<noteq> 0"
    using f p by (auto simp: field_within_def pb_types)
  show ?thesis
  proof (cases "PB_HTYPE (ftype field) = PB_HTYPE_REPEATED")
    case True
    then show ?thesis
      unfolding pb_field_set_to_default_def Let_def if_not_P [OF t(1)] if_P [OF t(2)]
      by (simp only: True simp_thms if_True) (intro confined_intros f null; use True in simp)
  next
    case False
    have i: "item_within lo hi field" by (rule field_within_item [OF f False])
    then have w: "PB_LTYPE (ftype field) \<noteq> PB_LTYPE_SUBMSG_W_CB"
      and d: "lo \<le> pData field" "pData field + unat (data_size field) \<le> hi"
      by (simp_all add: item_within_def)
    have sub: "submsg_desc field \<noteq> None" if "PB_LTYPE_IS_SUBMSG (ftype field)"
      using that s w by (auto simp: PB_LTYPE_IS_SUBMSG_def submsg_safe_def)
    show ?thesis
      unfolding pb_field_set_to_default_def Let_def if_not_P [OF t(1)] if_P [OF t(2)]
      by (intro confined_intros f)
        (use False w d sub null in \<open>auto simp: PB_LTYPE_IS_SUBMSG_def intro: confined_submsg_begin [OF s i q]\<close>)
  qed
qed

section \<open>Messages\<close>

text \<open>
  A field that lies, with its presence flag, counter or selector, in a structure of \<open>sz\<close> bytes,
  the counter of an array before its items; and descriptors all of whose fields do, the submessages within their fields, nested at most
  \<open>k\<close> deep.
\<close>

definition spec_within :: "nat \<Rightarrow> field_spec \<Rightarrow> bool" where
  "spec_within sz s \<longleftrightarrow>
     fs_atype s = A_STATIC \<and> fs_htype s \<noteq> H_FIXARRAY \<and> fs_ltype s \<noteq> T_MSG_W_CB \<and>
     unat (fs_data_offset s) +
       (if fs_htype s = H_REPEATED then unat (fs_data_size s) * unat (fs_array_size s) else unat (fs_data_size s)) \<le> sz \<and>
     (PB_LTYPE_MAP (fs_ltype s) = PB_LTYPE_BOOL \<longrightarrow> 1 \<le> unat (fs_data_size s)) \<and>
     (PB_LTYPE_MAP (fs_ltype s) = PB_LTYPE_FIXED32 \<longrightarrow> 4 \<le> unat (fs_data_size s)) \<and>
     (PB_LTYPE_MAP (fs_ltype s) = PB_LTYPE_FIXED64 \<longrightarrow> 8 \<le> unat (fs_data_size s)) \<and>
     (fs_htype s = H_ONEOF \<longrightarrow> fs_size_offset s \<noteq> 0) \<and>
     (fs_htype s = H_REPEATED \<longrightarrow> 2 \<le> unat (fs_size_offset s)) \<and>
     (fs_size_offset s \<noteq> 0 \<longrightarrow> unat (fs_size_offset s) \<le> unat (fs_data_offset s) \<and>
       unat (fs_data_offset s) - unat (fs_size_offset s) + 2 \<le> sz)"

inductive message_within :: "nat \<Rightarrow> field_spec list \<Rightarrow> nat \<Rightarrow> bool" where
  no_fields: "message_within k [] sz"
| fields: "plain_fields fs \<Longrightarrow> fs \<noteq> [] \<Longrightarrow>
     \<forall>s \<in> set fs. spec_within sz s \<and>
       (\<forall>d. fs_submsg s = Some d \<longrightarrow>
         (\<exists>gs. d = PB_BIND gs 0 No_callback \<and> message_within k gs (unat (fs_data_size s)))) \<Longrightarrow>
     message_within (Suc k) fs sz"

lemma spec_data_size:
  assumes "valid_fields fs" "i < length fs"
  shows "unat (ucast (fs_data_size (fs ! i)) :: uint16) = unat (fs_data_size (fs ! i))"
proof -
  have "PB_GEN_FIELD_INFO_ASSERT_AUTO (fs ! i)"
    using assms by (simp add: valid_fields_def list_all_length)
  then have "unat (fs_data_size (fs ! i)) < 2 ^ 12"
    by (auto simp: PB_GEN_FIELD_INFO_ASSERT_AUTO_def PB_FITS_def split: if_splits)
  then show ?thesis by (simp add: unsigned_ucast_eq take_bit_nat_eq_self)
qed

lemma spec_array_size:
  assumes "valid_fields fs" "i < length fs"
  shows "unat (ucast (fs_array_size (fs ! i)) :: uint16) = unat (fs_array_size (fs ! i))"
proof -
  have "PB_GEN_FIELD_INFO_ASSERT_AUTO (fs ! i)"
    using assms by (simp add: valid_fields_def list_all_length)
  then have "unat (fs_array_size (fs ! i)) < 2 ^ 12"
    by (auto simp: PB_GEN_FIELD_INFO_ASSERT_AUTO_def PB_FITS_def split: if_splits)
  then show ?thesis by (simp add: unsigned_ucast_eq take_bit_nat_eq_self)
qed

lemma field_of_data:
  "pData (field_of fs dv cb p i) = p + unat (fs_data_offset (fs ! i))"
  "pField (field_of fs dv cb p i) = p + unat (fs_data_offset (fs ! i))"
  "submsg_desc (field_of fs dv cb p i) = fs_submsg (fs ! i)"
  by (simp_all add: field_of_def Let_def)

lemma field_of_within:
  assumes "plain_fields fs" "i < length fs" "spec_within sz (fs ! i)"
  shows "field_within p (p + sz) (field_of fs dv cb p i)"
proof -
  have v: "valid_fields fs" using assms(1) by (simp add: plain_fields_def)
  let ?s = "fs ! i" and ?f = "field_of fs dv cb p i"
  have ht: "htype_code (fs_htype ?s) = PB_HTYPE_REPEATED \<longleftrightarrow> fs_htype ?s = H_REPEATED"
    "fs_htype ?s \<noteq> H_REPEATED \<Longrightarrow> fs_htype ?s \<noteq> H_ONEOF \<Longrightarrow>
       htype_code (fs_htype ?s) = PB_HTYPE_REQUIRED \<or> htype_code (fs_htype ?s) = PB_HTYPE_OPTIONAL"
    using assms(3) by (cases "fs_htype ?s"; simp add: spec_within_def htype_code_def pb_types)+
  have "PB_LTYPE_MAP (fs_ltype ?s) \<noteq> PB_LTYPE_SUBMSG_W_CB"
    using assms(3) by (cases "fs_ltype ?s"; simp add: spec_within_def PB_LTYPE_MAP_def pb_types)
  then have item: "item_within p (pData ?f + unat (data_size ?f)) ?f"
    using assms(3) spec_data_size [OF v assms(2)]
    by (simp add: item_within_def spec_within_def field_of_def Let_def type_code_parts)
  have "array_size ?f = ucast (fs_array_size ?s)" if "fs_htype ?s = H_REPEATED"
    using that assms(3) by (auto simp: field_of_def Let_def field_width_def PB_FIELDINFO_WIDTH_AUTO_def spec_within_def)
  then have data: "pField ?f + (if PB_HTYPE (ftype ?f) = PB_HTYPE_REPEATED
      then unat (data_size ?f) * unat (array_size ?f) else unat (data_size ?f)) \<le> p + sz"
    using assms(3) spec_data_size [OF v assms(2)] spec_array_size [OF v assms(2)] ht(1)
    by (auto simp: spec_within_def field_of_def Let_def type_code_parts)
  have "case pSize ?f of
        Size_null \<Rightarrow> PB_HTYPE (ftype ?f) = PB_HTYPE_REQUIRED \<or> PB_HTYPE (ftype ?f) = PB_HTYPE_OPTIONAL
      | Size_at a \<Rightarrow> p \<le> a \<and> a + 2 \<le> p + sz \<and> (PB_HTYPE (ftype ?f) = PB_HTYPE_REPEATED \<longrightarrow> a + 2 \<le> pField ?f)
      | _ \<Rightarrow> False"
    using assms(3) ht by (auto simp: spec_within_def field_of_def Let_def type_code_parts)
  then show ?thesis
    using item data assms(3) plain_ltype [OF assms(1,2)]
    unfolding field_within_def
    by (simp add: spec_within_def type_code_parts atype_code_def field_of_members(2) field_of_data)
qed

text \<open>What is needed of the two recursive functions at depth \<open>k\<close>.\<close>

definition safe_dec :: "nat \<Rightarrow> decoder \<Rightarrow> bool" where
  "safe_dec k dec \<longleftrightarrow>
     (\<forall>fs sz q flags. message_within k fs sz \<longrightarrow> q \<noteq> 0 \<longrightarrow>
       confined q (q + sz) (dec (PB_BIND fs 0 No_callback) q flags))"

definition safe_dfl :: "nat \<Rightarrow> initialiser \<Rightarrow> bool" where
  "safe_dfl k dfl \<longleftrightarrow>
     (\<forall>fs sz q. message_within k fs sz \<longrightarrow> fs \<noteq> [] \<longrightarrow> q \<noteq> 0 \<longrightarrow>
       confined q (q + sz) (dfl (field_of fs 0 No_callback q 0)) \<and>
       (\<forall>s iter. fst (run_state (dfl (field_of fs 0 No_callback q 0)) s) = Some iter \<longrightarrow>
          iter = field_of fs 0 No_callback q 0))"

lemma begin_empty: "pb_field_iter_begin env m (PB_BIND [] dv cb) q = (False, iter_zero (PB_BIND [] dv cb) q)"
  by (simp add: pb_field_iter_begin_def load_descriptor_values_def iter_zero_def desc_BIND)

lemma message_within_plain: "message_within k fs sz \<Longrightarrow> fs \<noteq> [] \<Longrightarrow> plain_fields fs"
  by (erule message_within.cases) auto

lemma submsg_of_within:
  assumes "plain_fields fs" "i < length fs" "spec_within sz (fs ! i)"
    and "\<And>d. fs_submsg (fs ! i) = Some d \<Longrightarrow>
       \<exists>gs. d = PB_BIND gs 0 No_callback \<and> message_within k gs (unat (fs_data_size (fs ! i)))"
    and "safe_dec k dec" "safe_dfl k dfl"
  shows "submsg_safe env dec dfl (field_of fs dv cb p i)"
  unfolding submsg_safe_def
proof
  let ?s = "fs ! i" and ?f = "field_of fs dv cb p i"
  assume "PB_LTYPE (ftype ?f) = PB_LTYPE_SUBMESSAGE"
  then have "fs_ltype ?s = T_MESSAGE"
    using assms(3) by (cases "fs_ltype ?s")
      (simp_all add: field_of_members type_code_parts PB_LTYPE_MAP_def pb_types spec_within_def)
  then obtain d where d: "fs_submsg ?s = Some d"
    using assms(1,2) by (auto simp: plain_fields_def valid_fields_def list_all_length)
  then obtain gs where gs: "d = PB_BIND gs 0 No_callback" and w: "message_within k gs (unat (fs_data_size ?s))"
    using assms(4) by blast
  have "valid_fields fs" using assms(1) by (simp add: plain_fields_def)
  then have sz: "unat (data_size ?f) = unat (fs_data_size ?s)"
    using spec_data_size [OF _ assms(2)] by (simp add: field_of_def Let_def)
  have "confined q (q + unat (data_size ?f)) (dec d q flags)" if "q \<noteq> 0" for q flags
    using assms(5) w that unfolding safe_dec_def gs sz by blast
  moreover have "confined q (q + unat (data_size ?f)) (dfl (snd (pb_field_iter_begin env m d q)))"
    if q: "q \<noteq> 0" and ok: "fst (pb_field_iter_begin env m d q)" for q m
  proof -
    have ne: "gs \<noteq> []" using ok gs by (auto simp: begin_empty)
    have "pb_field_iter_begin env m d q = (True, field_of gs 0 No_callback q 0)"
      using begin_field [OF _ ne q, of env m 0 No_callback] message_within_plain [OF w ne] gs
      by (simp add: plain_fields_def)
    then show ?thesis
      using assms(6) w q ne unfolding safe_dfl_def sz by auto
  qed
  ultimately show "\<exists>d. submsg_desc ?f = Some d \<and>
      (\<forall>q. q \<noteq> 0 \<longrightarrow> (\<forall>flags. confined q (q + unat (data_size ?f)) (dec d q flags)) \<and>
        (\<forall>m. fst (pb_field_iter_begin env m d q) \<longrightarrow>
          confined q (q + unat (data_size ?f)) (dfl (snd (pb_field_iter_begin env m d q)))))"
    using d by (auto simp: field_of_data)
qed

text \<open>All that the loops over a message need of each of its fields.\<close>

definition fields_safe :: "pb_env \<Rightarrow> decoder \<Rightarrow> initialiser \<Rightarrow> field_spec list \<Rightarrow> nat \<Rightarrow> nat \<Rightarrow> bool" where
  "fields_safe env dec dfl fs p sz \<longleftrightarrow>
     plain_fields fs \<and> p \<noteq> 0 \<and>
     (\<forall>i < length fs. field_within p (p + sz) (field_of fs 0 No_callback p i) \<and>
       submsg_safe env dec dfl (field_of fs 0 No_callback p i))"

lemma defaults_loop_safe:
  fixes n :: nat and st :: istream and w :: uint8 and dec :: decoder
  assumes "fields_safe env dec' dfl fs p sz" "i + k = length fs" "k \<noteq> 0"
  defines "m \<equiv> \<lambda>i k. defaults_loop env dec dfl n k st w 0 (field_of fs 0 No_callback p i)"
  shows "ok_step p (p + sz) s (snd (run_state (m i k) s)) \<and>
     (\<forall>iter. fst (run_state (m i k) s) = Some iter \<longrightarrow> iter = field_of fs 0 No_callback p 0)"
  using assms(2,3)
proof (induction k arbitrary: i s)
  case (Suc k)
  let ?it = "field_of fs 0 No_callback p i" and ?def = "pb_field_set_to_default env dfl n (field_of fs 0 No_callback p i)"
  let ?t = "snd (run_state ?def s)"
  have v: "valid_fields fs" and p: "p \<noteq> 0" and i: "i < length fs"
    using assms(1) Suc.prems by (auto simp: fields_safe_def plain_fields_def)
  have "confined p (p + sz) ?def"
    using assms(1) i by (auto simp: fields_safe_def field_of_data intro!: confined_set_to_default)
  then have t: "ok_step p (p + sz) s ?t"
    by (rule confinedD)
  note nx = next_field [OF v i p, of env "mem ?t" 0 No_callback]
  show ?case
  proof (cases "fst (run_state ?def s) \<and> Suc i < length fs")
    case True
    then have "run_state (m i (Suc k)) s = run_state (m (Suc i) k) ?t"
      using nx by (simp add: m_def)
    then show ?thesis
      using Suc.IH [of "Suc i" ?t] Suc.prems True ok_step_trans [OF t] by auto
  next
    case False
    then show ?thesis
      using nx t by (auto simp: m_def)
  qed
qed simp

lemma set_to_defaults_safe:
  fixes n :: nat and dec :: decoder
  assumes "fields_safe env dec' dfl fs p sz" "fs \<noteq> []"
  defines "m \<equiv> set_to_defaults_body env dec dfl n (field_of fs 0 No_callback p 0)"
  shows "confined p (p + sz) m"
    and "fst (run_state m s) = Some iter \<Longrightarrow> iter = field_of fs 0 No_callback p 0"
proof -
  have "unat (field_count (PB_BIND fs 0 No_callback)) = length fs" "default_value (PB_BIND fs 0 No_callback) = 0"
    using assms(1) valid_index(1) [of fs "length fs"]
    by (simp_all add: fields_safe_def plain_fields_def desc_BIND PB_BIND_def)
  then have "m = defaults_loop env dec dfl n (length fs) PB_ISTREAM_EMPTY PB_WT_VARINT 0 (field_of fs 0 No_callback p 0)"
    by (simp add: m_def set_to_defaults_body_def field_of_members Let_def)
  then show "confined p (p + sz) m"
    and "fst (run_state m s) = Some iter \<Longrightarrow> iter = field_of fs 0 No_callback p 0"
    using defaults_loop_safe [OF assms(1), of 0 "length fs"] assms(2) by (auto simp: confined_def)
qed

text \<open>The iterator in the loop over a message: at a field, or at rest where there is none.\<close>

definition cursor :: "field_spec list \<Rightarrow> nat \<Rightarrow> field_iter \<Rightarrow> bool" where
  "cursor fs p iter \<longleftrightarrow>
     (fs = [] \<and> iter = iter_zero (PB_BIND [] 0 No_callback) p) \<or>
     (\<exists>i < length fs. iter = field_of fs 0 No_callback p i)"

lemma find_extension_round:
  assumes "plain_fields fs" "i < length fs" "p \<noteq> 0"
  shows "k < length fs \<Longrightarrow> at_field fs dv cb p k (advance_iterator iter) \<Longrightarrow>
     (if k \<le> i then i - k else length fs - k + i) < n \<Longrightarrow>
     find_extension_loop env m (of_nat i) n iter = Some (False, field_of fs dv cb p i)"
proof (induction n arbitrary: k iter)
  case (Suc n)
  have v: "valid_fields fs" using assms(1) by (simp add: plain_fields_def)
  let ?a = "advance_iterator iter"
  have word: "field_word (descriptor ?a) (unat (field_info_index ?a)) = PB_GEN_FIELD_INFO_AUTO (fs ! k) ! 0"
    using Suc.prems(2) next_word [OF v Suc.prems(1), of dv cb] by (simp add: at_field_def)
  have plain: "PB_LTYPE (field_type_code (fs ! k)) \<noteq> PB_LTYPE_EXTENSION"
    by (rule plain_ltype [OF assms(1) Suc.prems(1)])
  have ix: "index ?a = of_nat i \<longleftrightarrow> k = i"
    using Suc.prems(1,2) assms(2) valid_index(1) [OF v, of k] valid_index(1) [OF v, of i]
    by (metis at_field_def order_less_imp_le)
  show ?case
  proof (cases "k = i")
    case True
    then show ?thesis
      using load_at_field [OF v assms(2,3), of dv cb ?a] Suc.prems(2) word plain ix
      by (simp add: Let_def field_info_head(2))
  next
    case False
    let ?k = "if Suc k < length fs then Suc k else 0"
    have "(if ?k \<le> i then i - ?k else length fs - ?k + i) < n" "?k < length fs"
      using Suc.prems(1,3) False assms(2) by (auto split: if_splits)
    then show ?thesis
      using Suc.IH [OF _ advance_at_field [OF v Suc.prems(1,2)]] False word plain ix
      by (simp add: Let_def field_info_head(2))
  qed
qed simp

lemma find_extension_none:
  assumes "fs = [] \<or> plain_fields fs \<and> p \<noteq> 0" "cursor fs p iter"
  shows "pb_field_iter_find_extension env m iter = Some (False, iter)"
proof (cases "fs = []")
  case True
  then show ?thesis
    using assms(2) by (simp add: cursor_def pb_field_iter_find_extension_def iter_zero_def pb_types pb_type_parts
      desc_BIND advance_iterator_def load_descriptor_values_def field_word_def PB_BIND_def Let_def)
next
  case False
  then obtain i where i: "plain_fields fs" "p \<noteq> 0" "i < length fs" "iter = field_of fs 0 No_callback p i"
    using assms by (auto simp: cursor_def)
  then have v: "valid_fields fs" by (simp add: plain_fields_def)
  have "find_extension_loop env m (of_nat i) (length fs + 1) iter = Some (False, iter)"
    using i by (simp only:) (rule find_extension_round [OF _ _ _ _ advance_at_field [OF v _ at_field_of]]; auto)
  then show ?thesis
    using i plain_ltype [OF i(1,3)] valid_index(1) [OF v, of "length fs"]
    by (simp add: pb_field_iter_find_extension_def field_of_members desc_BIND del: find_extension_loop.simps)
qed

text \<open>The search leaves the iterator at a field, or where it was.\<close>

lemma find_cursor:
  assumes "fs = [] \<or> plain_fields fs \<and> p \<noteq> 0" "cursor fs p iter" "t \<noteq> 0"
  obtains found iter' where "pb_field_iter_find env m iter t = Some (found, iter')" "cursor fs p iter'"
    "found \<Longrightarrow> \<exists>i < length fs. iter' = field_of fs 0 No_callback p i"
proof (cases "fs = []")
  case True
  then have "pb_field_iter_find env m iter t = Some (False, iter)"
    using assms by (simp add: cursor_def pb_field_iter_find_def iter_zero_def desc_BIND word_gt_0)
  with assms that show ?thesis by blast
next
  case False
  then obtain i where i: "plain_fields fs" "p \<noteq> 0" "i < length fs" "iter = field_of fs 0 No_callback p i"
    using assms by (auto simp: cursor_def)
  show ?thesis
  proof (cases "t \<in> fs_tag ` set fs")
    case True
    then obtain j where j: "j < length fs" "fs_tag (fs ! j) = t"
      by (auto simp: in_set_conv_nth)
    have "pb_field_iter_find env m iter t = Some (True, field_of fs 0 No_callback p j)"
      unfolding i(4) by (rule find_field(1) [OF i(1-3) j])
    then show ?thesis
      by (rule that) (use j in \<open>auto simp: cursor_def\<close>)
  next
    case False
    with find_field(2) [OF i(1-3) this] i that [of False] show ?thesis
      by (auto simp: cursor_def)
  qed
qed

definition loop_inv :: "field_spec list \<Rightarrow> nat \<Rightarrow> inner \<Rightarrow> bool" where
  "loop_inv fs p l \<longleftrightarrow> cursor fs p (it l) \<and> extensions l = 0"

lemma decode_extension_none: "decode_extension env dec dfl n t w 0 = (do { pos \<leftarrow> gets (\<lambda>s. bytes_left (istr s)); State_Monad.return True })"
  by (rule state.expand, rule ext) (cases n; simp add: decode_extension_def)

lemma unknown_field_safe:
  assumes "fs = [] \<or> plain_fields fs \<and> p \<noteq> 0" "loop_inv fs p l"
  shows "confined lo hi (unknown_field env dec dfl n t w l)"
    and "fst (run_state (unknown_field env dec dfl n t w l) s) = Some l' \<Longrightarrow> loop_inv fs p l'"
proof -
  obtain l1 where l1: "loop_inv fs p l1" and u: "unknown_field env dec dfl n t w l = do {
     pos \<leftarrow> gets (\<lambda>s. bytes_left (istr s));
     ok \<leftarrow> (if extension_range_start l1 \<le> t then decode_extension env dec dfl n t w 0 else State_Monad.return True);
     left \<leftarrow> gets (\<lambda>s. bytes_left (istr s));
     if \<not> ok then State_Monad.return None
     else if extension_range_start l1 \<le> t \<and> pos \<noteq> left then State_Monad.return (Some l1)
     else do {
       ok \<leftarrow> pb_skip_field env w;
       State_Monad.return (if ok then Some l1 else None)
     } }"
  proof (cases "extension_range_start l = 0")
    case True
    let ?l = "l\<lparr>extension_range_start := 0xFFFFFFFF\<rparr>"
    have find: "pb_field_iter_find_extension env m (it l) = Some (False, it l)" for m
      using find_extension_none [OF assms(1)] assms(2) by (simp add: loop_inv_def)
    have "loop_inv fs p ?l" using assms(2) by (simp add: loop_inv_def)
    with that [of ?l] show ?thesis
      using True assms(2) find
      by (simp add: unknown_field_def loop_inv_def Let_def state.expand fun_eq_iff)
  next
    case False
    with that [of l] assms(2) show ?thesis
      by (simp add: unknown_field_def loop_inv_def state.expand fun_eq_iff)
  qed
  show "confined lo hi (unknown_field env dec dfl n t w l)"
    unfolding u decode_extension_none by (intro confined_intros)
  show "loop_inv fs p l'" if "fst (run_state (unknown_field env dec dfl n t w l) s) = Some l'"
    using that l1 unfolding u decode_extension_none by (auto split: if_splits)
qed

lemma known_field_safe:
  assumes "fields_safe env dec dfl fs p sz" "2 \<le> size_bits env" "i < length fs"
    and "it l = field_of fs 0 No_callback p i" "extensions l = 0"
  shows "confined p (p + sz) (known_field env dec dfl w l)"
    and "fst (run_state (known_field env dec dfl w l) s) = Some l' \<Longrightarrow> loop_inv fs p l'"
proof -
  have f: "field_within p (p + sz) (it l)" "submsg_safe env dec dfl (it l)" "pField (it l) \<noteq> 0"
    using assms by (simp_all add: fields_safe_def field_of_data)
  have "pSize (it l) \<noteq> Size_self"
    using f(1) by (auto simp: field_within_def)
  then have k: "known_field env dec dfl w l = do {
      fixed_size \<leftarrow> gets fixed_count_size;
      ok \<leftarrow> decode_field env dec dfl w (it l);
      State_Monad.return (if ok then Some
        (if PB_HTYPE (ftype (it l)) = PB_HTYPE_REQUIRED \<and> required_field_index (it l) < PB_MAX_REQUIRED_FIELDS
         then mark_seen (required_field_index (it l)) l else l) else None) }"
    by (simp add: known_field_def Let_def state.expand fun_eq_iff)
  show "confined p (p + sz) (known_field env dec dfl w l)"
    unfolding k by (intro confined_intros confined_decode_field f assms)
  have "loop_inv fs p l" using assms(3-5) by (auto simp: loop_inv_def cursor_def)
  then have "loop_inv fs p (mark_seen j l)" for j
    by (simp add: loop_inv_def mark_seen_def Let_def)
  with \<open>loop_inv fs p l\<close> show "loop_inv fs p l'" if "fst (run_state (known_field env dec dfl w l) s) = Some l'"
    using that unfolding k by (auto split: if_splits)
qed

text \<open>What the loop does with a tag.\<close>

definition field_step ::
  "pb_env \<Rightarrow> decoder \<Rightarrow> initialiser \<Rightarrow> nat \<Rightarrow> uint32 \<Rightarrow> uint8 \<Rightarrow> inner \<Rightarrow> bool \<Rightarrow> field_iter \<Rightarrow> (pb, inner option) state" where
  "field_step env dec dfl n t w l found iter =
     (if \<not> found \<or> PB_LTYPE (ftype iter) = PB_LTYPE_EXTENSION
      then unknown_field env dec dfl n t w (l\<lparr>it := iter\<rparr>)
      else known_field env dec dfl w (l\<lparr>it := iter\<rparr>))"

lemma field_step_safe:
  assumes "fs \<noteq> [] \<Longrightarrow> fields_safe env dec dfl fs p sz" "2 \<le> size_bits env" "loop_inv fs p l" "cursor fs p iter"
    and hit: "found \<Longrightarrow> \<exists>i < length fs. iter = field_of fs 0 No_callback p i"
  shows "confined p (p + sz) (field_step env dec dfl n t w l found iter)"
    and "fst (run_state (field_step env dec dfl n t w l found iter) s) = Some l' \<Longrightarrow> loop_inv fs p l'"
proof -
  have pl: "fs = [] \<or> plain_fields fs \<and> p \<noteq> 0"
    using assms(1) by (auto simp: fields_safe_def)
  have ext: "extensions l = 0" and inv: "loop_inv fs p (l\<lparr>it := iter\<rparr>)"
    using assms(3,4) by (simp_all add: loop_inv_def)
  let ?m = "field_step env dec dfl n t w l found iter"
  have "confined p (p + sz) ?m \<and> (fst (run_state ?m s) = Some l' \<longrightarrow> loop_inv fs p l')"
  proof (cases "\<not> found \<or> PB_LTYPE (ftype iter) = PB_LTYPE_EXTENSION")
    case True
    then show ?thesis
      using unknown_field_safe [OF pl inv] by (auto simp: field_step_def)
  next
    case False
    then obtain i where i: "i < length fs" "iter = field_of fs 0 No_callback p i" using hit by auto
    then have "fs \<noteq> []" by auto
    then show ?thesis
      using False known_field_safe [OF assms(1,2) i(1), of "l\<lparr>it := iter\<rparr>"] i(2) ext
      by (simp add: field_step_def)
  qed
  then show "confined p (p + sz) ?m" "fst (run_state ?m s) = Some l' \<Longrightarrow> loop_inv fs p l'"
    by blast+
qed

text \<open>The loop: every round reads a tag, so the fuel lasts.\<close>

lemma inner_loop_safe:
  assumes "fs \<noteq> [] \<Longrightarrow> fields_safe env dec dfl fs p sz" "2 \<le> size_bits env"
  shows "bytes_left (istr s) < k \<Longrightarrow> loop_inv fs p l \<Longrightarrow>
     ok_step p (p + sz) s (snd (run_state (inner_loop env dec dfl flags n k l) s))"
proof (induction k arbitrary: s l)
  case (Suc k)
  have pl: "fs = [] \<or> plain_fields fs \<and> p \<noteq> 0"
    using assms(1) by (auto simp: fields_safe_def)
  let ?t = "snd (run_state pb_decode_tag s)"
  have t: "ok_step p (p + sz) s ?t"
    by (rule confinedD [OF confined_tag])
  have err: "ok_step p (p + sz) s (snd (run_state (is_return_none ''zero tag'') ?t))"
    by (rule ok_step_trans [OF t confinedD [OF confined_errors(2)]])
  show ?case
  proof (cases "bytes_left (istr s) = 0 \<or> fst (fst (run_state pb_decode_tag s)) = None")
    case True
    then show ?thesis using t by (auto split: prod.split)
  next
    case False
    then obtain w tg eof where r: "fst (run_state pb_decode_tag s) = (Some (w, tg), eof)"
      by (cases "fst (run_state pb_decode_tag s)") auto
    show ?thesis
    proof (cases "tg = 0")
      case True
      then show ?thesis using False r t err by auto
    next
      case nz: False
      obtain found iter where find: "pb_field_iter_find env (mem ?t) (it l) tg = Some (found, iter)" "cursor fs p iter"
        and hit: "found \<Longrightarrow> \<exists>i < length fs. iter = field_of fs 0 No_callback p i"
        using find_cursor [OF pl _ nz] Suc.prems(2) unfolding loop_inv_def by blast
      let ?body = "field_step env dec dfl n tg w l found iter"
      let ?u = "snd (run_state ?body ?t)"
      note body = field_step_safe [OF assms Suc.prems(2) find(2) hit, where t = tg and w = w and n = n]
      have u: "ok_step p (p + sz) ?t ?u"
        by (rule confinedD [OF body(1)])
      then have "bytes_left (istr ?u) < k"
        using tag_left [of s] r Suc.prems(1) by (auto simp: ok_step_def)
      then have "fst (run_state ?body ?t) = Some l' \<Longrightarrow>
          ok_step p (p + sz) ?u (snd (run_state (inner_loop env dec dfl flags n k l') ?u))" for l'
        using Suc.IH body(2) by blast
      moreover have "run_state (inner_loop env dec dfl flags n (Suc k) l) s =
         (case fst (run_state ?body ?t) of None \<Rightarrow> (None, ?u) | Some l' \<Rightarrow> run_state (inner_loop env dec dfl flags n k l') ?u)"
        using False r nz find(1) by (simp add: field_step_def split: option.split)
      ultimately show ?thesis
        using ok_step_trans [OF t u] by (auto split: option.split intro: ok_step_trans)
    qed
  qed
qed simp

lemma decode_inner_safe:
  assumes "fs \<noteq> [] \<Longrightarrow> fields_safe env dec dfl fs p sz" "2 \<le> size_bits env"
    and "fs \<noteq> [] \<Longrightarrow> confined p (p + sz) (dfl (field_of fs 0 No_callback p 0)) \<and>
      (\<forall>s iter. fst (run_state (dfl (field_of fs 0 No_callback p 0)) s) = Some iter \<longrightarrow>
        iter = field_of fs 0 No_callback p 0)"
  shows "confined p (p + sz) (decode_inner_body env dec dfl n (PB_BIND fs 0 No_callback) p flags)"
proof -
  define iter0 where "iter0 = (if fs = [] then iter_zero (PB_BIND [] 0 No_callback) p else field_of fs 0 No_callback p 0)"
  have start: "pb_field_iter_begin env m (PB_BIND fs 0 No_callback) p = (fs \<noteq> [], iter0)" for m
    using begin_field [of fs p env m 0 No_callback] assms(1)
    by (auto simp: iter0_def begin_empty fields_safe_def plain_fields_def)
  have cur: "loop_inv fs p (inner_start iter0)"
    by (auto simp: loop_inv_def inner_start_def cursor_def iter0_def)
  define init where "init = (if fs \<noteq> [] \<and> flags AND PB_DECODE_NOINIT = 0 then dfl iter0 else State_Monad.return (Some iter0))"
  have init: "confined p (p + sz) init" "\<And>s iter. fst (run_state init s) = Some iter \<Longrightarrow> iter = iter0"
    using assms(3) by (auto simp: init_def iter0_def confined_return split: if_splits)
  let ?loop = "do { left \<leftarrow> gets (\<lambda>s. bytes_left (istr s));
       inner_loop env dec dfl flags n (left + 1) (inner_start iter0) }"
  have loop: "confined p (p + sz) ?loop"
    unfolding confined_def using inner_loop_safe [OF assms(1,2) _ cur]
    by (simp del: inner_loop.simps)
  define tail where "tail = (\<lambda>r. do {
         fixed_size \<leftarrow> gets fixed_count_size;
         case r of
           None \<Rightarrow> State_Monad.return False
         | Some l \<Rightarrow>
             (if fixed_count_field l \<noteq> PB_SIZE_MAX \<and> fixed_size \<noteq> fixed_count_total_size l
              then is_return_error ''wrong size for fixed count field''
              else if \<not> required_seen l then is_return_error ''missing required field''
              else State_Monad.return True)
       })"
  have "confined p (p + sz) (tail r)" for r
    unfolding tail_def by (intro confined_intros)
  then have rest: "confined p (p + sz) (State_Monad.bind ?loop tail)"
    by (intro confined_bind loop)
  define go where "go = (\<lambda>iter. do {
      left \<leftarrow> gets (\<lambda>s. bytes_left (istr s));
      r \<leftarrow> inner_loop env dec dfl flags n (left + 1) (inner_start iter);
      tail r
    })"
  have "confined p (p + sz) (go iter0)"
    using rest by (simp add: go_def del: inner_loop.simps)
  then have "confined p (p + sz) (do {
      r \<leftarrow> init;
      case r of None \<Rightarrow> is_return_error e | Some iter \<Rightarrow> go iter })" for e
    using init(2) by (intro confined_bind_where init(1) confined_option confined_intros) auto
  note core = this
  have "confined p (p + sz) (with_fixed_count (do {
      m \<leftarrow> gets mem;
      r \<leftarrow> init;
      case r of None \<Rightarrow> is_return_error e | Some iter \<Rightarrow> go iter }))" for e
    by (intro confined_with_fixed_count confined_bind [OF confined_gets] core)
  then show ?thesis
    unfolding decode_inner_body_def start prod.case Let_def init_def [symmetric] go_def tail_def .
qed

section \<open>The decoder\<close>

lemma message_fields_safe:
  assumes "message_within (Suc k) fs sz" "fs \<noteq> []" "p \<noteq> 0" "safe_dec k dec" "safe_dfl k dfl"
  shows "fields_safe env dec dfl fs p sz"
proof -
  have pl: "plain_fields fs" and f: "\<And>s d. s \<in> set fs \<Longrightarrow> spec_within sz s \<and> (fs_submsg s = Some d \<longrightarrow>
     (\<exists>gs. d = PB_BIND gs 0 No_callback \<and> message_within k gs (unat (fs_data_size s))))"
    using assms(1,2) by (auto elim: message_within.cases)
  have "field_within p (p + sz) (field_of fs 0 No_callback p i)"
    "submsg_safe env dec dfl (field_of fs 0 No_callback p i)" if "i < length fs" for i
    using f [of "fs ! i"] that
    by (auto intro!: field_of_within [OF pl that] submsg_of_within [OF pl that _ _ assms(4,5)])
  then show ?thesis
    unfolding fields_safe_def using pl assms(3) by blast
qed

lemma message_within_mono: "message_within k fs sz \<Longrightarrow> k \<le> l \<Longrightarrow> message_within l fs sz"
proof (induction k fs sz arbitrary: l rule: message_within.induct)
  case (fields fs sz k)
  then obtain l' where "l = Suc l'" "k \<le> l'" by (cases l) auto
  moreover have "message_within (Suc l') fs sz"
    using fields \<open>k \<le> l'\<close> by (intro message_within.fields) (simp_all, blast)
  ultimately show ?case by simp
qed (rule message_within.no_fields)

text \<open>The fuel of the two functions bounds the nesting of messages they handle.\<close>

lemma decoder_safe:
  assumes "2 \<le> size_bits env"
  shows "(\<forall>k < n. safe_dec k (pb_decode_inner env n)) \<and> safe_dfl n (pb_message_set_to_defaults env n)"
proof (induction n)
  case 0
  then show ?case by (auto simp: safe_dfl_def elim: message_within.cases)
next
  case (Suc n)
  let ?dec = "pb_decode_inner env n" and ?dfl = "pb_message_set_to_defaults env n"
  have dfl: "safe_dfl k ?dfl" if "k \<le> n" for k
    using Suc that message_within_mono [of k _ _ n] unfolding safe_dfl_def by blast
  have "safe_dfl (Suc n) (set_to_defaults_body env ?dec ?dfl n)"
    unfolding safe_dfl_def
  proof (intro allI impI)
    fix fs sz and q :: nat
    assume m: "message_within (Suc n) fs sz" and ne: "fs \<noteq> []" and q: "q \<noteq> 0"
    have "safe_dec n (\<lambda>d q flags. State_Monad.return True)"
      by (simp add: safe_dec_def confined_return)
    note f = message_fields_safe [OF m ne q this dfl [OF order_refl]]
    show "confined q (q + sz) (set_to_defaults_body env ?dec ?dfl n (field_of fs 0 No_callback q 0)) \<and>
       (\<forall>s iter. fst (run_state (set_to_defaults_body env ?dec ?dfl n (field_of fs 0 No_callback q 0)) s) = Some iter \<longrightarrow>
          iter = field_of fs 0 No_callback q 0)"
      using set_to_defaults_safe [OF f ne] by blast
  qed
  moreover have "safe_dec k (decode_inner_body env ?dec ?dfl n)" if "k \<le> n" for k
    unfolding safe_dec_def
  proof (intro allI impI)
    fix fs sz and q :: nat and flags
    assume m: "message_within k fs sz" and q: "q \<noteq> 0"
    have "fields_safe env ?dec ?dfl fs q sz" if ne: "fs \<noteq> []"
    proof -
      obtain j where j: "k = Suc j"
        using m ne by (auto elim: message_within.cases)
      then show ?thesis
        using message_fields_safe [OF _ ne q, of j sz ?dec ?dfl] m Suc dfl [of j] \<open>k \<le> n\<close> by simp
    qed
    then show "confined q (q + sz) (decode_inner_body env ?dec ?dfl n (PB_BIND fs 0 No_callback) q flags)"
      using dfl [OF that] m q assms unfolding safe_dfl_def by (intro decode_inner_safe) auto
  qed
  ultimately show ?case by simp
qed

section \<open>The messages of the link\<close>

lemma HighToLow_within: "enum_size eb \<Longrightarrow> message_within 2 (HighToLow_FIELDLIST eb) HighToLow_bytes"
proof -
  assume eb: "enum_size eb"
  have "message_within 1 (SetPWM_FIELDLIST eb) 8"
    unfolding One_nat_def
    by (rule message_within.fields) (use plain_SetPWM [OF eb] eb in \<open>auto simp: field_list_defs enum_size_def
      spec_within_def PB_LTYPE_MAP_def pb_types\<close>)
  moreover have "message_within 1 [] 1" by (rule message_within.no_fields)
  moreover have "plain_fields (HighToLow_FIELDLIST eb)"
    using union_HighToLow [of eb] by (simp add: union_fields_def)
  ultimately show ?thesis
    unfolding numeral_2_eq_2 One_nat_def
    by (intro message_within.fields) (auto simp: HighToLow_FIELDLIST_def oneof_field_def SetPWM_msg_def Empty_msg_def
      CpuHeartbeat_msg_def spec_within_def PB_LTYPE_MAP_def pb_types HighToLow_bytes_def)
qed

lemma LowToHigh_within: "enum_size eb \<Longrightarrow> message_within 2 (LowToHigh_FIELDLIST eb) LowToHigh_bytes"
proof -
  assume eb: "enum_size eb"
  have "message_within 1 [] 1" by (rule message_within.no_fields)
  moreover have "plain_fields (LowToHigh_FIELDLIST eb)"
    using union_LowToHigh [OF eb] by (simp add: union_fields_def)
  ultimately show ?thesis
    using eb unfolding numeral_2_eq_2 One_nat_def
    by (intro message_within.fields) (auto simp: LowToHigh_FIELDLIST_def LowToHigh_union_def oneof_field_def
      McuHeartbeat_msg_def spec_within_def PB_LTYPE_MAP_def pb_types LowToHigh_bytes_def enum_size_def)
qed

lemma decode_confined:
  assumes "message_within k fs sz" "k < n" "2 \<le> size_bits env" "dest \<noteq> 0"
  shows "confined dest (dest + sz) (pb_decode_ex env n (PB_BIND fs 0 No_callback) dest flags)"
    "confined dest (dest + sz) (pb_decode env n (PB_BIND fs 0 No_callback) dest)"
proof -
  have inner: "confined dest (dest + sz) (pb_decode_inner env n (PB_BIND fs 0 No_callback) dest flags)" for flags
    using decoder_safe [OF assms(3), of n] assms(1,2,4) unfolding safe_dec_def by blast
  show "confined dest (dest + sz) (pb_decode_ex env n (PB_BIND fs 0 No_callback) dest flags)"
    unfolding pb_decode_ex_def
    by (intro confined_if confined_substream inner)
  show "confined dest (dest + sz) (pb_decode env n (PB_BIND fs 0 No_callback) dest)"
    unfolding pb_decode_def by (rule inner)
qed

text \<open>C19: Memory safety of the decoder on any input. Whatever bytes the stream holds, and whatever
  the flags, decoding a message whose fields (arrays with a counter, strings, bytes and submessages
  included) lie within a structure of \<open>sz\<close> bytes changes no memory outside that structure, and the stream ends between where it began and where its bytes
  end, with no more bytes left than it had.\<close>

theorem decoder_memory_safe:
  assumes "message_within k fs sz" "k < n" "2 \<le> size_bits env" "dest \<noteq> 0"
    and "run_state (pb_decode_ex env n (PB_BIND fs 0 No_callback) dest flags) s = (ok, s')"
  shows "same_outside dest sz (mem s') (mem s) \<and>
    is_state (istr s) \<le> is_state (istr s') \<and>
    is_state (istr s') + bytes_left (istr s') \<le> is_state (istr s) + bytes_left (istr s) \<and>
    bytes_left (istr s') \<le> bytes_left (istr s)"
  using confinedD [OF decode_confined(1) [OF assms(1-4), of flags], of s] assms(5)
  by (auto simp: ok_step_def same_outside_def)

text \<open>A length that claims more than the message holds.\<close>

theorem decoder_memory_safe_witness:
  "same_outside 64 HighToLow_bytes
     (mem (snd (run_state (pb_decode_ex sim_lib 3 (HighToLow_msg 4) 64 0) (reread [0x0A, 0xFF, 0x01] (sim_pb 9 (\<lambda>a. 7))))))
     (mem (reread [0x0A, 0xFF, 0x01] (sim_pb 9 (\<lambda>a. 7))))"
  using decoder_memory_safe [OF HighToLow_within, of 4 3 sim_lib 64 0 "reread [0x0A, 0xFF, 0x01] (sim_pb 9 (\<lambda>a. 7))"]
  by (cases "run_state (pb_decode_ex sim_lib 3 (HighToLow_msg 4) 64 0) (reread [0x0A, 0xFF, 0x01] (sim_pb 9 (\<lambda>a. 7)))")
    (simp add: HighToLow_msg_def enum_size_def)

text \<open>C20: The decoder ends on every input: the fuel of its loops and of its recursion is never
  used up, and no null pointer is used, for any message nested less deep than the fuel, in
  particular for both messages of the link.\<close>

theorem decoder_terminates:
  assumes "message_within k fs sz" "k < n" "2 \<le> size_bits env" "dest \<noteq> 0" "\<not> stuck s"
  shows "\<not> stuck (snd (run_state (pb_decode env n (PB_BIND fs 0 No_callback) dest) s))"
  using confinedD [OF decode_confined(2) [OF assms(1-4)], of s] assms(5) by (simp add: ok_step_def)

theorem decoder_terminates_witness:
  "\<not> stuck (snd (run_state (pb_decode sim_lib pb_fuel (LowToHigh_msg 1) 64) (reread [0x08, 0x80] (sim_pb 9 (\<lambda>a. 7)))))"
  using decoder_terminates [OF LowToHigh_within, of 1 pb_fuel sim_lib 64 "reread [0x08, 0x80] (sim_pb 9 (\<lambda>a. 7))"]
  by (simp add: LowToHigh_msg_def enum_size_def pb_fuel_def reread_def sim_pb_def pb_on_def)

end
