(* ===== verification/Pb_Layout.thy ===== *)
theory Pb_Layout
  imports Pb_Safety Board_Support
begin

text \<open>
  Where the numbers of a descriptor come from: the macros of \<open>pb.h\<close> that ask the compiler
  for the offsets and sizes of structure members (\<open>PB_DATA_OFFSET_*\<close>, \<open>PB_DATA_SIZE_*\<close>,
  \<open>PB_SIZE_OFFSET_*\<close>, \<open>PB_ARRAY_SIZE_*\<close>), the four widths of a descriptor entry with their
  static assertions, and the structures of the link laid out as the C ABI of the targets
  does.
\<close>

section \<open>C objects\<close>

text \<open>
  A scalar is aligned to its size, an aggregate to its most strictly aligned member; the
  members of a structure follow each other at the next suitable offset.
\<close>

datatype ctype = Scalar nat | Arr nat ctype | Pointer ctype | Struct "ctype list" | Union "ctype list"

definition align_up :: "nat \<Rightarrow> nat \<Rightarrow> nat" where
  "align_up n a = (n + a - 1) div a * a"

fun c_align :: "nat \<Rightarrow> ctype \<Rightarrow> nat" where
  "c_align pw (Scalar n) = n"
| "c_align pw (Arr n t) = c_align pw t"
| "c_align pw (Pointer t) = pw"
| "c_align pw (Struct ts) = foldr max (map (c_align pw) ts) 1"
| "c_align pw (Union ts) = foldr max (map (c_align pw) ts) 1"

text \<open>The offsets of members with these sizes and alignments, and where they end.\<close>

fun member_offsets :: "nat \<Rightarrow> (nat \<times> nat) list \<Rightarrow> nat list \<times> nat" where
  "member_offsets n [] = ([], n)"
| "member_offsets n ((sz, al) # ms) =
     (let off = align_up n al; (offs, end') = member_offsets (off + sz) ms in (off # offs, end'))"

fun c_size :: "nat \<Rightarrow> ctype \<Rightarrow> nat" where
  "c_size pw (Scalar n) = n"
| "c_size pw (Arr n t) = n * c_size pw t"
| "c_size pw (Pointer t) = pw"
| "c_size pw (Struct ts) =
     align_up (snd (member_offsets 0 (map (\<lambda>t. (c_size pw t, c_align pw t)) ts))) (c_align pw (Struct ts))"
| "c_size pw (Union ts) = align_up (foldr max (map (c_size pw) ts) 0) (c_align pw (Union ts))"

text \<open>\<open>offsetof\<close> of the \<open>i\<close>th member of a structure.\<close>

definition c_offset :: "nat \<Rightarrow> ctype list \<Rightarrow> nat \<Rightarrow> nat" where
  "c_offset pw ts i = fst (member_offsets 0 (map (\<lambda>t. (c_size pw t, c_align pw t)) ts)) ! i"

text \<open>The type of \<open>m[0]\<close>; the macros ask for it only where the member is an array or a pointer.\<close>

fun c_elem :: "ctype \<Rightarrow> ctype" where
  "c_elem (Arr n t) = t"
| "c_elem (Pointer t) = t"
| "c_elem t = t"

section \<open>The macros\<close>

text \<open>
  A member: its type and offset (in a oneof, those of the member of the union), and the
  offset of its \<open>has_\<close>, \<open>which_\<close> or \<open>_count\<close> companion.
\<close>

record member =
  m_type :: ctype
  m_offset :: nat
  m_companion :: nat

definition pb_membersize :: "nat \<Rightarrow> ctype \<Rightarrow> nat" where
  "pb_membersize pw t = c_size pw t"

definition pb_arraysize :: "nat \<Rightarrow> ctype \<Rightarrow> nat" where
  "pb_arraysize pw t = pb_membersize pw t div pb_membersize pw (c_elem t)"

definition pb_delta :: "nat \<Rightarrow> nat \<Rightarrow> int" where
  "pb_delta offset1 offset2 = int offset1 - int offset2"

definition PB_DATA_OFFSET :: "proto_atype \<Rightarrow> proto_htype \<Rightarrow> member \<Rightarrow> nat" where
  "PB_DATA_OFFSET a h m = m_offset m"

definition PB_SIZE_OFFSET :: "proto_atype \<Rightarrow> proto_htype \<Rightarrow> member \<Rightarrow> int" where
  "PB_SIZE_OFFSET a h m =
     (let delta = pb_delta (m_offset m) (m_companion m) in
      case a of
        A_STATIC \<Rightarrow> (case h of H_ONEOF \<Rightarrow> delta | H_OPTIONAL \<Rightarrow> delta | H_REPEATED \<Rightarrow> delta | _ \<Rightarrow> 0)
      | A_POINTER \<Rightarrow> (case h of H_ONEOF \<Rightarrow> delta | H_REPEATED \<Rightarrow> delta | _ \<Rightarrow> 0)
      | A_CALLBACK \<Rightarrow> (case h of H_ONEOF \<Rightarrow> delta | _ \<Rightarrow> 0))"

definition PB_ARRAY_SIZE :: "nat \<Rightarrow> proto_atype \<Rightarrow> proto_htype \<Rightarrow> member \<Rightarrow> nat" where
  "PB_ARRAY_SIZE pw a h m =
     (case a of
        A_STATIC \<Rightarrow> (case h of H_REPEATED \<Rightarrow> pb_arraysize pw (m_type m)
          | H_FIXARRAY \<Rightarrow> pb_arraysize pw (m_type m) | _ \<Rightarrow> 1)
      | A_POINTER \<Rightarrow> (case h of H_FIXARRAY \<Rightarrow> pb_arraysize pw (c_elem (m_type m)) | _ \<Rightarrow> 1)
      | A_CALLBACK \<Rightarrow> 1)"

definition PB_DATA_SIZE :: "nat \<Rightarrow> proto_atype \<Rightarrow> proto_htype \<Rightarrow> member \<Rightarrow> nat" where
  "PB_DATA_SIZE pw a h m =
     (let t = m_type m in
      case a of
        A_STATIC \<Rightarrow> (case h of H_REPEATED \<Rightarrow> pb_membersize pw (c_elem t)
          | H_FIXARRAY \<Rightarrow> pb_membersize pw (c_elem t) | _ \<Rightarrow> pb_membersize pw t)
      | A_POINTER \<Rightarrow> (case h of H_FIXARRAY \<Rightarrow> pb_membersize pw (c_elem (c_elem t))
          | _ \<Rightarrow> pb_membersize pw (c_elem t))
      | A_CALLBACK \<Rightarrow> pb_membersize pw t)"

text \<open>\<open>PB_SI_PB_LTYPE_x\<close>: only the two message types name a descriptor.\<close>

definition PB_SUBMSG_INFO :: "proto_type \<Rightarrow> msgdesc \<Rightarrow> msgdesc option" where
  "PB_SUBMSG_INFO t d = (if t = T_MESSAGE \<or> t = T_MSG_W_CB then Some d else None)"

text \<open>All that the X-macros compute for one field; \<open>d\<close> is its \<open>MSGTYPE\<close>'s descriptor, if any.\<close>

definition X_field ::
  "nat \<Rightarrow> proto_atype \<Rightarrow> proto_htype \<Rightarrow> proto_type \<Rightarrow> member \<Rightarrow> uint32 \<Rightarrow> msgdesc \<Rightarrow> field_spec" where
  "X_field pw a h t m tag' d =
     \<lparr> fs_atype = a, fs_htype = h, fs_ltype = t, fs_tag = tag',
       fs_data_offset = of_nat (PB_DATA_OFFSET a h m), fs_data_size = of_nat (PB_DATA_SIZE pw a h m),
       fs_size_offset = of_int (PB_SIZE_OFFSET a h m), fs_array_size = of_nat (PB_ARRAY_SIZE pw a h m),
       fs_submsg = PB_SUBMSG_INFO t d \<rparr>"

section \<open>Entries of a given width\<close>

definition PB_GEN_FIELD_INFO_1 :: "field_spec \<Rightarrow> uint32 list" where
  "PB_GEN_FIELD_INFO_1 s = PB_FIELDINFO_1 (fs_tag s) (ucast (field_type_code s)) (fs_data_offset s)
     (fs_data_size s) (fs_size_offset s) (fs_array_size s)"

definition PB_GEN_FIELD_INFO_2 :: "field_spec \<Rightarrow> uint32 list" where
  "PB_GEN_FIELD_INFO_2 s = PB_FIELDINFO_2 (fs_tag s) (ucast (field_type_code s)) (fs_data_offset s)
     (fs_data_size s) (fs_size_offset s) (fs_array_size s)"

definition PB_GEN_FIELD_INFO_4 :: "field_spec \<Rightarrow> uint32 list" where
  "PB_GEN_FIELD_INFO_4 s = PB_FIELDINFO_4 (fs_tag s) (ucast (field_type_code s)) (fs_data_offset s)
     (fs_data_size s) (fs_size_offset s) (fs_array_size s)"

definition PB_GEN_FIELD_INFO_8 :: "field_spec \<Rightarrow> uint32 list" where
  "PB_GEN_FIELD_INFO_8 s = PB_FIELDINFO_8 (fs_tag s) (ucast (field_type_code s)) (fs_data_offset s)
     (fs_data_size s) (fs_size_offset s) (fs_array_size s)"

text \<open>The static assertions of the widths, in a build without \<open>PB_FIELD_32BIT\<close>.\<close>

definition PB_FIELDINFO_ASSERT_1 ::
  "uint32 \<Rightarrow> uint32 \<Rightarrow> uint32 \<Rightarrow> uint32 \<Rightarrow> uint32 \<Rightarrow> uint32 \<Rightarrow> bool" where
  "PB_FIELDINFO_ASSERT_1 tag' type' data_offset data_size' size_offset array_size' \<longleftrightarrow>
     PB_FITS tag' 6 \<and> PB_FITS data_offset 8 \<and> PB_FITS size_offset 4 \<and> PB_FITS data_size' 4 \<and>
     PB_FITS array_size' 1"

definition PB_FIELDINFO_ASSERT_2 ::
  "uint32 \<Rightarrow> uint32 \<Rightarrow> uint32 \<Rightarrow> uint32 \<Rightarrow> uint32 \<Rightarrow> uint32 \<Rightarrow> bool" where
  "PB_FIELDINFO_ASSERT_2 tag' type' data_offset data_size' size_offset array_size' \<longleftrightarrow>
     PB_FITS tag' 10 \<and> PB_FITS data_offset 16 \<and> PB_FITS size_offset 4 \<and> PB_FITS data_size' 12 \<and>
     PB_FITS array_size' 12"

definition PB_FIELDINFO_ASSERT_4 ::
  "uint32 \<Rightarrow> uint32 \<Rightarrow> uint32 \<Rightarrow> uint32 \<Rightarrow> uint32 \<Rightarrow> uint32 \<Rightarrow> bool" where
  "PB_FIELDINFO_ASSERT_4 tag' type' data_offset data_size' size_offset array_size' \<longleftrightarrow>
     PB_FITS tag' 16 \<and> PB_FITS data_offset 16 \<and>
     PB_FITS (scast (ucast size_offset :: uint8)) 8 \<and> PB_FITS data_size' 16 \<and> PB_FITS array_size' 16"

definition PB_FIELDINFO_ASSERT_8 ::
  "uint32 \<Rightarrow> uint32 \<Rightarrow> uint32 \<Rightarrow> uint32 \<Rightarrow> uint32 \<Rightarrow> uint32 \<Rightarrow> bool" where
  "PB_FIELDINFO_ASSERT_8 tag' type' data_offset data_size' size_offset array_size' \<longleftrightarrow>
     PB_FITS tag' 16 \<and> PB_FITS data_offset 16 \<and>
     PB_FITS (scast (ucast size_offset :: uint8)) 8 \<and> PB_FITS data_size' 16 \<and> PB_FITS array_size' 16"

definition PB_GEN_FIELD_INFO_ASSERT_1 :: "field_spec \<Rightarrow> bool" where
  "PB_GEN_FIELD_INFO_ASSERT_1 s \<longleftrightarrow> PB_FIELDINFO_ASSERT_1 (fs_tag s) (ucast (field_type_code s))
     (fs_data_offset s) (fs_data_size s) (fs_size_offset s) (fs_array_size s)"

definition PB_GEN_FIELD_INFO_ASSERT_2 :: "field_spec \<Rightarrow> bool" where
  "PB_GEN_FIELD_INFO_ASSERT_2 s \<longleftrightarrow> PB_FIELDINFO_ASSERT_2 (fs_tag s) (ucast (field_type_code s))
     (fs_data_offset s) (fs_data_size s) (fs_size_offset s) (fs_array_size s)"

definition PB_GEN_FIELD_INFO_ASSERT_4 :: "field_spec \<Rightarrow> bool" where
  "PB_GEN_FIELD_INFO_ASSERT_4 s \<longleftrightarrow> PB_FIELDINFO_ASSERT_4 (fs_tag s) (ucast (field_type_code s))
     (fs_data_offset s) (fs_data_size s) (fs_size_offset s) (fs_array_size s)"

definition PB_GEN_FIELD_INFO_ASSERT_8 :: "field_spec \<Rightarrow> bool" where
  "PB_GEN_FIELD_INFO_ASSERT_8 s \<longleftrightarrow> PB_FIELDINFO_ASSERT_8 (fs_tag s) (ucast (field_type_code s))
     (fs_data_offset s) (fs_data_size s) (fs_size_offset s) (fs_array_size s)"

lemmas assert_defs =
  PB_GEN_FIELD_INFO_ASSERT_1_def PB_GEN_FIELD_INFO_ASSERT_2_def PB_GEN_FIELD_INFO_ASSERT_4_def
  PB_GEN_FIELD_INFO_ASSERT_8_def PB_FIELDINFO_ASSERT_1_def PB_FIELDINFO_ASSERT_2_def
  PB_FIELDINFO_ASSERT_4_def PB_FIELDINFO_ASSERT_8_def

section \<open>The structures of the link\<close>

definition Empty_struct :: ctype where "Empty_struct = Struct [Scalar 1]"

definition CpuHeartbeat_struct :: ctype where "CpuHeartbeat_struct = Struct [Scalar 1]"

definition McuHeartbeat_struct :: ctype where "McuHeartbeat_struct = Struct [Scalar 1]"

definition SetPWM_members :: "nat \<Rightarrow> ctype list" where
  "SetPWM_members eb = [Scalar eb, Scalar 4]"

definition HighToLow_union_members :: "nat \<Rightarrow> ctype list" where
  "HighToLow_union_members eb =
     [Struct (SetPWM_members eb), Scalar 1, Empty_struct, Empty_struct, CpuHeartbeat_struct]"

definition HighToLow_members :: "nat \<Rightarrow> ctype list" where
  "HighToLow_members eb = [Scalar 2, Union (HighToLow_union_members eb)]"

definition LowToHigh_union_members :: "nat \<Rightarrow> ctype list" where
  "LowToHigh_union_members eb = [Scalar eb, McuHeartbeat_struct]"

definition LowToHigh_members :: "nat \<Rightarrow> ctype list" where
  "LowToHigh_members eb = [Scalar 2, Union (LowToHigh_union_members eb)]"

text \<open>The \<open>i\<close>th member of a structure, and of the union that is its second member.\<close>

definition plain_member :: "nat \<Rightarrow> ctype list \<Rightarrow> nat \<Rightarrow> member" where
  "plain_member pw ts i = \<lparr> m_type = ts ! i, m_offset = c_offset pw ts i, m_companion = 0 \<rparr>"

definition union_member :: "nat \<Rightarrow> ctype list \<Rightarrow> ctype list \<Rightarrow> nat \<Rightarrow> member" where
  "union_member pw ts us i =
     \<lparr> m_type = us ! i, m_offset = c_offset pw ts 1, m_companion = c_offset pw ts 0 \<rparr>"

section \<open>Reading entries back\<close>

lemma bit_ffffff00: "bit (0xFFFFFF00::int) n \<longleftrightarrow> 8 \<le> n \<and> n < 32"
proof -
  have "(0xFFFFFF00::int) = push_bit 8 (mask 24)" by (simp add: mask_eq_exp_minus_1)
  then show ?thesis by (auto simp only: bit_push_bit_iff bit_mask_iff possible_bit_def) simp_all
qed

lemma fits_signed_byte:
  assumes "PB_FITS (scast (ucast so :: uint8)) 8"
  shows "bit (scast (ucast (so :: uint32) :: uint8) :: uint32) k \<longleftrightarrow> k < 7 \<and> bit so k"
proof -
  let ?w = "scast (ucast so :: uint8) :: uint32"
  have "\<not> bit ?w 8"
    using PB_FITS_bit [OF assms, of 8] by auto
  then have "\<not> bit so 7"
    by (simp add: bit_signed_iff bit_ucast_iff)
  moreover have "bit so k \<Longrightarrow> k < 32"
    using bit_imp_le_length [of so k] by simp
  ultimately show ?thesis
    by (cases "k = 7") (auto simp: bit_signed_iff bit_ucast_iff min_def)
qed

lemma wide_values:
  fixes w0 w1 t off sz so :: uint32
  assumes w1: "w1 = fieldinfo_wide_offset t so" and w0: "drop_bit 2 w0 AND 0x3F = t AND 0x3F"
    and fits: "PB_FITS t 16" "PB_FITS (scast (ucast so :: uint8)) 8"
  shows "ucast ((drop_bit 2 w0 AND 0x3F) OR push_bit 6 (drop_bit 8 w1)) = (ucast t :: uint16)"
    "ucast (w1 AND 0xFF) = (ucast so :: uint8)"
proof -
  have b: "bit w1 k \<longleftrightarrow> (k < 7 \<and> bit so k) \<or> (8 \<le> k \<and> k < 32 \<and> bit t (k - 2))" for k
    unfolding w1 fieldinfo_wide_offset_def
    by (auto simp: bit_or_iff bit_and_iff bit_push_bit_iff bit_ffffff00 fits_signed_byte [OF fits(2)])
  have so7: "\<not> bit so 7"
    using PB_FITS_bit [OF fits(2), of 8] by (auto simp: bit_signed_iff bit_ucast_iff)
  show "ucast ((drop_bit 2 w0 AND 0x3F) OR push_bit 6 (drop_bit 8 w1)) = (ucast t :: uint16)"
    unfolding w0
    by (rule bit_word_eqI) (auto simp: bit_ucast_iff bit_or_iff bit_and_iff bit_push_bit_iff bit_drop_bit_eq bit_masks_int b)
  show "ucast (w1 AND 0xFF) = (ucast so :: uint8)"
  proof (rule bit_word_eqI)
    fix i assume "i < LENGTH(8)"
    then show "bit (ucast (w1 AND 0xFF) :: uint8) i = bit (ucast so :: uint8) i"
      using so7 by (cases "i = 7") (auto simp: bit_ucast_iff bit_and_iff bit_masks_int b)
  qed
qed

lemma bit_width: "bit (2 :: uint32) n \<longleftrightarrow> n = 1" "bit (3 :: uint32) n \<longleftrightarrow> n < 2"
  "bit (2 :: int) n \<longleftrightarrow> n = 1" "bit (3 :: int) n \<longleftrightarrow> n < 2"
proof -
  have "(2 :: uint32) = push_bit 1 1" "(2 :: int) = push_bit 1 1" by simp_all
  then show "bit (2 :: uint32) n \<longleftrightarrow> n = 1" "bit (2 :: int) n \<longleftrightarrow> n = 1"
    by (auto simp only: bit_push_bit_iff bit_1_iff possible_bit_word possible_bit_def) simp_all
qed (simp_all only: bit_masks bit_masks_int)

lemma bit_ffff0000: "bit (0xFFFF0000::int) n \<longleftrightarrow> 16 \<le> n \<and> n < 32"
proof -
  have "(0xFFFF0000::int) = push_bit 16 (mask 16)" by (simp add: mask_eq_exp_minus_1)
  then show ?thesis by (auto simp only: bit_push_bit_iff bit_mask_iff possible_bit_def) simp_all
qed

text \<open>The first words of the two wide formats.\<close>

lemma wide_heads:
  fixes ty :: uint8 and t off sz so n :: uint32
  defines "w \<equiv> PB_FIELDINFO_4 t (ucast ty) off sz so n ! 0" and "v \<equiv> PB_FIELDINFO_8 t (ucast ty) off sz so n ! 0"
  shows "w AND 3 = 2" "v AND 3 = 3" "drop_bit 2 w AND 0x3F = t AND 0x3F" "drop_bit 2 v AND 0x3F = t AND 0x3F"
    "ucast (drop_bit 8 w AND 0xFF) = ty" "ucast (drop_bit 8 v AND 0xFF) = ty"
    "PB_FITS n 16 \<Longrightarrow> drop_bit 16 w = n"
proof -
  have w: "bit w k \<longleftrightarrow> k = 1 \<or> (2 \<le> k \<and> k < 8 \<and> bit t (k - 2)) \<or> (8 \<le> k \<and> k < 16 \<and> bit ty (k - 8)) \<or>
      (16 \<le> k \<and> k < 32 \<and> bit n (k - 16))" for k
    using byte_bit [of ty "k - 8"]
    by (auto simp: w_def PB_FIELDINFO_4_def fieldinfo_head_def bit_or_iff bit_and_iff bit_push_bit_iff bit_ucast_iff
      bit_masks_int bit_width bit_ffff0000)
  have v: "bit v k \<longleftrightarrow> k < 2 \<or> (2 \<le> k \<and> k < 8 \<and> bit t (k - 2)) \<or> (8 \<le> k \<and> k < 16 \<and> bit ty (k - 8))" for k
    using byte_bit [of ty "k - 8"]
    by (auto simp: v_def PB_FIELDINFO_8_def fieldinfo_head_def bit_or_iff bit_and_iff bit_push_bit_iff bit_ucast_iff
      bit_masks_int bit_width)
  note bits = bit_and_iff bit_drop_bit_eq bit_ucast_iff bit_masks_int bit_width w v
  show "w AND 3 = 2" "v AND 3 = 3" "drop_bit 2 w AND 0x3F = t AND 0x3F" "drop_bit 2 v AND 0x3F = t AND 0x3F"
    by (rule bit_word_eqI; auto simp: bits)+
  show "ucast (drop_bit 8 w AND 0xFF) = ty" "ucast (drop_bit 8 v AND 0xFF) = ty"
    by (rule bit_word_eqI; auto simp: bits dest: byte_bit)+
  show "drop_bit 16 w = n" if "PB_FITS n 16"
    by (rule bit_word_eqI) (use PB_FITS_bit [OF that] in \<open>auto simp: bits\<close>)
qed

lemma narrow_offset: "PB_FITS v 16 \<Longrightarrow> v AND 0xFFFF = v"
  by (rule bit_word_eqI) (auto simp: bit_and_iff bit_masks_int dest: PB_FITS_bit)

lemma values_wide:
  assumes "PB_FITS t 16" "PB_FITS (scast (ucast so :: uint8)) 8" "PB_FITS n 16"
  shows "descriptor_values (\<lambda>k. PB_FIELDINFO_4 t (ucast (ty::uint8)) off sz so n ! k) =
     \<lparr> fv_array_size = ucast n, fv_tag = ucast t, fv_size_offset = ucast so, fv_data_offset = off, fv_data_size = ucast sz \<rparr>"
    "descriptor_values (\<lambda>k. PB_FIELDINFO_8 t (ucast (ty::uint8)) off sz so n ! k) =
     \<lparr> fv_array_size = ucast n, fv_tag = ucast t, fv_size_offset = ucast so, fv_data_offset = off, fv_data_size = ucast sz \<rparr>"
proof -
  note h = wide_heads [where t = t and ty = ty and off = off and sz = sz and so = so and n = n]
  define w where "w = PB_FIELDINFO_4 t (ucast ty) off sz so n ! 0"
  define v where "v = PB_FIELDINFO_8 t (ucast ty) off sz so n ! 0"
  have m: "w AND 3 = 2" "v AND 3 = 3" "drop_bit 16 w = n"
    using h(1,2,7) assms(3) by (simp_all add: w_def v_def)
  note wide = wide_values [OF refl _ assms(1,2)]
  have words: "PB_FIELDINFO_4 t (ucast ty) off sz so n ! Suc 0 = fieldinfo_wide_offset t so"
    "PB_FIELDINFO_4 t (ucast ty) off sz so n ! 2 = off" "PB_FIELDINFO_4 t (ucast ty) off sz so n ! 3 = sz"
    "PB_FIELDINFO_8 t (ucast ty) off sz so n ! Suc 0 = fieldinfo_wide_offset t so"
    "PB_FIELDINFO_8 t (ucast ty) off sz so n ! 2 = off" "PB_FIELDINFO_8 t (ucast ty) off sz so n ! 3 = sz"
    "PB_FIELDINFO_8 t (ucast ty) off sz so n ! 4 = n"
    by (simp_all add: PB_FIELDINFO_4_def PB_FIELDINFO_8_def numeral_eq_Suc)
  show "descriptor_values (\<lambda>k. PB_FIELDINFO_4 t (ucast ty) off sz so n ! k) =
     \<lparr> fv_array_size = ucast n, fv_tag = ucast t, fv_size_offset = ucast so, fv_data_offset = off, fv_data_size = ucast sz \<rparr>"
    using m(1,3) wide [of w] h(3) words by (simp add: descriptor_values_def Let_def flip: w_def)
  show "descriptor_values (\<lambda>k. PB_FIELDINFO_8 t (ucast ty) off sz so n ! k) =
     \<lparr> fv_array_size = ucast n, fv_tag = ucast t, fv_size_offset = ucast so, fv_data_offset = off, fv_data_size = ucast sz \<rparr>"
    using m(2) wide [of v] h(4) words by (simp add: descriptor_values_def Let_def flip: v_def)
qed

text \<open>The width that \<open>PB_BIND(..., AUTO)\<close> picks is one of the explicit ones.\<close>

lemma auto_width:
  "PB_GEN_FIELD_INFO_AUTO s = (if field_width s = 1 then PB_GEN_FIELD_INFO_1 s else PB_GEN_FIELD_INFO_2 s)"
  "PB_GEN_FIELD_INFO_ASSERT_AUTO s = (if field_width s = 1 then PB_GEN_FIELD_INFO_ASSERT_1 s else PB_GEN_FIELD_INFO_ASSERT_2 s)"
  by (simp_all add: PB_GEN_FIELD_INFO_AUTO_def PB_GEN_FIELD_INFO_ASSERT_AUTO_def field_width_def
      PB_GEN_FIELD_INFO_1_def PB_GEN_FIELD_INFO_2_def assert_defs)

section \<open>Properties\<close>

text \<open>The widths of a descriptor entry, with their macros and assertions.\<close>

definition entry_widths :: "(nat \<times> (field_spec \<Rightarrow> uint32 list) \<times> (field_spec \<Rightarrow> bool)) list" where
  "entry_widths =
     [(1, PB_GEN_FIELD_INFO_1, PB_GEN_FIELD_INFO_ASSERT_1), (2, PB_GEN_FIELD_INFO_2, PB_GEN_FIELD_INFO_ASSERT_2),
      (4, PB_GEN_FIELD_INFO_4, PB_GEN_FIELD_INFO_ASSERT_4), (8, PB_GEN_FIELD_INFO_8, PB_GEN_FIELD_INFO_ASSERT_8)]"

text \<open>C34: Round trip of a descriptor entry in each of its four widths: where the static assertion of
  the width holds, the entry takes as many words as its two lowest bits say, the iterator reads
  back the type of the field, and the tag, offsets, sizes and array length it was packed with
  (an entry of one word has no array length; it reads 1).\<close>

theorem entry_roundtrip:
  assumes "(width, info, fits) \<in> set entry_widths" "fits s"
  shows "length (info s) = width \<and> 2 ^ unat (info s ! 0 AND 3) = width \<and>
    ucast (drop_bit 8 (info s ! 0) AND 0xFF) = field_type_code s \<and>
    descriptor_values (\<lambda>k. info s ! k) =
      \<lparr> fv_array_size = (if width = 1 then 1 else ucast (fs_array_size s)), fv_tag = ucast (fs_tag s),
        fv_size_offset = ucast (fs_size_offset s), fv_data_offset = fs_data_offset s,
        fv_data_size = ucast (fs_data_size s) \<rparr>"
proof -
  consider (w1) "width = 1" "info = PB_GEN_FIELD_INFO_1" "PB_GEN_FIELD_INFO_ASSERT_1 s"
    | (w2) "width = 2" "info = PB_GEN_FIELD_INFO_2" "PB_GEN_FIELD_INFO_ASSERT_2 s"
    | (w4) "width = 4" "info = PB_GEN_FIELD_INFO_4" "PB_GEN_FIELD_INFO_ASSERT_4 s"
    | (w8) "width = 8" "info = PB_GEN_FIELD_INFO_8" "PB_GEN_FIELD_INFO_ASSERT_8 s"
    using assms by (auto simp: entry_widths_def)
  then show ?thesis
  proof cases
    case w1
    then show ?thesis
      unfolding PB_GEN_FIELD_INFO_1_def assert_defs
      by (simp only: values_1 fieldinfo_heads fieldinfo_types if_True refl simp_thms) (simp add: PB_FIELDINFO_1_def)
  next
    case w2
    then show ?thesis
      unfolding PB_GEN_FIELD_INFO_2_def assert_defs
      by (simp only: values_2 fieldinfo_heads fieldinfo_types_2 refl simp_thms) (simp add: PB_FIELDINFO_2_def)
  next
    case w4
    then show ?thesis
      unfolding PB_GEN_FIELD_INFO_4_def assert_defs
      by (simp only: values_wide wide_heads refl simp_thms) (simp add: PB_FIELDINFO_4_def)
  next
    case w8
    then show ?thesis
      unfolding PB_GEN_FIELD_INFO_8_def assert_defs
      by (simp only: values_wide wide_heads refl simp_thms) (simp add: PB_FIELDINFO_8_def)
  qed
qed

text \<open>A field with tag 1000 of a structure of more than 255 bytes, which only the wide formats hold.\<close>

theorem entry_roundtrip_witness:
  "descriptor_values (\<lambda>k. PB_GEN_FIELD_INFO_4 (singular_field T_UINT32 1000 300 4) ! k) =
     \<lparr> fv_array_size = 1, fv_tag = 1000, fv_size_offset = 0, fv_data_offset = 300, fv_data_size = 4 \<rparr>"
  using entry_roundtrip [of 4 PB_GEN_FIELD_INFO_4 PB_GEN_FIELD_INFO_ASSERT_4 "singular_field T_UINT32 1000 300 4"]
  by (simp add: entry_widths_def assert_defs PB_FITS_def singular_field_def)

text \<open>The layout of the structures, computed.\<close>

lemma struct_sizes:
  "c_size 4 (Struct (HighToLow_members 1)) = HighToLow_sizeof" "c_size 4 (Struct (HighToLow_members 4)) = HighToLow_sizeof"
  "c_size 4 (Struct (LowToHigh_members 1)) = 4" "c_size 4 (Struct (LowToHigh_members 4)) = LowToHigh_bytes"
  by code_simp+

lemma union_sizes:
  "eb = 1 \<or> eb = 4 \<Longrightarrow> map (c_size 4) (HighToLow_union_members eb) = [8, 1, 1, 1, 1]"
  "eb = 1 \<or> eb = 4 \<Longrightarrow> map (c_size 4) (LowToHigh_union_members eb) = [eb, 1]"
proof -
  have "map (c_size 4) (HighToLow_union_members 1) = [8, 1, 1, 1, 1]" "map (c_size 4) (HighToLow_union_members 4) = [8, 1, 1, 1, 1]"
    "map (c_size 4) (LowToHigh_union_members 1) = [1, 1]" "map (c_size 4) (LowToHigh_union_members 4) = [4, 1]"
    by code_simp+
  then show "eb = 1 \<or> eb = 4 \<Longrightarrow> map (c_size 4) (HighToLow_union_members eb) = [8, 1, 1, 1, 1]"
    "eb = 1 \<or> eb = 4 \<Longrightarrow> map (c_size 4) (LowToHigh_union_members eb) = [eb, 1]"
    by blast+
qed

lemma struct_offsets:
  "eb = 1 \<or> eb = 4 \<Longrightarrow> c_offset 4 (HighToLow_members eb) 0 = 0" "eb = 1 \<or> eb = 4 \<Longrightarrow> c_offset 4 (HighToLow_members eb) 1 = 4"
  "eb = 1 \<or> eb = 4 \<Longrightarrow> c_offset 4 (SetPWM_members eb) 0 = 0" "eb = 1 \<or> eb = 4 \<Longrightarrow> c_offset 4 (SetPWM_members eb) 1 = 4"
  "eb = 1 \<or> eb = 4 \<Longrightarrow> c_offset 4 (LowToHigh_members eb) 0 = 0"
  "eb = 1 \<or> eb = 4 \<Longrightarrow> c_offset 4 (LowToHigh_members eb) 1 = unat (LowToHigh_union (of_nat eb))"
proof -
  have "map (\<lambda>eb. (c_offset 4 (HighToLow_members eb) 0, c_offset 4 (HighToLow_members eb) 1)) [1, 4] = [(0, 4), (0, 4)]"
    "map (\<lambda>eb. (c_offset 4 (SetPWM_members eb) 0, c_offset 4 (SetPWM_members eb) 1)) [1, 4] = [(0, 4), (0, 4)]"
    "map (\<lambda>eb. (c_offset 4 (LowToHigh_members eb) 0, c_offset 4 (LowToHigh_members eb) 1)) [1, 4] = [(0, 2), (0, 4)]"
    by code_simp+
  then show "eb = 1 \<or> eb = 4 \<Longrightarrow> c_offset 4 (HighToLow_members eb) 0 = 0" "eb = 1 \<or> eb = 4 \<Longrightarrow> c_offset 4 (HighToLow_members eb) 1 = 4"
    "eb = 1 \<or> eb = 4 \<Longrightarrow> c_offset 4 (SetPWM_members eb) 0 = 0" "eb = 1 \<or> eb = 4 \<Longrightarrow> c_offset 4 (SetPWM_members eb) 1 = 4"
    "eb = 1 \<or> eb = 4 \<Longrightarrow> c_offset 4 (LowToHigh_members eb) 0 = 0"
    "eb = 1 \<or> eb = 4 \<Longrightarrow> c_offset 4 (LowToHigh_members eb) 1 = unat (LowToHigh_union (of_nat eb))"
    by (auto simp: LowToHigh_union_def)
qed

text \<open>C33: The descriptors of the link describe the structures of the link: with an enumeration of one
  or of four bytes, the offsets and sizes in them are those that the macros of \<open>pb.h\<close> get from the
  ABI for the structures of the generated headers, these structures have the sizes that the
  link's buffers are given, and the static assertions of the generated code hold.\<close>

theorem link_descriptors_match_structs:
  assumes "eb = 1 \<or> eb = 4"
  defines "in_union \<equiv> union_member 4 (HighToLow_members eb) (HighToLow_union_members eb)"
    and "out_union \<equiv> union_member 4 (LowToHigh_members eb) (LowToHigh_union_members eb)"
    and "oneof \<equiv> X_field 4 A_STATIC H_ONEOF" and "singular \<equiv> X_field 4 A_STATIC H_SINGULAR"
  shows "HighToLow_FIELDLIST (of_nat eb) =
      [oneof T_MESSAGE (in_union 0) 1 (SetPWM_msg (of_nat eb)), oneof T_BOOL (in_union 1) 2 d,
       oneof T_MESSAGE (in_union 2) 3 Empty_msg, oneof T_MESSAGE (in_union 3) 4 Empty_msg,
       oneof T_MESSAGE (in_union 4) 5 CpuHeartbeat_msg] \<and>
    SetPWM_FIELDLIST (of_nat eb) =
      [singular T_UENUM (plain_member 4 (SetPWM_members eb) 0) 1 d,
       singular T_FLOAT (plain_member 4 (SetPWM_members eb) 1) 2 d] \<and>
    LowToHigh_FIELDLIST (of_nat eb) =
      [oneof T_UENUM (out_union 0) 1 d, oneof T_MESSAGE (out_union 1) 2 McuHeartbeat_msg] \<and>
    c_size 4 (Struct (HighToLow_members eb)) = HighToLow_sizeof \<and>
    c_size 4 (Struct (LowToHigh_members eb)) \<le> LowToHigh_bytes \<and>
    list_all PB_GEN_FIELD_INFO_ASSERT_AUTO
      (HighToLow_FIELDLIST (of_nat eb) @ SetPWM_FIELDLIST (of_nat eb) @ LowToHigh_FIELDLIST (of_nat eb))"
proof -
  note macros = X_field_def PB_DATA_OFFSET_def PB_DATA_SIZE_def PB_SIZE_OFFSET_def PB_ARRAY_SIZE_def PB_SUBMSG_INFO_def
    pb_delta_def pb_membersize_def
  have eb: "enum_size (of_nat eb)" using assms(1) by (auto simp: enum_size_def)
  have sizes: "c_size 4 (Struct (HighToLow_members eb)) = HighToLow_sizeof"
    "c_size 4 (Struct (LowToHigh_members eb)) \<le> LowToHigh_bytes"
    using assms(1) struct_sizes by (auto simp only: LowToHigh_bytes_def)
  have asserts: "list_all PB_GEN_FIELD_INFO_ASSERT_AUTO
      (HighToLow_FIELDLIST (of_nat eb) @ SetPWM_FIELDLIST (of_nat eb) @ LowToHigh_FIELDLIST (of_nat eb))"
  proof -
    have "plain_fields fs \<Longrightarrow> list_all PB_GEN_FIELD_INFO_ASSERT_AUTO fs" for fs
      by (auto simp: plain_fields_def valid_fields_def list_all_iff)
    then show ?thesis
      using union_HighToLow [of "of_nat eb"] plain_SetPWM [OF eb] union_LowToHigh [OF eb]
      by (simp only: union_fields_def list_all_append)
  qed
  note offs = struct_offsets [OF assms(1)]
  have members: "m_offset (in_union i) = 4" "m_companion (in_union i) = 0" "m_type (in_union i) = HighToLow_union_members eb ! i"
    "m_offset (out_union i) = unat (LowToHigh_union (of_nat eb))" "m_companion (out_union i) = 0"
    "m_type (out_union i) = LowToHigh_union_members eb ! i" for i
    by (simp_all add: in_union_def out_union_def union_member_def offs del: One_nat_def)
  have us: "c_size 4 (HighToLow_union_members eb ! i) = [8, 1, 1, 1, 1] ! i" if "i < 5" for i
    using union_sizes(1) [OF assms(1)] that nth_map [of i "HighToLow_union_members eb" "c_size 4"]
    by (simp add: HighToLow_union_members_def)
  have ls: "c_size 4 (LowToHigh_union_members eb ! i) = [eb, 1] ! i" if "i < 2" for i
    using union_sizes(2) [OF assms(1)] that nth_map [of i "LowToHigh_union_members eb" "c_size 4"]
    by (simp add: LowToHigh_union_members_def)
  have h: "HighToLow_FIELDLIST (of_nat eb) =
      [oneof T_MESSAGE (in_union 0) 1 (SetPWM_msg (of_nat eb)), oneof T_BOOL (in_union 1) 2 d,
       oneof T_MESSAGE (in_union 2) 3 Empty_msg, oneof T_MESSAGE (in_union 3) 4 Empty_msg,
       oneof T_MESSAGE (in_union 4) 5 CpuHeartbeat_msg]"
    unfolding oneof_def by (simp add: macros members us HighToLow_FIELDLIST_def oneof_field_def)
  have p: "SetPWM_FIELDLIST (of_nat eb) =
      [singular T_UENUM (plain_member 4 (SetPWM_members eb) 0) 1 d,
       singular T_FLOAT (plain_member 4 (SetPWM_members eb) 1) 2 d]"
    unfolding singular_def
    using offs(3,4) by (simp add: macros plain_member_def SetPWM_FIELDLIST_def singular_field_def del: One_nat_def) (simp add: SetPWM_members_def)
  have l: "LowToHigh_FIELDLIST (of_nat eb) =
      [oneof T_UENUM (out_union 0) 1 d, oneof T_MESSAGE (out_union 1) 2 McuHeartbeat_msg]"
    unfolding oneof_def by (simp add: macros members ls LowToHigh_FIELDLIST_def oneof_field_def)
  show ?thesis
    by (intro conjI h p l sizes asserts)
qed

text \<open>The union of the outgoing message starts behind its selector, at 2 or at 4.\<close>

theorem link_descriptors_match_structs_witness:
  "fs_data_offset (LowToHigh_FIELDLIST 1 ! 0) = 2 \<and> fs_data_offset (LowToHigh_FIELDLIST 4 ! 0) = 4"
proof -
  have "LowToHigh_FIELDLIST (of_nat 1) ! 0 =
      X_field 4 A_STATIC H_ONEOF T_UENUM (union_member 4 (LowToHigh_members 1) (LowToHigh_union_members 1) 0) 1 Empty_msg"
    "LowToHigh_FIELDLIST (of_nat 4) ! 0 =
      X_field 4 A_STATIC H_ONEOF T_UENUM (union_member 4 (LowToHigh_members 4) (LowToHigh_union_members 4) 0) 1 Empty_msg"
    using link_descriptors_match_structs [of 1 Empty_msg] link_descriptors_match_structs [of 4 Empty_msg] by simp_all
  then show ?thesis
    by (simp add: X_field_def PB_DATA_OFFSET_def union_member_def c_offset_def align_up_def LowToHigh_members_def
      LowToHigh_union_members_def McuHeartbeat_struct_def)
qed

end
