(* ===== verification/Pb_Malloc.thy ===== *)
theory Pb_Malloc
  imports Codec_Properties
begin

text \<open>
  The part of \<open>pb_decode.c\<close> that \<open>PB_ENABLE_MALLOC\<close> adds: fields stored behind pointers, the
  release of what they hold, and the decoders that differ from those of the default build.
  The allocator is a parameter, \<open>pb_alloc\<close>; like the heap itself, its bookkeeping is part of
  the memory it works on. Static and callback fields are decoded as in \<open>Pb_Decode\<close>; their
  decoders never reach the branches on \<open>PB_ATYPE_POINTER\<close>.
\<close>

section \<open>Allocation\<close>

text \<open>\<open>pb_realloc\<close> (0 is the NULL it returns when it fails) and \<open>pb_free\<close>.\<close>

record pb_alloc =
  pb_realloc :: "nat \<Rightarrow> nat \<Rightarrow> (pb, nat) state"
  pb_free :: "nat \<Rightarrow> (pb, unit) state"

text \<open>\<open>*(void**\<close>\<open>)a = p\<close>\<close>

definition put_ptr :: "pb_env \<Rightarrow> nat \<Rightarrow> nat \<Rightarrow> (pb, unit) state" where
  "put_ptr env a p = put_bytes a (le_bytes (ptr_bytes env) (of_nat p :: uint64))"

text \<open>The comparison that keeps the product of the two sizes from wrapping.\<close>

definition product_overflows :: "pb_env \<Rightarrow> nat \<Rightarrow> nat \<Rightarrow> bool" where
  "product_overflows env data_size' array_size' =
     (let check_limit = 2 ^ (size_bits env div 2) in
      (check_limit \<le> data_size' \<or> check_limit \<le> array_size') \<and>
      (2 ^ size_bits env - 1) div array_size' < data_size')"

definition allocate_field :: "pb_env \<Rightarrow> pb_alloc \<Rightarrow> nat \<Rightarrow> nat \<Rightarrow> nat \<Rightarrow> (pb, bool) state" where
  "allocate_field env al pData' data_size' array_size' = do {
     ptr \<leftarrow> get_ptr env pData';
     if data_size' = 0 \<or> array_size' = 0 then is_return_error ''invalid size''
     else if product_overflows env data_size' array_size' then is_return_error ''size too large''
     else do {
       ptr \<leftarrow> pb_realloc al ptr (wrap env (array_size' * data_size'));
       if ptr = 0 then is_return_error ''realloc failed''
       else do { put_ptr env pData' ptr; State_Monad.return True }
     }
   }"

definition is_pointer_type :: "field_iter \<Rightarrow> bool" where
  "is_pointer_type field \<longleftrightarrow>
     PB_LTYPE (ftype field) = PB_LTYPE_STRING \<or> PB_LTYPE (ftype field) = PB_LTYPE_BYTES"

definition initialize_pointer_field :: "pb_env \<Rightarrow> nat \<Rightarrow> field_iter \<Rightarrow> (pb, unit) state" where
  "initialize_pointer_field env pItem field =
     (if is_pointer_type field then put_ptr env pItem 0
      else if_then (PB_LTYPE_IS_SUBMSG (ftype field))
        (put_bytes pItem (replicate (unat (data_size field)) 0)))"

section \<open>Release\<close>

type_synonym field_releaser = "field_iter \<Rightarrow> (pb, unit) state"
type_synonym releaser = "msgdesc \<Rightarrow> nat \<Rightarrow> (pb, unit) state"

text \<open>The list of extensions; \<open>n\<close> bounds its length.\<close>

primrec release_extensions :: "pb_env \<Rightarrow> field_releaser \<Rightarrow> nat \<Rightarrow> nat \<Rightarrow> (pb, unit) state" where
  "release_extensions env single 0 ext = if_then (ext \<noteq> 0) (ignore get_stuck)"
| "release_extensions env single (Suc n) ext =
     (if ext = 0 then State_Monad.return ()
      else do {
        m \<leftarrow> gets mem;
        let (ok, ext_iter) = pb_field_iter_begin_extension env m ext;
        if_then ok (single ext_iter);
        m' \<leftarrow> gets mem;
        release_extensions env single n (ext_next env m' ext)
      })"

text \<open>The submessages of an array, from \<open>p\<close> on.\<close>

primrec release_submessages :: "releaser \<Rightarrow> msgdesc \<Rightarrow> nat \<Rightarrow> nat \<Rightarrow> nat \<Rightarrow> (pb, unit) state" where
  "release_submessages rel d sz 0 p = State_Monad.return ()"
| "release_submessages rel d sz (Suc count) p = do {
     rel d p;
     release_submessages rel d sz count (p + sz)
   }"

text \<open>The entries of an array of strings or byte arrays.\<close>

primrec release_entries :: "pb_env \<Rightarrow> pb_alloc \<Rightarrow> nat \<Rightarrow> nat \<Rightarrow> (pb, unit) state" where
  "release_entries env al 0 pItem = State_Monad.return ()"
| "release_entries env al (Suc count) pItem = do {
     p \<leftarrow> get_ptr env pItem;
     pb_free al p;
     put_ptr env pItem 0;
     release_entries env al count (pItem + ptr_bytes env)
   }"

definition release_submsg_field :: "pb_env \<Rightarrow> releaser \<Rightarrow> field_iter \<Rightarrow> (pb, unit) state" where
  "release_submsg_field env rel field = do {
     p \<leftarrow> (if PB_ATYPE (ftype field) = PB_ATYPE_POINTER then get_ptr env (pField field)
          else State_Monad.return (pField field));
     count \<leftarrow>
       (if PB_HTYPE (ftype field) = PB_HTYPE_REPEATED then do {
          n \<leftarrow> get_size field;
          State_Monad.return
            (if PB_ATYPE (ftype field) = PB_ATYPE_STATIC \<and> array_size field < n then array_size field else n)
        } else State_Monad.return 1);
     if_then (p \<noteq> 0)
       (case submsg_desc field of
          None \<Rightarrow> ignore get_stuck
        | Some d \<Rightarrow> release_submessages rel d (unat (data_size field)) (unat count) p)
   }"

definition release_pointer :: "pb_env \<Rightarrow> pb_alloc \<Rightarrow> field_iter \<Rightarrow> (pb, unit) state" where
  "release_pointer env al field = do {
     if_then (PB_HTYPE (ftype field) = PB_HTYPE_REPEATED \<and> is_pointer_type field) (do {
       pItem \<leftarrow> get_ptr env (pField field);
       count \<leftarrow> get_size field;
       release_entries env al (unat count) pItem
     });
     if_then (PB_HTYPE (ftype field) = PB_HTYPE_REPEATED) (ignore (put_size 0 field));
     p \<leftarrow> get_ptr env (pField field);
     pb_free al p;
     put_ptr env (pField field) 0
   }"

text \<open>\<open>pb_release_single_field\<close>, with the releasers of what the field contains.\<close>

definition release_field_body ::
  "pb_env \<Rightarrow> pb_alloc \<Rightarrow> releaser \<Rightarrow> field_releaser \<Rightarrow> nat \<Rightarrow> field_releaser" where
  "release_field_body env al rel single n field = do {
     which \<leftarrow> (if PB_HTYPE (ftype field) = PB_HTYPE_ONEOF then get_size field
               else State_Monad.return (tag field));
     if which \<noteq> tag field then State_Monad.return ()
     else do {
       (if PB_LTYPE (ftype field) = PB_LTYPE_EXTENSION then do {
          ext \<leftarrow> get_ptr env (pData field);
          release_extensions env single n ext
        }
        else if_then (PB_LTYPE_IS_SUBMSG (ftype field) \<and> PB_ATYPE (ftype field) \<noteq> PB_ATYPE_CALLBACK)
          (release_submsg_field env rel field));
       if_then (PB_ATYPE (ftype field) = PB_ATYPE_POINTER) (release_pointer env al field)
     }
   }"

text \<open>The do-while loop of \<open>pb_release\<close> over the fields.\<close>

primrec release_loop :: "pb_env \<Rightarrow> field_releaser \<Rightarrow> nat \<Rightarrow> field_iter \<Rightarrow> (pb, unit) state" where
  "release_loop env single 0 iter = ignore get_stuck"
| "release_loop env single (Suc k) iter = do {
     single iter;
     m \<leftarrow> gets mem;
     let (more, iter') = pb_field_iter_next env m iter in
     if more then release_loop env single k iter' else State_Monad.return ()
   }"

definition release_body :: "pb_env \<Rightarrow> field_releaser \<Rightarrow> releaser" where
  "release_body env single desc dest_struct =
     (if dest_struct = 0 then State_Monad.return ()
      else do {
        m \<leftarrow> gets mem;
        let (ok, iter) = pb_field_iter_begin env m desc dest_struct in
        if ok then release_loop env single (unat (field_count desc)) iter
        else State_Monad.return ()
      })"

text \<open>The two functions call each other; the fuel bounds the nesting of messages.\<close>

fun pb_release_single_field :: "pb_env \<Rightarrow> pb_alloc \<Rightarrow> nat \<Rightarrow> field_releaser"
  and pb_release :: "pb_env \<Rightarrow> pb_alloc \<Rightarrow> nat \<Rightarrow> releaser" where
  "pb_release_single_field env al 0 = (\<lambda>field. ignore get_stuck)"
| "pb_release_single_field env al (Suc n) =
     release_field_body env al (pb_release env al n) (pb_release_single_field env al n) n"
| "pb_release env al 0 = (\<lambda>desc dest_struct. ignore get_stuck)"
| "pb_release env al (Suc n) = release_body env (pb_release_single_field env al n)"

text \<open>The field comes back with the \<open>pData\<close> that the function leaves.\<close>

definition pb_release_union_field ::
  "pb_env \<Rightarrow> pb_alloc \<Rightarrow> field_releaser \<Rightarrow> field_iter \<Rightarrow> (pb, field_iter option) state" where
  "pb_release_union_field env al single field = do {
     old_tag \<leftarrow> get_size field;
     if old_tag = 0 \<or> old_tag = tag field then State_Monad.return (Some field)
     else do {
       m \<leftarrow> gets mem;
       case pb_field_iter_find env m field (ucast old_tag) of
         None \<Rightarrow> do { ignore get_stuck; State_Monad.return None }
       | Some (found, old_field) \<Rightarrow>
           (if \<not> found then is_return_none ''invalid union tag''
            else do {
              single old_field;
              if PB_ATYPE (ftype field) = PB_ATYPE_POINTER then do {
                put_ptr env (pField field) 0;
                State_Monad.return (Some (field\<lparr>pData := 0\<rparr>))
              } else State_Monad.return (Some field)
            })
     }
   }"

section \<open>Decoding\<close>

text \<open>
  The end of \<open>pb_dec_bytes\<close> and \<open>pb_dec_string\<close> where the field is a pointer: the bytes must
  be there before memory is asked for.
\<close>

definition alloc_dest :: "pb_env \<Rightarrow> pb_alloc \<Rightarrow> field_iter \<Rightarrow> uint32 \<Rightarrow> nat \<Rightarrow> (pb, nat option) state" where
  "alloc_dest env al field sz alloc_size = do {
     left \<leftarrow> gets (\<lambda>s. bytes_left (istr s));
     if left < unat sz then is_return_none ''end-of-stream''
     else do {
       ok \<leftarrow> allocate_field env al (pData field) alloc_size 1;
       if \<not> ok then State_Monad.return None
       else do { p \<leftarrow> get_ptr env (pData field); State_Monad.return (Some p) }
     }
   }"

definition pb_dec_bytes_malloc :: "pb_env \<Rightarrow> pb_alloc \<Rightarrow> field_iter \<Rightarrow> (pb, bool) state" where
  "pb_dec_bytes_malloc env al field =
     check_some pb_decode_varint32 (\<lambda>sz.
       if ucast PB_SIZE_MAX < sz then is_return_error ''bytes overflow''
       else
         let alloc_size = wrap env (unat sz + 2) in
         if alloc_size < unat sz then is_return_error ''size too large''
         else
           check_some
             (if PB_ATYPE (ftype field) = PB_ATYPE_POINTER then alloc_dest env al field sz alloc_size
              else if unat (data_size field) < alloc_size then is_return_none ''bytes overflow''
              else State_Monad.return (Some (pData field)))
             (\<lambda>dest. do {
                put_u16 dest (ucast sz);
                pb_read (dest + 2) (unat sz)
              }))"

definition pb_dec_string_malloc :: "pb_env \<Rightarrow> pb_alloc \<Rightarrow> field_iter \<Rightarrow> (pb, bool) state" where
  "pb_dec_string_malloc env al field =
     check_some pb_decode_varint32 (\<lambda>sz.
       if sz = 0xFFFFFFFF then is_return_error ''size too large''
       else
         let alloc_size = wrap env (unat (sz + 1)) in
         if alloc_size < unat sz then is_return_error ''size too large''
         else
           check_some
             (if PB_ATYPE (ftype field) = PB_ATYPE_POINTER then alloc_dest env al field sz alloc_size
              else if unat (data_size field) < alloc_size then is_return_none ''string overflow''
              else State_Monad.return (Some (pData field)))
             (\<lambda>dest. do {
                put_bytes (dest + unat sz) [0];
                pb_read dest (unat sz)
              }))"

definition decode_basic_field_malloc ::
  "pb_env \<Rightarrow> pb_alloc \<Rightarrow> decoder \<Rightarrow> uint8 \<Rightarrow> field_iter \<Rightarrow> (pb, bool) state" where
  "decode_basic_field_malloc env al dec wire_type field =
     (let lt = PB_LTYPE (ftype field) in
      if lt = PB_LTYPE_BYTES then
        wrong_wire_type [PB_WT_STRING] wire_type (pb_dec_bytes_malloc env al field)
      else if lt = PB_LTYPE_STRING then
        wrong_wire_type [PB_WT_STRING] wire_type (pb_dec_string_malloc env al field)
      else decode_basic_field env dec wire_type field)"

text \<open>
  The loop of a packed array, on its substream: how far the storage must reach is guessed
  from the bytes that are left. The result is the status and whether the array had too
  many entries; the code divides by \<open>data_size\<close>, so a size of 0 is stuck. Every round
  consumes input, so the stream's length plus one is enough fuel.
\<close>

definition guess_size :: "nat \<Rightarrow> nat \<Rightarrow> uint16 \<Rightarrow> nat" where
  "guess_size left allocated_size item_size =
     (let remain = (left - 1) div unat item_size + 1 in
      if remain < unat PB_SIZE_MAX - allocated_size then allocated_size + remain
      else allocated_size + 1)"

primrec packed_pointer_loop ::
  "pb_env \<Rightarrow> pb_alloc \<Rightarrow> (uint8 \<Rightarrow> field_iter \<Rightarrow> (pb, bool) state) \<Rightarrow> nat \<Rightarrow> nat \<Rightarrow> field_iter \<Rightarrow>
     (pb, bool \<times> bool) state" where
  "packed_pointer_loop env al basic 0 allocated_size field = do {
     ignore get_stuck;
     State_Monad.return (False, False)
   }"
| "packed_pointer_loop env al basic (Suc k) allocated_size field = do {
     left \<leftarrow> gets (\<lambda>s. bytes_left (istr s));
     n \<leftarrow> get_size field;
     if left = 0 then State_Monad.return (True, False)
     else if n = PB_SIZE_MAX then State_Monad.return (False, True)
     else do {
       let grow = (allocated_size < unat n + 1);
       let allocated_size = (if grow then guess_size left allocated_size (data_size field) else allocated_size);
       ok \<leftarrow>
         (if \<not> grow then State_Monad.return True
          else if data_size field = 0 then get_stuck
          else allocate_field env al (pField field) (unat (data_size field)) allocated_size);
       if \<not> ok then State_Monad.return (False, False)
       else do {
         p \<leftarrow> get_ptr env (pField field);
         let field = field\<lparr>pData := p + unat (data_size field) * unat n\<rparr>;
         initialize_pointer_field env (pData field) field;
         ok \<leftarrow> basic PB_WT_PACKED field;
         if \<not> ok then State_Monad.return (False, False)
         else do {
           n' \<leftarrow> get_size field;
           field \<leftarrow> put_size (n' + 1) field;
           packed_pointer_loop env al basic k allocated_size field
         }
       }
     }
   }"

definition decode_repeated_pointer ::
  "pb_env \<Rightarrow> pb_alloc \<Rightarrow> (uint8 \<Rightarrow> field_iter \<Rightarrow> (pb, bool) state) \<Rightarrow> uint8 \<Rightarrow> field_iter \<Rightarrow>
     (pb, bool) state" where
  "decode_repeated_pointer env al basic wire_type field =
     (if wire_type = PB_WT_STRING \<and> PB_LTYPE (ftype field) \<le> PB_LTYPE_LAST_PACKABLE then do {
        n \<leftarrow> get_size field;
        check_some pb_make_string_substream (\<lambda>substream. do {
          ((status, too_many), sub) \<leftarrow> with_istream substream
            (packed_pointer_loop env al basic (bytes_left substream + 1) (unat n) field);
          if_then too_many
            (modify (\<lambda>s. s\<lparr>istr := (istr s)\<lparr>is_errmsg := Some ''too many array entries''\<rparr>\<rparr>));
          check (pb_close_string_substream sub) (State_Monad.return status)
        })
      }
      else do {
        n \<leftarrow> get_size field;
        if n = PB_SIZE_MAX then is_return_error ''too many array entries''
        else
          check (allocate_field env al (pField field) (unat (data_size field)) (unat n + 1)) (do {
            p \<leftarrow> get_ptr env (pField field);
            field \<leftarrow> put_size (n + 1) (field\<lparr>pData := p + unat (data_size field) * unat n\<rparr>);
            initialize_pointer_field env (pData field) field;
            basic wire_type field
          })
      })"

text \<open>\<open>basic\<close> is \<open>decode_basic_field\<close> of this build, \<open>single\<close> \<open>pb_release_single_field\<close>.\<close>

definition decode_pointer_field_malloc ::
  "pb_env \<Rightarrow> pb_alloc \<Rightarrow> field_releaser \<Rightarrow> (uint8 \<Rightarrow> field_iter \<Rightarrow> (pb, bool) state) \<Rightarrow> uint8 \<Rightarrow>
     field_iter \<Rightarrow> (pb, bool) state" where
  "decode_pointer_field_malloc env al single basic wire_type field =
     (let ht = PB_HTYPE (ftype field) in
      if ht = PB_HTYPE_REQUIRED \<or> ht = PB_HTYPE_OPTIONAL \<or> ht = PB_HTYPE_ONEOF then do {
        p \<leftarrow> get_ptr env (pField field);
        if_then (PB_LTYPE_IS_SUBMSG (ftype field) \<and> p \<noteq> 0) (single field);
        field \<leftarrow> (if ht = PB_HTYPE_ONEOF then put_size (tag field) field else State_Monad.return field);
        if is_pointer_type field then basic wire_type (field\<lparr>pData := pField field\<rparr>)
        else
          check (allocate_field env al (pField field) (unat (data_size field)) 1) (do {
            p \<leftarrow> get_ptr env (pField field);
            initialize_pointer_field env p field;
            basic wire_type (field\<lparr>pData := p\<rparr>)
          })
      }
      else if ht = PB_HTYPE_REPEATED then decode_repeated_pointer env al basic wire_type field
      else is_return_error ''invalid field type'')"

definition decode_field_malloc ::
  "pb_env \<Rightarrow> pb_alloc \<Rightarrow> field_releaser \<Rightarrow> decoder \<Rightarrow> initialiser \<Rightarrow> uint8 \<Rightarrow> field_iter \<Rightarrow>
     (pb, bool) state" where
  "decode_field_malloc env al single dec dfl wire_type field =
     check_some
       (if PB_HTYPE (ftype field) = PB_HTYPE_ONEOF then pb_release_union_field env al single field
        else State_Monad.return (Some field))
       (\<lambda>field.
          let at = PB_ATYPE (ftype field) in
          if at = PB_ATYPE_STATIC then decode_static_field env dec dfl wire_type field
          else if at = PB_ATYPE_POINTER
          then decode_pointer_field_malloc env al single (decode_basic_field_malloc env al dec) wire_type field
          else if at = PB_ATYPE_CALLBACK then decode_callback_field env wire_type field
          else is_return_error ''invalid field type'')"

text \<open>The end of \<open>pb_decode\<close> and \<open>pb_decode_ex\<close>: a message that failed is released.\<close>

definition release_on_error ::
  "pb_env \<Rightarrow> pb_alloc \<Rightarrow> nat \<Rightarrow> msgdesc \<Rightarrow> nat \<Rightarrow> (pb, bool) state \<Rightarrow> (pb, bool) state" where
  "release_on_error env al n desc dest_struct decoded = do {
     status \<leftarrow> decoded;
     if_then (\<not> status) (pb_release env al n desc dest_struct);
     State_Monad.return status
   }"

section \<open>The sizes asked for\<close>

text \<open>
  The test with half of the bits of a \<open>size_t\<close> and the division together detect exactly
  the products that do not fit.
\<close>

lemma product_overflows_iff:
  assumes "even (size_bits env)" "0 < d" "0 < a"
  shows "product_overflows env d a \<longleftrightarrow> 2 ^ size_bits env \<le> a * d"
proof -
  let ?h = "2 ^ (size_bits env div 2) :: nat" and ?M = "2 ^ size_bits env :: nat"
  have M: "?h * ?h = ?M"
    using assms(1) by (simp add: power_add [symmetric] mult_2 [symmetric])
  have division: "(?M - 1) div a < d \<longleftrightarrow> ?M \<le> a * d"
  proof -
    have "(?M - 1) div a < d \<longleftrightarrow> ?M - 1 < d * a"
      by (rule div_less_iff_less_mult [OF assms(3)])
    also have "\<dots> \<longleftrightarrow> ?M \<le> a * d"
      by (simp add: mult.commute) (metis Suc_pred less_eq_Suc_le zero_less_numeral zero_less_power)
    finally show ?thesis .
  qed
  have "?h \<le> d \<or> ?h \<le> a" if "?M \<le> a * d"
  proof (rule ccontr)
    assume "\<not> (?h \<le> d \<or> ?h \<le> a)"
    then have "a * d < ?h * ?h"
      using assms(2,3) by (intro mult_strict_mono) simp_all
    then show False using that M by simp
  qed
  with division show ?thesis
    unfolding product_overflows_def Let_def by blast
qed

text \<open>C39: The decoder never asks for less memory than an array needs: with an even number of bits in
  a \<open>size_t\<close>, a request for \<open>array_size\<close> items of \<open>data_size\<close> bytes is refused with an error, and
  without a call of the allocator, when one of them is zero or when the product does not fit a
  \<open>size_t\<close>; otherwise exactly the product is requested, and the pointer is stored unless the
  allocator fails, in which case the old pointer stays where it was.\<close>

theorem allocation_never_wraps:
  assumes "even (size_bits env)"
  shows "run_state (allocate_field env al at d a) s =
    (let n = a * d; ptr = load_ptr env (mem s) at; (q, t) = run_state (pb_realloc al ptr n) s in
     if n = 0 then run_state (is_return_error ''invalid size'') s
     else if 2 ^ size_bits env \<le> n then run_state (is_return_error ''size too large'') s
     else if q = 0 then run_state (is_return_error ''realloc failed'') t
     else (True, t\<lparr>mem := store at (le_bytes (ptr_bytes env) (of_nat q :: uint64)) (mem t)\<rparr>))"
proof (cases "a * d = 0")
  case True
  then show ?thesis by (auto simp: allocate_field_def split: prod.split)
next
  case False
  then have "0 < d" "0 < a" by auto
  note o = product_overflows_iff [OF assms this]
  have "wrap env (a * d) = a * d" if "\<not> 2 ^ size_bits env \<le> a * d"
    using that by (simp add: wrap_def)
  with False o show ?thesis
    by (auto simp: allocate_field_def put_ptr_def Let_def split: prod.split)
qed

text \<open>On 32 bits, 65536 items of 65536 bytes: the product would wrap to zero.\<close>

theorem allocation_never_wraps_witness:
  "run_state (allocate_field sim_lib \<lparr> pb_realloc = \<lambda>p n. State_Monad.return 64, pb_free = \<lambda>p. State_Monad.return () \<rparr>
      16 65536 65536) (sim_pb 9 (\<lambda>a. 0)) =
    run_state (is_return_error ''size too large'') (sim_pb 9 (\<lambda>a. 0))"
  by (subst allocation_never_wraps) simp_all

end
