(* ===== verification/Pb_Output.thy ===== *)
theory Pb_Output
  imports Pb_Safety
begin

text \<open>
  The encoder on arbitrary structures. Whatever the memory holds, encoding a message writes only
  behind the bytes its stream has written so far and never past the end of its buffer, and the
  number of bytes is bounded by the descriptor. As in \<open>Pb_Safety\<close>, an operation that keeps to
  this, \<open>outputs\<close>, has a rule for each construct; the recursion is closed by induction on the
  nesting of the message.
\<close>

section \<open>Operations that write at most n bytes\<close>

text \<open>
  A step from \<open>s\<close> to \<open>s'\<close> that writes \<open>w\<close> bytes, at most \<open>n\<close>: on a stream that only measures it
  changes no memory, on a buffer only the \<open>w\<close> bytes at the stream's position, which lie within
  the size of the stream.
\<close>

definition out_step :: "nat \<Rightarrow> pb \<Rightarrow> pb \<Rightarrow> bool" where
  "out_step n s s' \<longleftrightarrow>
     (\<exists>w \<le> n.
        istr s' = istr s \<and> fixed_count_size s' = fixed_count_size s \<and> stuck s' = stuck s \<and>
        os_callback (ostr s') = os_callback (ostr s) \<and> max_size (ostr s') = max_size (ostr s) \<and>
        bytes_written (ostr s') = bytes_written (ostr s) + w \<and>
        (if os_callback (ostr s) = Os_null then os_state (ostr s') = os_state (ostr s) \<and> mem s' = mem s
         else os_state (ostr s') = os_state (ostr s) + w \<and> bytes_written (ostr s') \<le> max_size (ostr s) \<and>
           same_outside (os_state (ostr s)) w (mem s') (mem s)))"

text \<open>The stream is within its size, and counting \<open>n\<close> more bytes does not wrap.\<close>

definition out_room :: "pb_env \<Rightarrow> nat \<Rightarrow> ostream \<Rightarrow> bool" where
  "out_room env n st \<longleftrightarrow> bytes_written st + n < 2 ^ size_bits env \<and>
     (os_callback st = Os_buf_write \<longrightarrow> bytes_written st \<le> max_size st)"

definition outputs :: "pb_env \<Rightarrow> nat \<Rightarrow> (pb, 'a) state \<Rightarrow> bool" where
  "outputs env n m \<longleftrightarrow> (\<forall>s. out_room env n (ostr s) \<longrightarrow> out_step n s (snd (run_state m s)))"

lemma outputsD: "outputs env n m \<Longrightarrow> out_room env n (ostr s) \<Longrightarrow> out_step n s (snd (run_state m s))"
  by (simp add: outputs_def)

lemma outputsI: "(\<And>s. out_room env n (ostr s) \<Longrightarrow> out_step n s (snd (run_state m s))) \<Longrightarrow> outputs env n m"
  by (simp add: outputs_def)

lemma not_null: "c \<noteq> Os_null \<longleftrightarrow> c = Os_buf_write"
  by (cases c) simp_all

lemma same_outside_join:
  "same_outside p v m' m \<Longrightarrow> same_outside (p + v) w m'' m' \<Longrightarrow> same_outside p (v + w) m'' m"
  by (auto simp: same_outside_def)

lemma out_step_refl: "out_room env n (ostr s) \<Longrightarrow> out_step n s s"
  by (auto simp: out_step_def out_room_def same_outside_def not_null intro!: exI [of _ 0])

lemma out_step_trans:
  assumes "out_step a s t" "out_step b t u"
  shows "out_step (a + b) s u"
proof -
  obtain v where v: "v \<le> a" "bytes_written (ostr t) = bytes_written (ostr s) + v"
    and s: "istr t = istr s" "fixed_count_size t = fixed_count_size s" "stuck t = stuck s"
      "os_callback (ostr t) = os_callback (ostr s)" "max_size (ostr t) = max_size (ostr s)"
    and sm: "if os_callback (ostr s) = Os_null then os_state (ostr t) = os_state (ostr s) \<and> mem t = mem s
         else os_state (ostr t) = os_state (ostr s) + v \<and> bytes_written (ostr t) \<le> max_size (ostr s) \<and>
           same_outside (os_state (ostr s)) v (mem t) (mem s)"
    using assms(1) unfolding out_step_def by blast
  obtain w where w: "w \<le> b" "bytes_written (ostr u) = bytes_written (ostr t) + w"
    and t: "istr u = istr t" "fixed_count_size u = fixed_count_size t" "stuck u = stuck t"
      "os_callback (ostr u) = os_callback (ostr t)" "max_size (ostr u) = max_size (ostr t)"
    and tm: "if os_callback (ostr t) = Os_null then os_state (ostr u) = os_state (ostr t) \<and> mem u = mem t
         else os_state (ostr u) = os_state (ostr t) + w \<and> bytes_written (ostr u) \<le> max_size (ostr t) \<and>
           same_outside (os_state (ostr t)) w (mem u) (mem t)"
    using assms(2) unfolding out_step_def by blast
  show ?thesis
    unfolding out_step_def
    by (intro exI [of _ "v + w"]) (use v w s t sm tm in \<open>auto simp: not_null intro: same_outside_join\<close>)
qed

lemma out_step_room: "out_room env (a + b) (ostr s) \<Longrightarrow> out_step a s t \<Longrightarrow> out_room env b (ostr t)"
  by (auto simp: out_room_def out_step_def split: if_splits)

lemma out_step_mono: "out_step a s t \<Longrightarrow> a \<le> b \<Longrightarrow> out_step b s t"
  unfolding out_step_def by (meson order_trans)

lemma outputs_mono: "outputs env a m \<Longrightarrow> a \<le> b \<Longrightarrow> outputs env b m"
  unfolding outputs_def by (meson out_step_mono out_room_def add_left_mono le_less_trans)

lemma outputs_bind:
  assumes "outputs env a m" "\<And>x. outputs env b (f x)"
  shows "outputs env (a + b) (State_Monad.bind m f)"
proof (rule outputsI)
  fix s :: pb assume r: "out_room env (a + b) (ostr s)"
  then have "out_room env a (ostr s)" by (auto simp: out_room_def)
  with assms(1) have t: "out_step a s (snd (run_state m s))" by (rule outputsD)
  show "out_step (a + b) s (snd (run_state (State_Monad.bind m f) s))"
    using out_step_trans [OF t outputsD [OF assms(2) out_step_room [OF r t]]] by simp
qed

lemma outputs_bind0:
  "outputs env 0 m \<Longrightarrow> (\<And>x. outputs env n (f x)) \<Longrightarrow> outputs env n (State_Monad.bind m f)"
  using outputs_bind [of env 0 m n f] by simp

named_theorems outputs_intros

lemma outputs_return [outputs_intros]: "outputs env n (State_Monad.return x)"
  by (simp add: outputs_def out_step_refl)

lemma outputs_gets [outputs_intros]: "outputs env n (gets f)"
  by (simp add: outputs_def out_step_refl)

lemma outputs_error [outputs_intros]: "outputs env n (os_return_error msg)"
  by (auto simp: outputs_def out_step_def out_room_def same_outside_def not_null intro!: exI [of _ 0])

lemma outputs_reads [outputs_intros]:
  "outputs env n (get_u8 a)" "outputs env n (get_u16 a)" "outputs env n (get_ptr e a)"
  "outputs env n (safe_read_bool a)"
  by (simp_all add: outputs_def out_step_refl safe_read_bool_def)

lemma outputs_if [outputs_intros]:
  "(c \<Longrightarrow> outputs env n m) \<Longrightarrow> (\<not> c \<Longrightarrow> outputs env n m') \<Longrightarrow> outputs env n (if c then m else m')"
  by simp

lemma outputs_check:
  "outputs env a m \<Longrightarrow> outputs env b m' \<Longrightarrow> outputs env (a + b) (check m m')"
  unfolding check_def by (intro outputs_bind outputs_intros)

section \<open>Scalars\<close>

lemma outputs_pb_write [outputs_intros]:
  assumes "k \<le> n"
  shows "outputs env n (pb_write env b k)"
proof (rule outputs_mono [OF _ assms], rule outputsI)
  fix s :: pb assume r: "out_room env k (ostr s)"
  then have w: "wrap env (bytes_written (ostr s) + k) = bytes_written (ostr s) + k"
    by (simp add: out_room_def wrap_def)
  have copy: "same_outside p k (buf_copy p b 0 k m) m" for p m
    using buf_copy_outside [of _ p 0 k b m] by (simp add: same_outside_def)
  consider (null) "os_callback (ostr s) = Os_null" | (empty) "k = 0" "os_callback (ostr s) = Os_buf_write"
    | (full) "0 < k" "os_callback (ostr s) = Os_buf_write" "max_size (ostr s) < bytes_written (ostr s) + k"
    | (fits) "0 < k" "os_callback (ostr s) = Os_buf_write" "bytes_written (ostr s) + k \<le> max_size (ostr s)"
    by (cases "os_callback (ostr s)") fastforce+
  then show "out_step k s (snd (run_state (pb_write env b k) s))"
  proof cases
    case null
    then show ?thesis
      by (auto simp: pb_write_def add_written_def w out_step_def intro!: exI [of _ k])
  next
    case empty
    then show ?thesis
      using r w by (auto simp: pb_write_def add_written_def out_step_def out_room_def same_outside_def)
  next
    case full
    then show ?thesis
      using outputsD [OF outputs_error r] w by (simp add: pb_write_def)
  next
    case fits
    then show ?thesis
      by (auto simp: pb_write_def call_os_callback_def buf_write_def add_written_def Let_def w out_step_def copy
        intro!: exI [of _ k])
  qed
qed

lemma varint_32_length: "length (varint_32_bytes low high) \<le> 10"
proof -
  have "unat low < 4294967296" "unat high < 4294967296"
    by (rule order.strict_trans2 [OF unsigned_less]; simp)+
  then have "unat low + 4294967296 * unat high < 1180591620717411303424"
    by linarith
  then show ?thesis
    unfolding varint_32_bytes_leb using length_leb128 [of "unat low + 4294967296 * unat high" 9] by simp
qed

lemma outputs_scalars [outputs_intros]:
  "outputs env 10 (pb_encode_varint env v)" "outputs env 10 (pb_encode_svarint env v)"
  "outputs env 10 (pb_encode_fixed32 env p)" "outputs env 10 (pb_encode_fixed64 env p)"
  "outputs env 10 (pb_encode_tag env w t)" "outputs env 10 (pb_encode_tag_for_field env field)"
proof -
  show v: "outputs env 10 (pb_encode_varint env v)" for v
    unfolding pb_encode_varint_def pb_encode_varint_32_def Let_def
    by (intro outputs_intros varint_32_length) simp
  then show "outputs env 10 (pb_encode_svarint env v)" "\<And>w t. outputs env 10 (pb_encode_tag env w t)"
    by (simp_all add: pb_encode_svarint_def pb_encode_tag_def Let_def)
  then show "outputs env 10 (pb_encode_tag_for_field env field)"
    unfolding pb_encode_tag_for_field_def Let_def by (intro outputs_intros)
  show "outputs env 10 (pb_encode_fixed32 env p)" "outputs env 10 (pb_encode_fixed64 env p)"
    unfolding pb_encode_fixed32_def pb_encode_fixed64_def encode_fixed64_value_def
    by (intro outputs_bind0 outputs_intros; simp)+
qed

section \<open>Fields\<close>

text \<open>A field that the theorem covers: static, without callbacks, its sizes consistent.\<close>

definition field_static :: "field_iter \<Rightarrow> bool" where
  "field_static field \<longleftrightarrow>
     PB_ATYPE (ftype field) = PB_ATYPE_STATIC \<and>
     PB_LTYPE (ftype field) \<noteq> PB_LTYPE_SUBMSG_W_CB \<and> PB_LTYPE (ftype field) \<noteq> PB_LTYPE_EXTENSION \<and>
     (PB_LTYPE (ftype field) = PB_LTYPE_BYTES \<longrightarrow> 2 \<le> unat (data_size field)) \<and>
     (case pSize field of
        Size_null \<Rightarrow> PB_HTYPE (ftype field) = PB_HTYPE_REQUIRED \<or> PB_HTYPE (ftype field) = PB_HTYPE_OPTIONAL
      | Size_at a \<Rightarrow> True
      | Size_self \<Rightarrow> PB_HTYPE (ftype field) = PB_HTYPE_REPEATED
      | Size_fixed \<Rightarrow> False)"

lemma outputs_string:
  "sz \<le> n \<Longrightarrow> outputs env (10 + n) (pb_encode_string env b sz)"
  unfolding pb_encode_string_def by (intro outputs_check outputs_intros)

lemma string_length_le: "string_length m p n \<le> n"
  by (induction n arbitrary: p) simp_all

lemma outputs_values:
  assumes "field_static field" "unat (data_size field) < 2 ^ size_bits env"
  shows "outputs env 10 (pb_enc_bool env field)" "outputs env 10 (pb_enc_varint env field)"
    "outputs env 10 (pb_enc_fixed env field)"
    "PB_LTYPE (ftype field) = PB_LTYPE_BYTES \<Longrightarrow> outputs env (10 + unat (data_size field)) (pb_enc_bytes env field)"
    "outputs env (10 + unat (data_size field)) (pb_enc_string env field)"
    "outputs env (10 + unat (data_size field)) (pb_enc_fixed_length_bytes env field)"
proof -
  have st: "PB_ATYPE (ftype field) = PB_ATYPE_STATIC" "PB_ATYPE_POINTER \<noteq> PB_ATYPE_STATIC"
    using assms(1) by (simp_all add: field_static_def pb_types)
  show "outputs env 10 (pb_enc_bool env field)"
    unfolding pb_enc_bool_def by (intro outputs_bind0 outputs_intros)
  show "outputs env 10 (pb_enc_varint env field)"
    unfolding pb_enc_varint_def Let_def if_distribR
    by (intro outputs_bind0 outputs_intros)
  show "outputs env 10 (pb_enc_fixed env field)"
    unfolding pb_enc_fixed_def by (intro outputs_intros)
  show "outputs env (10 + unat (data_size field)) (pb_enc_bytes env field)"
    if "PB_LTYPE (ftype field) = PB_LTYPE_BYTES"
  proof -
    have two: "2 \<le> unat (data_size field)"
      using that assms(1) by (simp add: field_static_def)
    then have "wrap env (2 ^ size_bits env + unat (data_size field) - pb_bytes_offset) = unat (data_size field) - 2"
      using assms(2) by (simp add: wrap_def pb_bytes_offset_def mod_if)
    then show ?thesis
      unfolding pb_enc_bytes_def using st
      by (intro outputs_bind0 outputs_intros outputs_string) auto
  qed
  show "outputs env (10 + unat (data_size field)) (pb_enc_string env field)"
    unfolding pb_enc_string_def Let_def
    by (intro outputs_bind0 outputs_intros outputs_string)
      (use st in \<open>auto intro: order_trans [OF string_length_le]\<close>)
  show "outputs env (10 + unat (data_size field)) (pb_enc_fixed_length_bytes env field)"
    unfolding pb_enc_fixed_length_bytes_def by (intro outputs_string) simp
qed

text \<open>A run on a sizing stream leaves everything as it was.\<close>

lemma sizing_run:
  assumes "outputs env n m" "n < 2 ^ size_bits env"
  shows "\<exists>r sub. run_state (with_ostream PB_OSTREAM_SIZING m) s = ((r, sub), s) \<and> bytes_written sub \<le> n"
proof -
  let ?s = "s\<lparr>ostr := PB_OSTREAM_SIZING\<rparr>"
  have "out_room env n (ostr ?s)"
    using assms(2) by (simp add: out_room_def PB_OSTREAM_SIZING_def)
  from outputsD [OF assms(1) this] have "out_step n ?s (snd (run_state m ?s))" .
  then show ?thesis
    by (cases "run_state m ?s") (auto simp: with_ostream_def out_step_def PB_OSTREAM_SIZING_def)
qed

lemma if_cases: "P y \<Longrightarrow> P x \<Longrightarrow> P (if c then x else y)"
  by simp

lemma outputs_submessage:
  assumes "outputs env n (enc d q)"
  shows "outputs env (10 + n) (pb_encode_submessage env enc d q)"
proof (rule outputsI)
  fix s :: pb assume r: "out_room env (10 + n) (ostr s)"
  then have n: "n < 2 ^ size_bits env" by (simp add: out_room_def)
  obtain ok sub where sizing: "run_state (with_ostream PB_OSTREAM_SIZING (enc d q)) s = ((ok, sub), s)"
    and sz: "bytes_written sub \<le> n"
    using sizing_run [OF assms n, of s] by blast
  let ?sz = "bytes_written sub" and ?v = "pb_encode_varint env (of_nat (bytes_written sub))"
  let ?t = "snd (run_state ?v s)"
  have t: "out_step 10 s ?t"
    by (rule outputsD [OF outputs_scalars(1)]) (use r in \<open>auto simp: out_room_def\<close>)
  have room: "out_room env n (ostr ?t)" by (rule out_step_room [OF r t])
  have cb: "os_callback (ostr ?t) = os_callback (ostr s)" using t by (auto simp: out_step_def)
  have exact: "wrap env (bytes_written (ostr ?t) + k) = bytes_written (ostr ?t) + k" if "k \<le> n" for k
    using room that by (simp add: out_room_def wrap_def)
  have err: "out_step (10 + n) s (u\<lparr>ostr := (ostr u)\<lparr>os_errmsg := e\<rparr>\<rparr>)" if "out_step (10 + n) s u" for u e
    using that by (auto simp: out_step_def)
  have refl: "out_step (10 + n) s s" by (rule out_step_refl [OF r])
  have t': "out_step (10 + n) s ?t" using t by (rule out_step_mono) simp
  note join = out_step_trans [OF t, of n]
  show "out_step (10 + n) s (snd (run_state (pb_encode_submessage env enc d q) s))"
  proof (cases "ok \<and> fst (run_state ?v s)")
    case False
    then show ?thesis
      using sizing refl t' err by (auto simp: pb_encode_submessage_def Let_def)
  next
    case True
    show ?thesis
    proof (cases "os_callback (ostr ?t) = Os_null")
      case True
      then show ?thesis
        using \<open>ok \<and> _\<close> sizing join [OF outputsD [OF outputs_pb_write [OF sz] room]]
        by (simp add: pb_encode_submessage_def Let_def)
    next
      case False
      show ?thesis
      proof (cases "max_size (ostr ?t) < bytes_written (ostr ?t) + ?sz")
        case True
        then show ?thesis
          using \<open>ok \<and> _\<close> False sizing err [OF t'] by (simp add: pb_encode_submessage_def Let_def exact [OF sz])
      next
        case fits: False
        let ?st = "\<lparr> os_callback = os_callback (ostr ?t), os_state = os_state (ostr ?t), max_size = ?sz,
                bytes_written = 0, os_errmsg = None \<rparr>"
        let ?u = "snd (run_state (enc d q) (?t\<lparr>ostr := ?st\<rparr>))"
        have "out_step n (?t\<lparr>ostr := ?st\<rparr>) ?u"
          by (rule outputsD [OF assms]) (use n in \<open>simp add: out_room_def\<close>)
        then have u: "istr ?u = istr ?t" "fixed_count_size ?u = fixed_count_size ?t" "stuck ?u = stuck ?t"
          "bytes_written (ostr ?u) \<le> ?sz" "os_state (ostr ?u) = os_state (ostr ?t) + bytes_written (ostr ?u)"
          "same_outside (os_state (ostr ?t)) (bytes_written (ostr ?u)) (mem ?u) (mem ?t)"
          using False by (auto simp: out_step_def)
        let ?w = "?u\<lparr>ostr := (ostr ?t)\<lparr>bytes_written := bytes_written (ostr ?t) + bytes_written (ostr ?u),
              os_state := os_state (ostr ?u), os_errmsg := os_errmsg (ostr ?u)\<rparr>\<rparr>"
        have "out_step n ?t ?w"
          unfolding out_step_def
          by (intro exI [of _ "bytes_written (ostr ?u)"]) (use u fits sz False in simp)
        from join [OF this] have w: "out_step (10 + n) s ?w" .
        have "wrap env (bytes_written (ostr ?t) + bytes_written (ostr ?u)) = bytes_written (ostr ?t) + bytes_written (ostr ?u)"
          using u(4) sz by (intro exact) simp
        then have eq: "snd (run_state (pb_encode_submessage env enc d q) s) =
            (if bytes_written (ostr ?u) \<noteq> ?sz then snd (run_state (os_return_error ''submsg size changed'') ?w) else ?w)"
          using \<open>ok \<and> _\<close> False fits sizing
          by (simp add: pb_encode_submessage_def Let_def exact [OF sz] with_ostream_def)
        have "out_step (10 + n) s (snd (run_state (os_return_error ''submsg size changed'') ?w))"
          unfolding run_os_return_error snd_conv by (rule err [OF w])
        with w show ?thesis
          unfolding eq by (rule if_cases)
      qed
    qed
  qed
qed

text \<open>
  One item needs at most \<open>b\<close> bytes: ten for the tag, ten for a length or a value, and the
  data itself or what the encoder \<open>enc\<close> makes of the submessage.
\<close>

definition item_bound :: "pb_env \<Rightarrow> (msgdesc \<Rightarrow> nat \<Rightarrow> (pb, bool) state) \<Rightarrow> nat \<Rightarrow> field_iter \<Rightarrow> bool" where
  "item_bound env enc b field \<longleftrightarrow>
     field_static field \<and> unat (data_size field) < 2 ^ size_bits env \<and> 20 + unat (data_size field) \<le> b \<and>
     (PB_LTYPE (ftype field) = PB_LTYPE_SUBMESSAGE \<longrightarrow>
       (\<exists>d n. submsg_desc field = Some d \<and> 20 + n \<le> b \<and> (\<forall>q. q \<noteq> 0 \<longrightarrow> outputs env n (enc d q))))"

lemma outputs_basic:
  assumes "item_bound env enc b field"
  shows "outputs env b (encode_basic_field env enc field)"
proof -
  have st: "field_static field" and sz: "unat (data_size field) < 2 ^ size_bits env"
    and b: "20 + unat (data_size field) \<le> b"
    using assms by (simp_all add: item_bound_def)
  note v = outputs_values [OF st sz, THEN outputs_mono]
  have sub: "outputs env (b - 10) (pb_enc_submessage env enc field)"
    if lt: "PB_LTYPE (ftype field) = PB_LTYPE_SUBMESSAGE" and q: "pData field \<noteq> 0"
  proof -
    obtain d n where d: "submsg_desc field = Some d" and n: "20 + n \<le> b" and e: "outputs env n (enc d (pData field))"
      using assms lt q by (auto simp: item_bound_def)
    have "pb_enc_submessage env enc field = check (State_Monad.return True) (pb_encode_submessage env enc d (pData field))"
      using lt d by (simp add: pb_enc_submessage_def pb_types)
    then show ?thesis
      using outputs_check [OF outputs_return outputs_submessage [of env n enc d, OF e], of 0 True] n
      by (auto intro: outputs_mono)
  qed
  have w_cb: "PB_LTYPE (ftype field) \<noteq> PB_LTYPE_SUBMSG_W_CB" using st by (simp add: field_static_def)
  have "outputs env (10 + (b - 10)) (encode_basic_field env enc field)"
    unfolding encode_basic_field_def Let_def
    by (intro outputs_intros outputs_check v; use b w_cb sub in auto)
  moreover have "10 + (b - 10) = b" using b by simp
  ultimately show ?thesis by (simp only:)
qed

lemma item_bound_data: "item_bound env enc b (field\<lparr>pData := a\<rparr>) = item_bound env enc b field"
  by (simp add: item_bound_def field_static_def split: size_ptr.split)

lemma outputs_items:
  assumes "\<And>a. outputs env b (f (field\<lparr>pData := a\<rparr>))"
  shows "outputs env (k * b) (for_items k f field)"
  using assms
proof (induction k arbitrary: field)
  case (Suc k)
  have "outputs env (k * b) (for_items k f (next_item field))"
    by (rule Suc.IH) (use Suc.prems in \<open>simp add: next_item_def\<close>)
  moreover have "outputs env b (f field)" using Suc.prems [of "pData field"] by simp
  ultimately show ?case using outputs_check [of env b "f field" "k * b"] by simp
qed (simp add: outputs_return)

lemma outputs_get_size:
  "pSize field \<noteq> Size_null \<Longrightarrow> outputs env 0 (get_size field)"
  by (cases "pSize field") (simp_all add: get_size_def outputs_intros)

lemma outputs_unpacked_item:
  assumes "item_bound env enc b field"
  shows "outputs env b (encode_unpacked_item env enc field)"
  using outputs_basic [OF assms] assms by (simp add: encode_unpacked_item_def item_bound_def field_static_def pb_types)

lemma outputs_packed_array:
  assumes "item_bound env enc b field" "20 + count * 10 < 2 ^ size_bits env"
  shows "outputs env (20 + count * 10) (encode_packed_array env count field)"
proof -
  have v: "field_static (field\<lparr>pData := a\<rparr>)" "unat (data_size (field\<lparr>pData := a\<rparr>)) < 2 ^ size_bits env" for a
    using assms(1) item_bound_data [of env enc b a field] by (simp_all add: item_bound_def)
  have items: "outputs env (count * 10) (for_items count (pb_enc_varint env) field)"
    "outputs env (count * 10) (for_items count (pb_enc_fixed env) field)"
    by (intro outputs_items outputs_values v)+
  have small: "count * 10 < 2 ^ size_bits env" "4 * count < 2 ^ size_bits env" "8 * count < 2 ^ size_bits env"
    using assms(2) by auto
  let ?lt = "PB_LTYPE (ftype field)"
  define sizing where "sizing = (if ?lt = PB_LTYPE_FIXED32 then
            State_Monad.return (True, PB_OSTREAM_SIZING\<lparr>bytes_written := wrap env (4 * count)\<rparr>)
          else if ?lt = PB_LTYPE_FIXED64 then
            State_Monad.return (True, PB_OSTREAM_SIZING\<lparr>bytes_written := wrap env (8 * count)\<rparr>)
          else with_ostream PB_OSTREAM_SIZING (for_items count (pb_enc_varint env) field))"
  define rest where "rest = (\<lambda>(ok, sizing). if \<not> ok then os_return_error (PB_GET_ERROR sizing)
       else
         (let sz = bytes_written sizing in
          check (pb_encode_varint env (of_nat sz)) (do {
            st \<leftarrow> gets ostr;
            if os_callback st = Os_null then pb_write env (Buf_at 0) sz
            else if ?lt = PB_LTYPE_FIXED32 \<or> ?lt = PB_LTYPE_FIXED64
            then for_items count (pb_enc_fixed env) field
            else for_items count (pb_enc_varint env) field
          })))"
  have s: "\<exists>ok sub. run_state sizing s = ((ok, sub), s) \<and> bytes_written sub \<le> count * 10" for s
    using sizing_run [OF items(1) small(1), of s] small by (auto simp: sizing_def wrap_def)
  have r: "outputs env (10 + count * 10) (rest (ok, sub))" if "bytes_written sub \<le> count * 10" for ok sub
    unfolding rest_def prod.case Let_def
    by (intro outputs_intros outputs_check outputs_bind0 items that)
  have "outputs env (10 + count * 10) (State_Monad.bind sizing rest)"
  proof (rule outputsI)
    fix st :: pb assume room: "out_room env (10 + count * 10) (ostr st)"
    obtain ok sub where "run_state sizing st = ((ok, sub), st)" "bytes_written sub \<le> count * 10"
      using s by blast
    then show "out_step (10 + count * 10) st (snd (run_state (State_Monad.bind sizing rest) st))"
      using outputsD [OF r room] by simp
  qed
  then have "outputs env (10 + (10 + count * 10)) (check (pb_encode_tag env PB_WT_STRING (ucast (tag field)))
      (State_Monad.bind sizing rest))"
    by (intro outputs_check outputs_intros)
  then show ?thesis
    by (simp add: encode_packed_array_def sizing_def rest_def Let_def)
qed

text \<open>What a field needs in all: an array once more than it has items.\<close>

definition field_total :: "nat \<Rightarrow> field_iter \<Rightarrow> nat" where
  "field_total b field =
     (if PB_HTYPE (ftype field) = PB_HTYPE_REPEATED then (1 + unat (array_size field)) * b else b)"

lemma outputs_array:
  assumes "item_bound env enc b field" "PB_HTYPE (ftype field) = PB_HTYPE_REPEATED"
    and "field_total b field < 2 ^ size_bits env"
  shows "outputs env (field_total b field) (encode_array env enc field)"
proof -
  have total: "field_total b field = (1 + unat (array_size field)) * b" and b: "20 \<le> b"
    using assms(1,2) by (simp_all add: field_total_def item_bound_def)
  have le: "unat n * b \<le> field_total b field" "20 + unat n * 10 \<le> field_total b field"
    if "\<not> array_size field < n" for n
  proof -
    have n: "unat n \<le> unat (array_size field)" using that by (simp add: word_le_nat_alt not_less)
    then have m: "unat n * b \<le> unat (array_size field) * b" by (rule mult_le_mono1)
    then show "unat n * b \<le> field_total b field"
      unfolding total add_mult_distrib by (rule trans_le_add2)
    have "unat n * 10 \<le> unat n * b" using b by (intro mult_le_mono2) simp
    with m have "unat n * 10 \<le> unat (array_size field) * b" by (rule order_trans [rotated])
    with b show "20 + unat n * 10 \<le> field_total b field"
      unfolding total add_mult_distrib nat_mult_1 by (rule add_le_mono)
  qed
  have null: "pSize field \<noteq> Size_null"
    using assms(1,2) by (auto simp: item_bound_def field_static_def pb_types)
  have st: "PB_ATYPE (ftype field) \<noteq> PB_ATYPE_POINTER"
    using assms(1) by (simp add: item_bound_def field_static_def pb_types)
  have packed: "outputs env (field_total b field) (encode_packed_array env (unat n) field)"
    if "\<not> array_size field < n" for n
    using le(2) [OF that] assms(3) by (intro outputs_mono [OF outputs_packed_array [OF assms(1)]]) simp_all
  have unpacked: "outputs env (field_total b field) (for_items (unat n) (encode_unpacked_item env enc) field)"
    if "\<not> array_size field < n" for n
    using assms(1) le(1) [OF that]
    by (intro outputs_mono [OF outputs_items] outputs_unpacked_item) (simp_all add: item_bound_data)
  show ?thesis
    unfolding encode_array_def
    by (intro outputs_bind0 outputs_get_size null outputs_intros packed unpacked) (use st in simp_all)
qed

lemma outputs_field_absent:
  assumes "field_static field" "outputs env 0 (dflt field)"
  shows "outputs env 0 (field_absent env dflt field)"
proof -
  have null: "PB_HTYPE (ftype field) = PB_HTYPE_ONEOF \<Longrightarrow> pSize field \<noteq> Size_null"
    using assms(1) by (auto simp: field_static_def pb_types)
  have opt: "outputs env 0 (case pSize field of
              Size_at a \<Rightarrow> do { b \<leftarrow> safe_read_bool a; State_Monad.return (\<not> b) } | _ \<Rightarrow> get_stuck)"
    if "PB_HTYPE (ftype field) = PB_HTYPE_OPTIONAL" "pSize field \<noteq> Size_null"
    using assms(1) that
    by (cases "pSize field") (auto simp: field_static_def pb_types intro!: outputs_bind0 outputs_intros)
  show ?thesis
    unfolding field_absent_def
    by (intro outputs_intros outputs_bind0 outputs_get_size opt assms(2)) (use null in simp_all)
qed

lemma outputs_encode_field:
  assumes "item_bound env enc b field" "outputs env 0 (dflt field)"
    and "field_total b field < 2 ^ size_bits env"
  shows "outputs env (field_total b field) (encode_field env dflt enc field)"
proof -
  have st: "field_static field" using assms(1) by (simp add: item_bound_def)
  then have cb: "PB_ATYPE (ftype field) \<noteq> PB_ATYPE_CALLBACK" by (simp add: field_static_def pb_types)
  have basic: "outputs env (field_total b field) (encode_basic_field env enc field)"
    using outputs_basic [OF assms(1)] by (rule outputs_mono) (simp add: field_total_def)
  show ?thesis
    unfolding encode_field_def
    by (intro outputs_bind0 outputs_field_absent st assms(2) outputs_intros outputs_array assms(1,3) basic)
      (use cb in simp_all)
qed

section \<open>Messages\<close>

text \<open>The loop over the fields: the bounds of its fields add up.\<close>

lemma outputs_for_fields:
  assumes "valid_fields fs" "p \<noteq> 0"
    and "\<And>i. i < length fs \<Longrightarrow> outputs env (n i) (f (field_of fs 0 No_callback p i))"
  shows "i + k = length fs \<Longrightarrow> k \<noteq> 0 \<Longrightarrow>
     outputs env (sum_list (map n [i..<length fs])) (for_fields env k f (field_of fs 0 No_callback p i))"
proof (induction k arbitrary: i)
  case (Suc k)
  let ?rest = "do {
       m \<leftarrow> gets mem;
       let (more, it') = pb_field_iter_next env m (field_of fs 0 No_callback p i) in
       if more then for_fields env k f it' else State_Monad.return True
     }"
  have i: "i < length fs" using Suc.prems by simp
  have "outputs env (sum_list (map n [Suc i..<length fs])) ?rest"
  proof (cases "Suc i < length fs")
    case True
    then show ?thesis
      using Suc.IH [of "Suc i"] Suc.prems
      by (intro outputs_bind0 outputs_gets) (simp add: next_field [OF assms(1) i assms(2)])
  next
    case False
    then show ?thesis
      by (intro outputs_bind0 outputs_gets) (simp add: next_field [OF assms(1) i assms(2)] outputs_return)
  qed
  from outputs_check [OF assms(3) [OF i] this] show ?case
    using i by (simp add: upt_conv_Cons)
qed simp

text \<open>
  A field, and a message of such fields nested at most \<open>k\<close> deep, whose encodings are bounded:
  \<open>b s\<close> bounds an item of the field \<open>s\<close>, and \<open>n\<close> the message.
\<close>

definition spec_static :: "field_spec \<Rightarrow> bool" where
  "spec_static s \<longleftrightarrow>
     fs_atype s = A_STATIC \<and> fs_ltype s \<noteq> T_MSG_W_CB \<and> fs_ltype s \<noteq> T_EXTENSION \<and>
     (fs_ltype s = T_BYTES \<longrightarrow> 2 \<le> unat (fs_data_size s)) \<and>
     (fs_htype s = H_ONEOF \<longrightarrow> fs_size_offset s \<noteq> 0)"

definition spec_total :: "nat \<Rightarrow> field_spec \<Rightarrow> nat" where
  "spec_total b s =
     (if fs_htype s = H_REPEATED \<or> fs_htype s = H_FIXARRAY then (1 + unat (fs_array_size s)) * b else b)"

inductive message_bounded :: "nat \<Rightarrow> field_spec list \<Rightarrow> nat \<Rightarrow> bool" where
  no_fields: "message_bounded k [] n"
| fields: "plain_fields fs \<Longrightarrow> fs \<noteq> [] \<Longrightarrow>
     \<forall>s \<in> set fs. spec_static s \<and> 20 + unat (fs_data_size s) \<le> b s \<and>
       (\<forall>d. fs_submsg s = Some d \<longrightarrow>
         (\<exists>gs m. d = PB_BIND gs 0 No_callback \<and> message_bounded k gs m \<and> 20 + m \<le> b s)) \<Longrightarrow>
     sum_list (map (\<lambda>s. spec_total (b s) s) fs) \<le> n \<Longrightarrow>
     message_bounded (Suc k) fs n"


lemma unat_ucast_le: "unat (ucast (x :: uint32) :: uint16) \<le> unat x"
  by (simp add: unsigned_ucast_eq take_bit_nat_less_eq_self)

lemma field_total_spec:
  assumes "fs_atype (fs ! i) = A_STATIC"
  shows "field_total b (field_of fs dv cb p i) \<le> spec_total b (fs ! i)"
proof -
  let ?s = "fs ! i" and ?f = "field_of fs dv cb p i"
  have rep: "PB_HTYPE (ftype ?f) = PB_HTYPE_REPEATED \<longleftrightarrow> fs_htype ?s = H_REPEATED \<or> fs_htype ?s = H_FIXARRAY"
    by (cases "fs_htype ?s") (simp_all add: field_of_members type_code_parts htype_code_def pb_types)
  have "array_size ?f = ucast (fs_array_size ?s)" if "fs_htype ?s = H_REPEATED \<or> fs_htype ?s = H_FIXARRAY"
    using that assms by (auto simp: field_of_def Let_def field_width_def PB_FIELDINFO_WIDTH_AUTO_def)
  with rep unat_ucast_le [of "fs_array_size ?s"] show ?thesis
    by (auto simp: field_total_def spec_total_def)
qed

lemma field_of_static:
  assumes "spec_static (fs ! i)" "unat (ucast (fs_data_size (fs ! i)) :: uint16) = unat (fs_data_size (fs ! i))"
  shows "field_static (field_of fs dv cb p i)"
proof -
  let ?s = "fs ! i"
  have "PB_LTYPE_MAP (fs_ltype ?s) \<noteq> PB_LTYPE_SUBMSG_W_CB" "PB_LTYPE_MAP (fs_ltype ?s) \<noteq> PB_LTYPE_EXTENSION"
    "PB_LTYPE_MAP (fs_ltype ?s) = PB_LTYPE_BYTES \<longleftrightarrow> fs_ltype ?s = T_BYTES"
    using assms(1) by (cases "fs_ltype ?s"; simp add: spec_static_def PB_LTYPE_MAP_def pb_types)+
  then show ?thesis
    using assms by (cases "fs_htype ?s")
      (simp_all add: field_static_def field_of_def Let_def type_code_parts spec_static_def atype_code_def
        htype_code_def pb_types)
qed

text \<open>What is needed of the encoder and of the check for default values, at depth \<open>k\<close>.\<close>

definition good_enc :: "pb_env \<Rightarrow> nat \<Rightarrow> (msgdesc \<Rightarrow> nat \<Rightarrow> (pb, bool) state) \<Rightarrow> bool" where
  "good_enc env k enc \<longleftrightarrow>
     (\<forall>fs n q. message_bounded k fs n \<longrightarrow> n < 2 ^ size_bits env \<longrightarrow> q \<noteq> 0 \<longrightarrow>
       outputs env n (enc (PB_BIND fs 0 No_callback) q))"

definition good_dflt :: "pb_env \<Rightarrow> nat \<Rightarrow> (field_iter \<Rightarrow> (pb, bool) state) \<Rightarrow> bool" where
  "good_dflt env k dflt \<longleftrightarrow>
     (\<forall>fs n q i. message_bounded k fs n \<longrightarrow> i < length fs \<longrightarrow> q \<noteq> 0 \<longrightarrow>
       outputs env 0 (dflt (field_of fs 0 No_callback q i)))"

lemma message_boundedE:
  assumes "message_bounded k fs n" "fs \<noteq> []"
  obtains j b where "k = Suc j" "plain_fields fs" "sum_list (map (\<lambda>s. spec_total (b s) s) fs) \<le> n"
    "\<And>s. s \<in> set fs \<Longrightarrow> spec_static s \<and> 20 + unat (fs_data_size s) \<le> b s"
    "\<And>s d. s \<in> set fs \<Longrightarrow> fs_submsg s = Some d \<Longrightarrow>
       \<exists>gs m. d = PB_BIND gs 0 No_callback \<and> message_bounded j gs m \<and> 20 + m \<le> b s"
  using assms(1)
proof (cases rule: message_bounded.cases)
  case (fields j b)
  show ?thesis
    by (rule that [OF fields(1,2,5)]) (use fields(4) in blast)+
qed (use assms(2) in simp)

lemma message_bounded_parts:
  "message_bounded k fs n \<Longrightarrow> fs \<noteq> [] \<Longrightarrow>
     \<exists>j. k = Suc j \<and> plain_fields fs \<and> (\<forall>s \<in> set fs. spec_static s \<and> (\<forall>d. fs_submsg s = Some d \<longrightarrow>
       (\<exists>gs m. d = PB_BIND gs 0 No_callback \<and> message_bounded j gs m)))"
  by (erule (1) message_boundedE) blast

lemma spec_total_ge: "b \<le> spec_total b s"
  by (simp add: spec_total_def)

lemma bounded_item:
  assumes "message_bounded (Suc k) fs n" "n < 2 ^ size_bits env" "good_enc env k enc"
  obtains b where "\<And>i. i < length fs \<Longrightarrow> item_bound env enc (b i) (field_of fs 0 No_callback q i) \<and>
      field_total (b i) (field_of fs 0 No_callback q i) < 2 ^ size_bits env"
    "sum_list (map (\<lambda>i. field_total (b i) (field_of fs 0 No_callback q i)) [0..<length fs]) \<le> n"
proof (cases "fs = []")
  case True
  with that show ?thesis by simp
next
  case False
  obtain b where pl: "plain_fields fs" and sum: "sum_list (map (\<lambda>s. spec_total (b s) s) fs) \<le> n"
    and st: "\<And>s. s \<in> set fs \<Longrightarrow> spec_static s \<and> 20 + unat (fs_data_size s) \<le> b s"
    and sub: "\<And>s d. s \<in> set fs \<Longrightarrow> fs_submsg s = Some d \<Longrightarrow>
       \<exists>gs m. d = PB_BIND gs 0 No_callback \<and> message_bounded k gs m \<and> 20 + m \<le> b s"
    using assms(1) False by (elim message_boundedE) auto
  have one: "spec_total (b s) s \<le> n" if "s \<in> set fs" for s
    using member_le_sum_list [of "spec_total (b s) s" "map (\<lambda>s. spec_total (b s) s) fs"] that sum by auto
  have item: "item_bound env enc (b (fs ! i)) (field_of fs 0 No_callback q i)" if i: "i < length fs" for i
  proof -
    let ?s = "fs ! i"
    have s: "?s \<in> set fs" "spec_static ?s" "20 + unat (fs_data_size ?s) \<le> b ?s" using i st by simp_all
    have small: "b ?s < 2 ^ size_bits env"
      using one [OF s(1)] spec_total_ge [of "b ?s" ?s] assms(2) by simp
    have sz: "unat (ucast (fs_data_size ?s) :: uint16) = unat (fs_data_size ?s)"
      using spec_data_size [OF _ i] pl by (simp add: plain_fields_def)
    have "fs_submsg ?s \<noteq> None" if "PB_LTYPE (ftype (field_of fs 0 No_callback q i)) = PB_LTYPE_SUBMESSAGE"
    proof -
      have "fs_ltype ?s = T_MESSAGE"
        using that by (cases "fs_ltype ?s") (simp_all add: field_of_members type_code_parts PB_LTYPE_MAP_def pb_types)
      then show ?thesis
        using pl i by (auto simp: plain_fields_def valid_fields_def list_all_length)
    qed
    moreover have "\<exists>n. 20 + n \<le> b ?s \<and> (\<forall>q. q \<noteq> 0 \<longrightarrow> outputs env n (enc d q))" if d: "fs_submsg ?s = Some d" for d
    proof -
      obtain gs m where "d = PB_BIND gs 0 No_callback" "message_bounded k gs m" "20 + m \<le> b ?s"
        using sub [OF s(1) d] by blast
      then show ?thesis
        using assms(3) small unfolding good_enc_def by (intro exI [of _ m]) auto
    qed
    moreover have "unat (data_size (field_of fs 0 No_callback q i)) = unat (fs_data_size ?s)"
      using sz by (simp add: field_of_def Let_def)
    ultimately show ?thesis
      unfolding item_bound_def field_of_data
      using field_of_static [OF s(2) sz, of 0 No_callback q] s(3) small by fastforce
  qed
  have total: "field_total (b (fs ! i)) (field_of fs 0 No_callback q i) \<le> spec_total (b (fs ! i)) (fs ! i)"
    if "i < length fs" for i
    by (rule field_total_spec) (use st [of "fs ! i"] that in \<open>simp add: spec_static_def\<close>)
  have "sum_list (map (\<lambda>i. field_total (b (fs ! i)) (field_of fs 0 No_callback q i)) [0..<length fs]) \<le>
      sum_list (map (\<lambda>i. spec_total (b (fs ! i)) (fs ! i)) [0..<length fs])"
    by (rule sum_list_mono) (use total in simp)
  also have "map (\<lambda>i. spec_total (b (fs ! i)) (fs ! i)) [0..<length fs] = map (\<lambda>s. spec_total (b s) s) fs"
    by (rule nth_equalityI) simp_all
  also note sum
  finally have sum': "sum_list (map (\<lambda>i. field_total (b (fs ! i)) (field_of fs 0 No_callback q i)) [0..<length fs]) \<le> n" .
  have "field_total (b (fs ! i)) (field_of fs 0 No_callback q i) < 2 ^ size_bits env" if "i < length fs" for i
    using total [OF that] one [of "fs ! i"] that assms(2) by simp
  with item sum' that [of "\<lambda>i. b (fs ! i)"] show ?thesis by blast
qed

lemma begin_any:
  assumes "fs = [] \<or> plain_fields fs" "p \<noteq> 0"
  shows "pb_field_iter_begin env m (PB_BIND fs 0 No_callback) p =
    (fs \<noteq> [], if fs = [] then iter_zero (PB_BIND [] 0 No_callback) p else field_of fs 0 No_callback p 0)"
  using assms begin_field [of fs p env m 0 No_callback] by (auto simp: begin_empty plain_fields_def)

lemma field_count_bind: "plain_fields fs \<Longrightarrow> unat (field_count (PB_BIND fs 0 No_callback)) = length fs"
  using valid_index(1) [of fs "length fs"] by (simp add: desc_BIND plain_fields_def)

lemma message_bounded_plain: "message_bounded k fs n \<Longrightarrow> fs = [] \<or> plain_fields fs"
  by (erule message_bounded.cases) auto

text \<open>All fields of a message, one after the other.\<close>

lemma outputs_fields:
  assumes "fs = [] \<or> plain_fields fs" "p \<noteq> 0"
    and "\<And>i. i < length fs \<Longrightarrow> outputs env (n i) (f (field_of fs 0 No_callback p i))"
    and "sum_list (map n [0..<length fs]) \<le> N"
  shows "outputs env N (let (ok, iter) = pb_field_iter_begin env m (PB_BIND fs 0 No_callback) p in
     if ok then for_fields env (unat (field_count (PB_BIND fs 0 No_callback))) f iter
     else State_Monad.return True)"
proof (cases "fs = []")
  case True
  then show ?thesis by (simp add: begin_empty outputs_return)
next
  case False
  then have pl: "plain_fields fs" and v: "valid_fields fs" using assms(1) by (auto simp: plain_fields_def)
  have "outputs env (sum_list (map n [0..<length fs])) (for_fields env (length fs) f (field_of fs 0 No_callback p 0))"
    by (rule outputs_for_fields [OF v assms(2)]) (use assms(3) False in simp_all)
  then show ?thesis
    using False assms(4) by (simp add: begin_any [OF assms(1,2)] field_count_bind [OF pl] outputs_mono)
qed

lemma good_dflt_step:
  assumes "\<And>j. j < k \<Longrightarrow> good_dflt env j rec"
  shows "good_dflt env k (proto3_default_body env rec)"
  unfolding good_dflt_def
proof (intro allI impI)
  fix fs n and q i :: nat
  assume m: "message_bounded k fs n" and i: "i < length fs" and q: "q \<noteq> 0"
  let ?s = "fs ! i" and ?f = "field_of fs 0 No_callback q i"
  from i have "fs \<noteq> []" by auto
  with message_bounded_parts [OF m] obtain j where k: "k = Suc j" and pl: "plain_fields fs"
    and all: "\<forall>s \<in> set fs. spec_static s \<and> (\<forall>d. fs_submsg s = Some d \<longrightarrow>
       (\<exists>gs m. d = PB_BIND gs 0 No_callback \<and> message_bounded j gs m))"
    by blast
  then have st: "spec_static ?s" and sub: "\<And>d. fs_submsg ?s = Some d \<Longrightarrow>
       \<exists>gs m. d = PB_BIND gs 0 No_callback \<and> message_bounded j gs m"
    using i nth_mem by blast+
  have f: "field_static ?f"
    using st spec_data_size [OF _ i] pl by (intro field_of_static) (simp_all add: plain_fields_def)
  have null: "PB_HTYPE (ftype ?f) = PB_HTYPE_REPEATED \<or> PB_HTYPE (ftype ?f) = PB_HTYPE_ONEOF \<Longrightarrow> pSize ?f \<noteq> Size_null"
    using f by (auto simp: field_static_def pb_types)
  have opt: "outputs env 0 (case pSize ?f of
             Size_at a \<Rightarrow> do { b \<leftarrow> safe_read_bool a; State_Monad.return (\<not> b) } | _ \<Rightarrow> get_stuck)"
    if "PB_HTYPE (ftype ?f) = PB_HTYPE_OPTIONAL" "pSize ?f \<noteq> Size_null"
    using f that by (cases "pSize ?f") (auto simp: field_static_def pb_types intro!: outputs_bind0 outputs_intros)
  have msg: "outputs env 0 (case submsg_desc ?f of None \<Rightarrow> get_stuck
      | Some d \<Rightarrow> let (ok, it) = pb_field_iter_begin env mem' d (pData ?f)
          in if ok then for_fields env (unat (field_count d)) rec it else State_Monad.return True)"
    if "PB_LTYPE_IS_SUBMSG (ftype ?f)" for mem'
  proof -
    have "fs_submsg ?s \<noteq> None"
      using that pl i by (auto simp: is_submsg_code field_of_members is_submsg_def plain_fields_def valid_fields_def list_all_length)
    then obtain d gs n' where d: "fs_submsg ?s = Some d" "d = PB_BIND gs 0 No_callback" "message_bounded j gs n'"
      using sub by blast
    have "outputs env 0 (rec (field_of gs 0 No_callback (q + unat (fs_data_offset ?s)) i'))" if "i' < length gs" for i'
      using assms [of j] d(3) q that k by (auto simp: good_dflt_def)
    then show ?thesis
      using outputs_fields [OF message_bounded_plain [OF d(3)], where n = "\<lambda>i. 0" and N = 0 and f = rec] q d(1,2)
      by (simp add: field_of_data)
  qed
  show "outputs env 0 (proto3_default_body env rec ?f)"
    unfolding proto3_default_body_def Let_def [where s = "ftype ?f"]
    by (intro outputs_bind0 [OF outputs_gets] outputs_intros outputs_bind0 outputs_get_size opt msg)
      (use null f in \<open>auto simp: field_static_def pb_types\<close>)
qed

lemma if_not: "(if \<not> c then x else y) = (if c then y else x)"
  by simp

lemma encode_step:
  assumes "\<And>j. j < k \<Longrightarrow> good_enc env j enc" "good_dflt env k (pb_check_proto3_default_value env n)"
  shows "good_enc env k (pb_encode_body env n enc)"
  unfolding good_enc_def
proof (intro allI impI)
  fix fs N and q :: nat
  assume m: "message_bounded k fs N" and N: "N < 2 ^ size_bits env" and q: "q \<noteq> 0"
  let ?f = "\<lambda>it. if PB_LTYPE (ftype it) = PB_LTYPE_EXTENSION
       then encode_extension_field env n (pb_check_proto3_default_value env n) enc it
       else encode_field env (pb_check_proto3_default_value env n) enc it"
  obtain t where t: "\<And>i. i < length fs \<Longrightarrow> outputs env (t i) (?f (field_of fs 0 No_callback q i))"
    "sum_list (map t [0..<length fs]) \<le> N"
  proof (cases "fs = []")
    case True
    with that show ?thesis by simp
  next
    case False
    obtain j where k: "k = Suc j" using m False by (elim message_boundedE) auto
    have "good_enc env j enc" using assms(1) k by simp
    from bounded_item [OF m [unfolded k] N this, of q] obtain b
      where b: "\<And>i. i < length fs \<Longrightarrow> item_bound env enc (b i) (field_of fs 0 No_callback q i) \<and>
          field_total (b i) (field_of fs 0 No_callback q i) < 2 ^ size_bits env"
        "sum_list (map (\<lambda>i. field_total (b i) (field_of fs 0 No_callback q i)) [0..<length fs]) \<le> N"
      by blast
    have "outputs env (field_total (b i) (field_of fs 0 No_callback q i)) (?f (field_of fs 0 No_callback q i))"
      if i: "i < length fs" for i
    proof -
      have "outputs env 0 (pb_check_proto3_default_value env n (field_of fs 0 No_callback q i))"
        using assms(2) m i q unfolding good_dflt_def by blast
      from outputs_encode_field [of env enc "b i" _ "pb_check_proto3_default_value env n", OF _ this] b(1) [OF i]
      have "outputs env (field_total (b i) (field_of fs 0 No_callback q i))
          (encode_field env (pb_check_proto3_default_value env n) enc (field_of fs 0 No_callback q i))" by blast
      moreover have "PB_LTYPE (ftype (field_of fs 0 No_callback q i)) \<noteq> PB_LTYPE_EXTENSION"
        using b(1) [OF i] by (simp add: item_bound_def field_static_def)
      ultimately show ?thesis by (simp only: if_False)
    qed
    then show ?thesis by (rule that) (use b(2) in simp_all)
  qed
  have "outputs env N (let (ok, iter) = pb_field_iter_begin env mem' (PB_BIND fs 0 No_callback) q in
     if ok then for_fields env (unat (field_count (PB_BIND fs 0 No_callback))) ?f iter
     else State_Monad.return True)" for mem'
    by (rule outputs_fields [OF message_bounded_plain [OF m] q t])
  then show "outputs env N (pb_encode_body env n enc (PB_BIND fs 0 No_callback) q)"
    unfolding pb_encode_body_def pb_field_iter_begin_const_def if_not
    by (intro outputs_bind0 [OF outputs_gets])
qed

text \<open>The fuel of the two functions bounds the nesting of the messages they handle.\<close>

lemma encoder_good:
  "(\<forall>k < n. good_enc env k (pb_encode env n)) \<and>
   (\<forall>k \<le> n. good_dflt env k (pb_check_proto3_default_value env n))"
proof (induction n)
  case 0
  show ?case by (auto simp: good_dflt_def elim: message_bounded.cases)
next
  case (Suc n)
  have "good_enc env k (pb_encode env (Suc n))" if "k < Suc n" for k
    unfolding pb_encode.simps by (rule encode_step) (use Suc that in auto)
  moreover have "good_dflt env k (pb_check_proto3_default_value env (Suc n))" if "k \<le> Suc n" for k
    unfolding pb_check_proto3_default_value.simps by (rule good_dflt_step) (use Suc that in auto)
  ultimately show ?case by blast
qed

section \<open>The encoder\<close>

lemma outputs_encode:
  assumes "message_bounded k fs n" "k < fuel" "n < 2 ^ size_bits env" "src \<noteq> 0"
  shows "outputs env (n + 10) (pb_encode_ex env fuel (PB_BIND fs 0 No_callback) src flags)"
proof -
  have e: "outputs env n (pb_encode env fuel (PB_BIND fs 0 No_callback) src)"
    using encoder_good [of fuel env] assms unfolding good_enc_def by blast
  have "outputs env (n + 10) (pb_encode_submessage env (pb_encode env fuel) (PB_BIND fs 0 No_callback) src)"
    using outputs_submessage [of env n "pb_encode env fuel", OF e] by (simp add: add.commute)
  moreover have "outputs env (n + 10) (check (pb_encode env fuel (PB_BIND fs 0 No_callback) src)
      (pb_write env (Buf_local [0]) 1))"
    by (intro outputs_check e outputs_intros) simp
  ultimately show ?thesis
    using outputs_mono [OF e, of "n + 10"] by (simp add: pb_encode_ex_def)
qed

text \<open>C21: Memory safety of the encoder on any structure. Whatever the memory holds at the structure and
  at the buffer, even if they overlap, and whatever the flags, encoding a message of static
  fields (arrays, strings, bytes and submessages included) to a buffer of \<open>len\<close> bytes changes
  only the bytes it reports as written, which are at most \<open>len\<close> and at most what the descriptor
  allows, \<open>n\<close> and ten more for a length or a terminator; and the encoder ends and follows no null
  pointer. The bound must fit a \<open>size_t\<close>: only this keeps the sum in \<open>pb_encode_submessage\<close>, which
  is compared with the size of the buffer, from wrapping.\<close>

theorem encoder_memory_safe:
  assumes "message_bounded k fs n" "k < fuel" "n + 10 < 2 ^ size_bits env" "src \<noteq> 0"
    and "os_callback (ostr s) = Os_buf_write" "os_state (ostr s) = buf" "max_size (ostr s) = len"
      "bytes_written (ostr s) = 0"
    and "run_state (pb_encode_ex env fuel (PB_BIND fs 0 No_callback) src flags) s = (ok, s')"
  shows "bytes_written (ostr s') \<le> len \<and> bytes_written (ostr s') \<le> n + 10 \<and>
    same_outside buf (bytes_written (ostr s')) (mem s') (mem s) \<and> (stuck s' \<longleftrightarrow> stuck s)"
proof -
  have "out_room env (n + 10) (ostr s)"
    using assms(3,5,8) by (simp add: out_room_def)
  moreover have "outputs env (n + 10) (pb_encode_ex env fuel (PB_BIND fs 0 No_callback) src flags)"
    using assms(1-4) by (intro outputs_encode) simp_all
  ultimately have "out_step (n + 10) s s'"
    using outputsD [of env "n + 10" _ s] assms(9) by fastforce
  then show ?thesis
    using assms(5-8) by (auto simp: out_step_def)
qed

lemma HighToLow_bounded: "enum_size eb \<Longrightarrow> message_bounded 2 (HighToLow_FIELDLIST eb) 340"
proof -
  assume eb: "enum_size eb"
  have "message_bounded 1 (SetPWM_FIELDLIST eb) 48"
    unfolding One_nat_def
    by (rule message_bounded.fields [where b = "\<lambda>s. 24"]) (use plain_SetPWM [OF eb] eb in
      \<open>auto simp: field_list_defs enum_size_def spec_static_def spec_total_def\<close>)
  then have "\<exists>gs m. SetPWM_msg eb = PB_BIND gs 0 No_callback \<and> message_bounded 1 gs m \<and> m \<le> 48"
    unfolding SetPWM_msg_def by blast
  moreover have "\<exists>gs m. PB_BIND [] 0 No_callback = PB_BIND gs 0 No_callback \<and> message_bounded 1 gs m \<and> m \<le> 48"
    using message_bounded.no_fields [of 1 0] by blast
  moreover have "plain_fields (HighToLow_FIELDLIST eb)"
    using union_HighToLow [of eb] by (simp add: union_fields_def)
  ultimately show ?thesis
    unfolding numeral_2_eq_2 One_nat_def
    by (intro message_bounded.fields [where b = "\<lambda>s. 68"]) (auto simp: HighToLow_FIELDLIST_def oneof_field_def
      Empty_msg_def CpuHeartbeat_msg_def spec_static_def spec_total_def)
qed

text \<open>A structure of garbage, and a buffer too small for it.\<close>

theorem encoder_memory_safe_witness:
  "same_outside 128 3 (mem (snd (run_state (pb_encode_ex sim_lib 3 (HighToLow_msg 4) 16 0) (sim_pb 3 (\<lambda>a. 1))))) (\<lambda>a. 1)"
proof -
  let ?r = "run_state (pb_encode_ex sim_lib 3 (HighToLow_msg 4) 16 0) (sim_pb 3 (\<lambda>a. 1))"
  have "bytes_written (ostr (snd ?r)) \<le> 3 \<and>
    same_outside 128 (bytes_written (ostr (snd ?r))) (mem (snd ?r)) (\<lambda>a. 1)"
    using encoder_memory_safe [OF HighToLow_bounded, of 4 3 sim_lib 16 "sim_pb 3 (\<lambda>a. 1)" 128 3 0 "fst ?r" "snd ?r"]
    by (simp add: HighToLow_msg_def enum_size_def)
  then show ?thesis by (auto simp: same_outside_def)
qed
end
