(* ===== verification/Link_Safety.thy ===== *)
theory Link_Safety
  imports Pb_Safety Link_Properties
begin

text \<open>
  Both ends of the link on arbitrary messages: what they receive changes their memory only
  in the buffer and the structure meant for it, and what cannot be decoded is dropped.
\<close>

definition apart_from :: "nat \<Rightarrow> nat \<Rightarrow> nat \<Rightarrow> nat \<Rightarrow> mem \<Rightarrow> mem \<Rightarrow> bool" where
  "apart_from p k q l m m' \<longleftrightarrow>
     (\<forall>a. (a < p \<or> p + k \<le> a) \<and> (a < q \<or> q + l \<le> a) \<longrightarrow> m' a = m a)"

lemma store_then_decode:
  assumes "message_within k fs sz" "k < n" "2 \<le> size_bits env" "p \<noteq> 0" "mem s = store q bs m"
  shows "apart_from p sz q (length bs) m (mem (snd (run_state (pb_decode env n (PB_BIND fs 0 No_callback) p) s)))"
  using confinedD [OF decode_confined(2) [OF assms(1-4)], of s] assms(5)
  by (auto simp: apart_from_def ok_step_def store_def)

lemma decode_input_any:
  assumes "fw_layout cfg"
  shows "\<exists>m ok. run_state (decode_input cfg bs) f = (ok, f\<lparr>stack := m\<rparr>) \<and>
    apart_from (input_at cfg) HighToLow_bytes (msg_buffer_at cfg) (length bs) (stack f) m"
proof -
  let ?s = "pb_on (store (msg_buffer_at cfg) bs (stack f)) PB_OSTREAM_SIZING
     (pb_istream_from_buffer (msg_buffer_at cfg) (length bs))"
  have bits: "2 \<le> size_bits (pb_lib cfg)"
    using assms by (cases "size_bits (pb_lib cfg)"; cases "size_bits (pb_lib cfg) - 1") (auto simp: fw_layout_def LowToHigh_size_def)
  let ?r = "run_state (pb_decode (pb_lib cfg) pb_fuel (HighToLow_msg (enum_bytes cfg)) (input_at cfg)) ?s"
  have "apart_from (input_at cfg) HighToLow_bytes (msg_buffer_at cfg) (length bs) (stack f) (mem (snd ?r))"
    unfolding HighToLow_msg_def
    by (rule store_then_decode [OF HighToLow_within _ bits])
      (use assms in \<open>simp_all add: fw_layout_def pb_fuel_def pb_on_def\<close>)
  then show ?thesis
    by (intro exI [of _ "mem (snd ?r)"] exI [of _ "fst ?r"]) (simp add: decode_input_def split: prod.split)
qed



text \<open>C23: The module takes any packet. Whatever bytes it reads, it goes on reading, its memory changes
  only in the message structure and the read buffer, and it does one thing: publish one event,
  or log a heartbeat, an unknown message or a corrupt packet.\<close>

theorem module_survives_any_packet:
  assumes "host_layout cfg" "run_state (os_read os MAX_RPMSG_BUFFER_SIZE) (h_os h) = (Some bs, w)" "bs \<noteq> []"
    and "run_state (receive_round os cfg) h = (continue, h')"
  shows "continue \<and> apart_from (h_in_at cfg) LowToHigh_bytes (h_in_buf_at cfg) (length bs) (h_mem h) (h_mem h') \<and>
    ((\<exists>e. h_os h' = snd (run_state (os_publish_event os e) w)) \<or>
     h_os h' = snd (run_state (os_log os ''Received heartbeat from MCU'') w) \<or>
     h_os h' = snd (run_state (os_log os ''Received unknown message via RPMsg'') w) \<or>
     h_os h' = snd (run_state (os_log os ''RPMsgLink received corrupt data packet'') w))"
proof -
  let ?s = "host_pb (store (h_in_buf_at cfg) bs (h_mem h)) PB_OSTREAM_SIZING
     (pb_istream_from_buffer (h_in_buf_at cfg) (length bs))"
  have bits: "2 \<le> size_bits (h_pb_lib cfg)"
    using assms(1) by (cases "size_bits (h_pb_lib cfg)"; cases "size_bits (h_pb_lib cfg) - 1")
      (auto simp: host_layout_def HighToLow_size_def)
  let ?r = "run_state (pb_decode (h_pb_lib cfg) host_pb_fuel (LowToHigh_msg (h_enum_bytes cfg)) (h_in_at cfg)) ?s"
  have m: "apart_from (h_in_at cfg) LowToHigh_bytes (h_in_buf_at cfg) (length bs) (h_mem h) (mem (snd ?r))"
    unfolding LowToHigh_msg_def
    by (rule store_then_decode [OF LowToHigh_within _ bits])
      (use assms(1) in \<open>simp_all add: host_layout_def host_pb_fuel_def host_pb_def\<close>)
  have d: "run_state (host_decode cfg bs) (h\<lparr>h_os := w\<rparr>) = (fst ?r, h\<lparr>h_os := w, h_mem := mem (snd ?r)\<rparr>)"
    by (simp add: host_decode_def split: prod.split)
  then show ?thesis
    using assms(2-4) m by (cases bs) (auto simp: receive_round_def handle_low_to_high_message_def Let_def split: if_splits)
qed

theorem module_survives_any_packet_witness:
  "fst (run_state (receive_round sim_os sim_host_cfg) (sim_host0 [[0x08, 0x80]]))"
proof -
  have r: "run_state (os_read sim_os MAX_RPMSG_BUFFER_SIZE) (h_os (sim_host0 [[0x08, 0x80]])) =
      (Some [0x08, 0x80], \<lparr> sh_written = [], sh_inbox = [], sh_events = [] \<rparr>)"
    by (simp add: sim_host0_def MAX_RPMSG_BUFFER_SIZE_def)
  show ?thesis
    using module_survives_any_packet [OF sim_layouts(1) r, of "fst (run_state (receive_round sim_os sim_host_cfg) (sim_host0 [[0x08, 0x80]]))"
      "snd (run_state (receive_round sim_os sim_host_cfg) (sim_host0 [[0x08, 0x80]]))"] by simp
qed

end
