(* ===== verification/Driver_Properties.thy ===== *)
theory Driver_Properties
  imports Firmware
begin

text \<open>
  The properties of the drivers: the pilot signal the firmware generates, the statistics of
  the samples it takes of it, and the tasks and interrupts that share the samples.
\<close>

section \<open>The pilot signal\<close>

lemma match_ticks_exact:
  assumes "unat (TIMER_TICKS_PER_FULL_PWM_PERIOD b) * 100 < 2 ^ 32"
  shows "unat (calculate_match_ticks b d) = (100 - min (unat d) 100) * unat (TIMER_TICKS_PER_FULL_PWM_PERIOD b) div 100"
proof -
  let ?P = "TIMER_TICKS_PER_FULL_PWM_PERIOD b"
  define e where "e = (if 100 < d then 100 else d)"
  have e: "unat e = min (unat d) 100" by (simp add: e_def word_less_nat_alt)
  then have "unat (100 - e) = 100 - min (unat d) 100" by (simp add: unat_sub word_le_nat_alt)
  moreover have "(100 - min (unat d) 100) * unat ?P < 2 ^ 32"
  proof (rule le_less_trans)
    show "(100 - min (unat d) 100) * unat ?P \<le> unat ?P * 100"
      unfolding mult.commute [of "unat ?P"] by (rule mult_le_mono1) simp
  qed (rule assms)
  ultimately have "unat ((100 - e) * ?P) = (100 - min (unat d) 100) * unat ?P"
    using unat_mult_lem [THEN iffD1, of "100 - e" ?P] by simp
  then show ?thesis
    by (simp add: calculate_match_ticks_def Let_def e_def [symmetric] unat_div)
qed

text \<open>C28: From a duty cycle in percent to timer ticks. On a board whose period fits, the match value is
  \<open>(100 - percent) * period / 100\<close>, rounded down and without overflow; percentages above 100 count as
  100; the value never exceeds the period and falls as the percentage grows.\<close>

theorem match_ticks_bounds:
  assumes "unat (TIMER_TICKS_PER_FULL_PWM_PERIOD b) * 100 < 2 ^ 32"
  shows "unat (calculate_match_ticks b d) = (100 - min (unat d) 100) * unat (TIMER_TICKS_PER_FULL_PWM_PERIOD b) div 100 \<and>
    calculate_match_ticks b d \<le> TIMER_TICKS_PER_FULL_PWM_PERIOD b \<and>
    (d \<le> d' \<longrightarrow> calculate_match_ticks b d' \<le> calculate_match_ticks b d)"
proof -
  let ?P = "TIMER_TICKS_PER_FULL_PWM_PERIOD b"
  note exact = match_ticks_exact [OF assms]
  have "(100 - min (unat d) 100) * unat ?P \<le> 100 * unat ?P" by (rule mult_le_mono1) simp
  then have "(100 - min (unat d) 100) * unat ?P div 100 \<le> unat ?P"
    using div_le_mono [of _ "100 * unat ?P" 100] by fastforce
  moreover have "d \<le> d' \<Longrightarrow> (100 - min (unat d') 100) * unat ?P div 100 \<le> (100 - min (unat d) 100) * unat ?P div 100"
    by (intro div_le_mono mult_le_mono1) (auto simp: word_le_nat_alt)
  ultimately show ?thesis
    by (simp add: word_le_nat_alt exact)
qed

theorem match_ticks_bounds_witness:
  "unat (calculate_match_ticks sim_board 5) = 23750 \<and> calculate_match_ticks sim_board 5 \<le> 25000 \<and>
   calculate_match_ticks sim_board 53 \<le> calculate_match_ticks sim_board 5"
proof -
  have P: "TIMER_TICKS_PER_FULL_PWM_PERIOD sim_board = 25000"
    by (simp add: TIMER_TICKS_PER_FULL_PWM_PERIOD_def sim_board_def PWM_FREQUENCY_HZ_def)
  show ?thesis using match_ticks_bounds [of sim_board 5 53] by (simp add: P)
qed

text \<open>C27: What \<open>set_pwm\<close> makes of the percentage. At 100 or more the timer is left without trigger and
  with the output bit set, a constant +12 V; at 0 without trigger and with the bit clear, a
  constant -12 V; in between, the match register is loaded first and the timer then toggles at
  overflow and match. No other register is written.\<close>

theorem set_pwm_levels:
  assumes "100 \<le> unat (TIMER_TICKS_PER_FULL_PWM_PERIOD b)" "unat (TIMER_TICKS_PER_FULL_PWM_PERIOD b) * 100 < 2 ^ 32"
  shows "control_pilot_set_pwm ub sdk b tclr dc =
    (let percent = duty_percent ub dc; base = pwm_timer_base b
     in if 100 \<le> percent then reg32_write sdk base TIMER_TCLR_OFFSET (tclr OR TIMER_TCLR_SCPWM_MASK)
        else if percent = 0 then reg32_write sdk base TIMER_TCLR_OFFSET tclr
        else do {
          reg32_write sdk base TIMER_TMAR_OFFSET (- calculate_match_ticks b percent);
          reg32_write sdk base TIMER_TCLR_OFFSET (tclr OR TIMER_TCLR_TRG_OVERFLOW_AND_MATCH)
        })"
proof -
  let ?P = "TIMER_TICKS_PER_FULL_PWM_PERIOD b"
  define p where "p = duty_percent ub dc"
  have exact: "unat (calculate_match_ticks b p) = (100 - min (unat p) 100) * unat ?P div 100"
    using match_ticks_exact [OF assms(2)] .
  have neg: "0xFFFFFFFF - m + 1 = - m" for m :: uint32
    by simp
  consider "100 \<le> unat p" | "unat p = 0" | "0 < unat p" "unat p < 100" by linarith
  then show ?thesis
  proof cases
    case 1
    then have "calculate_match_ticks b p = 0" using exact by (simp add: unat_eq_zero)
    then show ?thesis
      using 1 by (simp add: control_pilot_set_pwm_def Let_def p_def [symmetric] TIMER_TCLR_SCPWM_MASK_def word_le_nat_alt)
  next
    case 2
    then have "calculate_match_ticks b p = ?P" "?P \<noteq> 0" "p = 0" using exact assms(1) by (auto simp: word_unat_eq_iff)
    then show ?thesis
      by (simp add: control_pilot_set_pwm_def Let_def p_def [symmetric] word_le_nat_alt)
  next
    case 3
    have "100 \<le> (100 - unat p) * unat ?P" using 3 assms(1) mult_le_mono [of 1 "100 - unat p" 100 "unat ?P"] by simp
    moreover have "(100 - unat p) * unat ?P < unat ?P * 100" using 3 assms(1) by (simp add: mult.commute)
    ultimately have "unat (calculate_match_ticks b p) \<noteq> 0" "unat (calculate_match_ticks b p) < unat ?P"
      unfolding exact using 3 by (simp_all add: div_eq_0_iff div_less_iff_less_mult)
    then have "calculate_match_ticks b p \<noteq> 0" "\<not> ?P \<le> calculate_match_ticks b p" "\<not> 100 \<le> p" "p \<noteq> 0"
      using 3 by (auto simp: word_le_nat_alt)
    then show ?thesis
      by (simp add: control_pilot_set_pwm_def Let_def p_def [symmetric] neg)
  qed
qed

definition sim_pwm_regs :: "float32 \<Rightarrow> (uint32 \<Rightarrow> uint32)" where
  "sim_pwm_regs dc = sim_regs (snd (run_state (control_pilot_set_pwm (\<lambda>x. 0) sim_sdk sim_board 0x1041 dc) sim_init))"

theorem set_pwm_levels_witness:
  "sim_pwm_regs 0x3F000000 (pwm_timer_base sim_board + TIMER_TMAR_OFFSET) = - 12500 \<and>
   sim_pwm_regs 0x3F000000 (pwm_timer_base sim_board + TIMER_TCLR_OFFSET) = 0x1841"
proof -
  have P: "TIMER_TICKS_PER_FULL_PWM_PERIOD sim_board = 25000"
    by (simp add: TIMER_TICKS_PER_FULL_PWM_PERIOD_def sim_board_def PWM_FREQUENCY_HZ_def)
  have "duty_percent (\<lambda>x. 0) 0x3F000000 = 50" by code_simp
  moreover have "calculate_match_ticks sim_board 50 = 12500" by (simp add: calculate_match_ticks_def P)
  ultimately show ?thesis
    using set_pwm_levels [of sim_board "\<lambda>x. 0" sim_sdk "0x1041" "0x3F000000"]
    by (simp add: P sim_pwm_regs_def timer_regs TIMER_TCLR_TRG_OVERFLOW_AND_MATCH_def Let_def)
qed

lemma bit_3: "bit (3 :: uint32) k \<longleftrightarrow> k = 0 \<or> k = 1"
proof -
  have "(3 :: uint32) = mask 2" by (simp add: mask_eq_exp_minus_1)
  then show ?thesis by (simp only: bit_mask_iff) (auto simp: possible_bit_def)
qed

lemma tclr_mask_bits:
  "bit TIMER_TCLR_TRG_MASK n \<longleftrightarrow> n = 10 \<or> n = 11"
  "bit TIMER_TCLR_PT_MASK n \<longleftrightarrow> n = 12" "bit TIMER_TCLR_PT_TOGGLE n \<longleftrightarrow> n = 12"
  "bit TIMER_TCLR_GPO_CFG_MASK n \<longleftrightarrow> n = 14" "\<not> bit TIMER_TCLR_GPO_CFG_PWM n"
  "bit TIMER_TCLR_CE_MASK n \<longleftrightarrow> n = 6" "bit TIMER_TCLR_START_MASK n \<longleftrightarrow> n = 0" "bit TIMER_TCLR_SCPWM_MASK n \<longleftrightarrow> n = 7"
  "bit (push_bit 6 0x1 :: uint32) n \<longleftrightarrow> n = 6" "bit (push_bit 0 0x1 :: uint32) n \<longleftrightarrow> n = 0"
proof -
  have one: "bit (push_bit k 0x1 :: uint32) n \<longleftrightarrow> n = k" if "k < 32" for k
    unfolding bit_push_bit_iff using that by (auto simp: bit_1_iff possible_bit_def)
  have "bit (push_bit 10 0x3 :: uint32) n \<longleftrightarrow> n = 10 \<or> n = 11"
    unfolding bit_push_bit_iff bit_3 by (auto simp: possible_bit_def)
  then show "bit TIMER_TCLR_TRG_MASK n \<longleftrightarrow> n = 10 \<or> n = 11" by (simp only: TIMER_TCLR_TRG_MASK_def)
  show "bit TIMER_TCLR_PT_MASK n \<longleftrightarrow> n = 12" "bit TIMER_TCLR_PT_TOGGLE n \<longleftrightarrow> n = 12"
    "bit TIMER_TCLR_GPO_CFG_MASK n \<longleftrightarrow> n = 14" "\<not> bit TIMER_TCLR_GPO_CFG_PWM n"
    "bit TIMER_TCLR_CE_MASK n \<longleftrightarrow> n = 6" "bit TIMER_TCLR_START_MASK n \<longleftrightarrow> n = 0" "bit TIMER_TCLR_SCPWM_MASK n \<longleftrightarrow> n = 7"
    "bit (push_bit 6 0x1 :: uint32) n \<longleftrightarrow> n = 6" "bit (push_bit 0 0x1 :: uint32) n \<longleftrightarrow> n = 0"
    unfolding tclr_fields using one [of 12] one [of 14] one [of 6] one [of 0] one [of 7] by (simp_all only: push_bit_of_0) simp_all
qed

text \<open>The control word the driver starts from, bit by bit, whatever the register held: started (0),
  compare enabled (6), toggle mode (12); no constant level (7), no trigger (10, 11), output on (14);
  every other bit is as it was.\<close>

lemma default_tclr_bits:
  assumes "n < 32"
  shows "bit (default_tclr_of r) n \<longleftrightarrow>
    (if n \<in> {0, 6, 12} then True else if n \<in> {7, 10, 11, 14} then False else bit r n)"
  unfolding default_tclr_of_def Let_def bit_and_iff bit_or_iff bit_not_iff tclr_mask_bits
  using assms tclr_mask_bits(5) [of n] by (auto simp: possible_bit_def)

section \<open>The sampler's statistics\<close>

text \<open>What the sampling task makes of the bursts it has taken, oldest first: the pairs of decoded samples.\<close>

definition after_samples :: "(combined_adc_sample \<times> combined_adc_sample) list \<Rightarrow> sampler \<Rightarrow> sampler" where
  "after_samples ss o' = fold (\<lambda>(high, low). add_averages high low) ss o'"

definition latest :: "'a list \<Rightarrow> 'a list" where
  "latest vs = drop (length vs - CP_SAMPLE_SIZE) vs"

definition constructed :: "sampler \<Rightarrow> bool" where
  "constructed o' \<longleftrightarrow> cp_high_avg o' = ring_buffer_new CP_SAMPLE_MAX_DEVIATION \<and>
     cp_low_avg o' = ring_buffer_new CP_SAMPLE_MAX_DEVIATION \<and> pp_avg o' = ring_buffer_new PP_SAMPLE_MAX_DEVIATION"

lemma after_samples_buffers:
  "cp_high_avg (after_samples ss o') = rb.add_all (map (\<lambda>s. sample_cp (fst s)) ss) (cp_high_avg o')"
  "cp_low_avg (after_samples ss o') = rb.add_all (map (\<lambda>s. sample_cp (snd s)) ss) (cp_low_avg o')"
  by (induction ss arbitrary: o') (auto simp: after_samples_def rb.add_all_def add_averages_def)

lemma last_statistics:
  fixes d :: uint16
  assumes "vs \<noteq> []"
  defines "b \<equiv> rb.add_all vs (ring_buffer_new d)"
  shows "unat (rb_average b) = window_average (window b)" "unat (rb_misfits_count b) = window_misfits d (window b)"
proof -
  obtain us v where vs: "vs = us @ [v]" using assms(1) by (metis rev_exhaust)
  let ?b = "rb.add_all us (ring_buffer_new d)"
  have b: "b = ring_buffer_add_value v ?b" by (simp add: b_def vs rb.add_all_def)
  have ok: "ring_buffer_ok ?b" by (rule rb.add_all_ok [OF rb.new_ok])
  have "rb_max_deviation ?b = d"
    by (induction us rule: rev_induct) (simp_all add: rb.add_all_def rb.new_limit)
  then show "unat (rb_average b) = window_average (window b)" "unat (rb_misfits_count b) = window_misfits d (window b)"
    using rb.add_average [OF ok, of v] rb.add_misfits [OF ok, of v] by (simp_all add: b)
qed

lemma filled_after: "rb_filled (rb.add_all vs (ring_buffer_new d)) \<longleftrightarrow> CP_SAMPLE_SIZE \<le> length vs"
  using add_all_idx_filled [of vs d] by (simp add: CP_SAMPLE_SIZE_def)

text \<open>C26: The published pilot signal. After any number of bursts since the construction, publishing marks
  the signal valid exactly if at least ten bursts have been taken and, among the latest ten, at most
  one sample of the high phase and at most one of the low phase lies more than 400 counts from
  their average; the published values then are these averages, rounded down.\<close>

theorem published_signal:
  assumes "constructed o'" "raw = raw_signal (publish_raw (after_samples ss o'))"
    and "highs = latest (map (\<lambda>s. sample_cp (fst s)) ss)" "lows = latest (map (\<lambda>s. sample_cp (snd s)) ss)"
  shows "(raw_valid raw \<longleftrightarrow> CP_SAMPLE_SIZE \<le> length ss \<and>
      window_misfits CP_SAMPLE_MAX_DEVIATION highs \<le> 1 \<and> window_misfits CP_SAMPLE_MAX_DEVIATION lows \<le> 1) \<and>
    (raw_valid raw \<longrightarrow> unat (raw_high raw) = window_average highs \<and> unat (raw_low raw) = window_average lows)"
proof -
  let ?o = "after_samples ss o'" and ?h = "map (\<lambda>s. sample_cp (fst s)) ss" and ?l = "map (\<lambda>s. sample_cp (snd s)) ss"
  let ?H = "rb.add_all ?h (ring_buffer_new CP_SAMPLE_MAX_DEVIATION)" and ?L = "rb.add_all ?l (ring_buffer_new CP_SAMPLE_MAX_DEVIATION)"
  have b: "cp_high_avg ?o = ?H" "cp_low_avg ?o = ?L"
    using assms(1) by (simp_all add: after_samples_buffers constructed_def)
  show ?thesis
  proof (cases "CP_SAMPLE_SIZE \<le> length ss")
    case False
    then show ?thesis by (simp add: assms(2) publish_raw_def b filled_after)
  next
    case True
    then have ne: "?h \<noteq> []" "?l \<noteq> []" by (auto simp: CP_SAMPLE_SIZE_def)
    have w: "window ?H = highs" "window ?L = lows"
      using rb.recent_after [of ?h] rb.recent_after [of ?l] True by (simp_all add: assms(3,4) latest_def)
    have len: "highs \<noteq> []" "lows \<noteq> []"
      using True by (auto simp: assms(3,4) latest_def CP_SAMPLE_SIZE_def)
    have small: "unat (rb_average ?H) < 65536" "unat (rb_average ?L) < 65536"
      using last_statistics(1) [OF ne(1), of CP_SAMPLE_MAX_DEVIATION] last_statistics(1) [OF ne(2), of CP_SAMPLE_MAX_DEVIATION]
        window_average_less [OF len(1)] window_average_less [OF len(2)] by (simp_all add: w)
    have narrow: "unat (ucast x :: uint16) = unat x" if "unat x < 65536" for x :: uint32
      using that by (simp add: unsigned_ucast_eq take_bit_nat_eq_self)
    have one: "unat CP_SAMPLE_MAX_MISFITS = 1" by (simp add: CP_SAMPLE_MAX_MISFITS_def)
    note st = last_statistics [OF ne(1), of CP_SAMPLE_MAX_DEVIATION] last_statistics [OF ne(2), of CP_SAMPLE_MAX_DEVIATION]
    show ?thesis
      using True small st
      by (auto simp: assms(2) publish_raw_def b filled_after w word_le_nat_alt one narrow)
  qed
qed

theorem published_signal_witness:
  "raw_valid (raw_signal (publish_raw (after_samples
     (replicate 9 (\<lparr> sample_cp = 3000, sample_pp = 0 \<rparr>, \<lparr> sample_cp = 100, sample_pp = 0 \<rparr>) @
      [(\<lparr> sample_cp = 3010, sample_pp = 0 \<rparr>, \<lparr> sample_cp = 900, sample_pp = 0 \<rparr>)]) sim_sampler))) \<and>
   unat (raw_high (raw_signal (publish_raw (after_samples
     (replicate 9 (\<lparr> sample_cp = 3000, sample_pp = 0 \<rparr>, \<lparr> sample_cp = 100, sample_pp = 0 \<rparr>) @
      [(\<lparr> sample_cp = 3010, sample_pp = 0 \<rparr>, \<lparr> sample_cp = 900, sample_pp = 0 \<rparr>)]) sim_sampler)))) = 3001"
proof -
  let ?ss = "replicate 9 (\<lparr> sample_cp = 3000, sample_pp = 0 \<rparr>, \<lparr> sample_cp = 100, sample_pp = 0 \<rparr>) @
      [(\<lparr> sample_cp = 3010, sample_pp = 0 \<rparr>, \<lparr> sample_cp = 900, sample_pp = 0 \<rparr>)]"
  have c: "constructed sim_sampler" by (simp add: constructed_def sim_sampler_def)
  have w: "latest (map (\<lambda>s. sample_cp (fst s)) ?ss) = replicate 9 3000 @ [3010]"
    "latest (map (\<lambda>s. sample_cp (snd s)) ?ss) = replicate 9 100 @ [900]" "CP_SAMPLE_SIZE \<le> length ?ss"
    by (simp_all add: latest_def CP_SAMPLE_SIZE_def)
  have a: "window_average (replicate 9 3000 @ [3010]) = 3001" "window_average (replicate 9 100 @ [900]) = 180"
    by (simp_all add: window_average_def sum_list_replicate)
  have m: "window_misfits CP_SAMPLE_MAX_DEVIATION (replicate 9 3000 @ [3010]) = 0"
    "window_misfits CP_SAMPLE_MAX_DEVIATION (replicate 9 100 @ [900]) = 1"
    by (simp_all add: window_misfits_def a CP_SAMPLE_MAX_DEVIATION_def)
  show ?thesis
    using published_signal [OF c refl refl refl, of ?ss] unfolding w(1,2) by (simp only: a m w(3)) simp
qed

section \<open>The tasks and interrupts of the sampler\<close>

text \<open>C24: Nobody uses the sample buffer or the published signal at the same time, in any interleaving of
  the sampling task, the reading task, the timer interrupt and the SPI interrupt: a transfer into
  the sample buffer is in flight only while the interrupts own it, never while the task decodes it;
  and the raw signal is never read while it is being published.\<close>

theorem sampler_exclusive:
  assumes "rtos sdk sem busy" "sampler_reach sdk sem busy b t"
  shows "(busy (hw (drv t)) \<longrightarrow> write_access t) \<and>
    \<not> (write_access t \<and> buf_critical (pc t)) \<and> \<not> (raw_critical (pc t) \<and> reader t \<noteq> Reader_idle)"
  using rtos.reach_sampler_inv [OF assms] by (auto simp: sampler_invs split: if_splits)

text \<open>C25: What the sampling task decodes is complete: when it reads the two bursts, both have arrived since
  the buffer was last taken for writing, and no transfer is running.\<close>

theorem sampler_decodes_complete:
  assumes "rtos sdk sem busy" "sampler_reach sdk sem busy b t" "pc t \<in> {Decode_high, Decode_low}"
  shows "high_done (sample_of t) \<and> low_done (sample_of t) \<and> \<not> busy (hw (drv t))"
  using rtos.reach_sampler_inv [OF assms(1,2)] assms(3) by (auto simp: sampler_invs split: if_splits)

text \<open>The three averaging buffers, and that they are well formed and keep their limits.\<close>

definition rings :: "'hw tasks \<Rightarrow> ring_buffer \<times> ring_buffer \<times> ring_buffer" where
  "rings t = (cp_high_avg (smp (drv t)), cp_low_avg (smp (drv t)), pp_avg (smp (drv t)))"

definition rings_ok :: "ring_buffer \<times> ring_buffer \<times> ring_buffer \<Rightarrow> bool" where
  "rings_ok r \<longleftrightarrow> (case r of (high, low, pp) \<Rightarrow>
     ring_buffer_ok high \<and> ring_buffer_ok low \<and> ring_buffer_ok pp \<and>
     rb_max_deviation high = CP_SAMPLE_MAX_DEVIATION \<and> rb_max_deviation low = CP_SAMPLE_MAX_DEVIATION \<and>
     rb_max_deviation pp = PP_SAMPLE_MAX_DEVIATION)"

lemma trigger_rings:
  "cp_high_avg (smp (snd (run_state (trigger_adc_readout sdk h) d))) = cp_high_avg (smp d)"
  "cp_low_avg (smp (snd (run_state (trigger_adc_readout sdk h) d))) = cp_low_avg (smp d)"
  "pp_avg (smp (snd (run_state (trigger_adc_readout sdk h) d))) = pp_avg (smp d)"
  by (simp_all add: trigger_adc_readout_def start_adc_transfer_def aquire_adc_sample_write_access_def)

lemma interrupt_rings:
  "rings (on_drv (pwm_timer_isr sdk b) t) = rings t" "rings (spi_interrupt sdk w rx t) = rings t"
  "rings (reader_step sdk t) = rings t" "pc t \<noteq> Averages \<Longrightarrow> rings (loop_step sdk t) = rings t"
  by (simp_all add: rings_def on_drv_def pwm_timer_isr_def trigger_high_def trigger_low_def trigger_rings
      spi_interrupt_def adc_spi_cb_def store_burst_def release_adc_sample_write_access_def reader_step_def loop_step_def
      publish_raw_def Let_def split: option.splits burst_tbd.splits reader_pc.splits loop_pc.splits)


lemma averages_rings:
  assumes "pc t = Averages" "rings_ok (rings t)"
  shows "rings_ok (rings (loop_step sdk t))"
  using assms by (simp add: rings_ok_def rings_def on_drv_def loop_step_def add_averages_def ring_buffer_add_value_ok)

text \<open>C29: On every run of the sampler, its three averaging buffers stay well formed: ten values each, the
  write position inside, the deviation limit as constructed.\<close>

theorem sampler_buffers_well_formed:
  assumes "sampler_reach sdk sem busy b t"
  shows "rings_ok (rings t)"
  using assms
proof induction
  case (start t junk)
  then show ?case
    by (simp add: rings_def on_drv_def sampler_construct_def rings_ok_def ring_buffer_new_ok) (simp add: ring_buffer_new_def)
next
  case (step t t')
  from step(2) show ?case
  proof cases
    case (hardware w)
    then show ?thesis using step.IH by (simp add: rings_def)
  next
    case loop
    then show ?thesis using step.IH averages_rings interrupt_rings(4) [of t sdk] by (cases "pc t = Averages") simp_all
  qed (use step.IH in \<open>simp_all add: interrupt_rings(1-3)\<close>)
qed

section \<open>A run of the sampler\<close>

definition sim_tasks :: "(uint32 \<Rightarrow> uint32) \<Rightarrow> sim tasks" where
  "sim_tasks regs = on_drv (sampler_construct sim_sdk sim_sampler)
     \<lparr> drv = sim_drv\<lparr>hw := sim_init\<lparr>sim_regs := regs\<rparr>\<rparr>, pc = Wait_new, loc_high = \<lparr> sample_cp = 0, sample_pp = 0 \<rparr>,
       loc_low = \<lparr> sample_cp = 0, sample_pp = 0 \<rparr>, reader = Reader_idle, loc_signal = \<lparr> cp_valid = False, cp_high = 0, cp_low = 0 \<rparr> \<rparr>"

abbreviation sim_reach :: "sim tasks \<Rightarrow> bool" where
  "sim_reach \<equiv> sampler_reach sim_sdk sim_sems sim_busy sim_board"

lemma sim_start: "sim_reach (sim_tasks regs)"
  unfolding sim_tasks_def by (rule sampler_reach.start) simp_all

text \<open>The two halves of a burst: the timer flag is set, its interrupt starts the transfer, which completes.\<close>

definition sim_burst :: "uint32 \<Rightarrow> uint16 list \<Rightarrow> sim tasks \<Rightarrow> sim tasks" where
  "sim_burst flag rx t =
     (let w = (hw (drv t))\<lparr>sim_regs := (sim_regs (hw (drv t)))(pwm_timer_base sim_board + TIMER_IRQSTATUS_OFFSET := flag)\<rparr>;
          t = on_drv (pwm_timer_isr sim_sdk sim_board) (t\<lparr>drv := (drv t)\<lparr>hw := w\<rparr>\<rparr>)
      in spi_interrupt sim_sdk ((hw (drv t))\<lparr>sim_busy := False\<rparr>) rx t)"

lemma sim_burst_reach:
  assumes "sim_reach t" "sim_busy (hw (drv (on_drv (pwm_timer_isr sim_sdk sim_board) (t\<lparr>drv := (drv t)\<lparr>hw := (hw (drv t))\<lparr>sim_regs :=
    (sim_regs (hw (drv t)))(pwm_timer_base sim_board + TIMER_IRQSTATUS_OFFSET := flag)\<rparr>\<rparr>\<rparr>))))"
  shows "sim_reach (sim_burst flag rx t)"
  unfolding sim_burst_def Let_def
  by (rule sampler_reach.step [OF sampler_reach.step [OF sampler_reach.step [OF assms(1) sampler_step.hardware]
      sampler_step.timer_irq] sampler_step.spi_irq]) (use assms(2) in simp_all)


lemmas sim_run_defs =
  sim_burst_def sim_tasks_def on_drv_def pwm_timer_isr_def trigger_high_def trigger_low_def trigger_adc_readout_def
  start_adc_transfer_def aquire_adc_sample_write_access_def spi_interrupt_def adc_spi_cb_def store_burst_def
  release_adc_sample_write_access_def sampler_construct_def timer_regs tbd_of_def sim_board_def sim_drv_def sim_init_def
  sim_take_def sim_give_def sim_sampler_def

definition sim_sampled :: "sim tasks" where
  "sim_sampled = sim_burst TIMER_IRQSTATUS_MATCH_FLAG [0, 100, 50] (sim_burst TIMER_IRQSTATUS_OVERFLOW_FLAG [0, 3000, 50] (sim_tasks (\<lambda>r. 0)))"

lemma sim_sampled_reach: "sim_reach sim_sampled"
  unfolding sim_sampled_def
  by (intro sim_burst_reach sim_start) (simp_all add: sim_run_defs Let_def)

definition sim_decoding :: "sim tasks" where
  "sim_decoding = loop_step sim_sdk (loop_step sim_sdk sim_sampled)"

lemma sim_sampled_pc:
  "pc sim_sampled = Wait_new" "sim_sems (hw (drv sim_sampled)) New_sample_available" "sim_sems (hw (drv sim_sampled)) Sample_buf_mutex"
  "adc_sample (smp (drv sim_sampled)) = \<lparr> high_samples = [0, 3000, 50], low_samples = [0, 100, 50], tbd = LOW, high_done = True, low_done = True \<rparr>"
  by (simp_all add: sim_sampled_def sim_run_defs Let_def)

lemma sim_decoding_reach: "sim_reach sim_decoding" "pc sim_decoding = Decode_high"
proof -
  have one: "pc (loop_step sim_sdk sim_sampled) = Take_buf" "sim_sems (hw (drv (loop_step sim_sdk sim_sampled))) Sample_buf_mutex"
    using sim_sampled_pc by (simp_all add: loop_step_def on_drv_def Let_def sim_take_def)
  have "sim_reach (loop_step sim_sdk sim_sampled)"
    by (rule sampler_reach.step [OF sim_sampled_reach sampler_step.loop]) (simp add: loop_waits_def sim_sampled_pc)
  then show "sim_reach sim_decoding"
    unfolding sim_decoding_def
    by (rule sampler_reach.step [OF _ sampler_step.loop]) (simp add: loop_waits_def one)
  show "pc sim_decoding = Decode_high"
    using one by (simp add: sim_decoding_def loop_step_def on_drv_def)
qed

theorem sampler_exclusive_witness: "\<not> write_access sim_decoding \<and> \<not> sim_busy (hw (drv sim_decoding))"
  using sampler_exclusive [OF sim_rtos.rtos_axioms sim_decoding_reach(1)] sim_decoding_reach(2) by auto

theorem sampler_decodes_complete_witness: "high_done (sample_of sim_decoding) \<and> low_done (sample_of sim_decoding)"
  using sampler_decodes_complete [OF sim_rtos.rtos_axioms sim_decoding_reach(1)] sim_decoding_reach(2) by simp

theorem sampler_buffers_well_formed_witness: "rings_ok (rings sim_decoding)"
  by (rule sampler_buffers_well_formed [OF sim_decoding_reach(1)])

end
