(* ===== verification/Spec2Isabelle.thy ===== *)
theory Spec2Isabelle
  imports Fsm_Properties Firmware_Run Link_Properties Codec_Properties Pb_Utf8 Pb_Float Pb_Layout Pb_Malloc
    Pb_Output Link_Safety Driver_Properties
begin

text \<open>
  \<^bold>\<open>The program.\<close> An EV charger controller on a TI AM62x: a microcontroller core runs the
  charging state machine of IEC 61851 and drives the control pilot and the power path; Linux
  runs EVerest, whose module \<open>TiAM625SDK\<close> commands it. The two talk through shared-memory
  messages (RPMsg) in protocol-buffer encoding, encoded and decoded on both sides by the copy
  of nanopb in the repository. All paths below are under \<open>src/\<close>.

  \<^bold>\<open>The parts and how they interact.\<close> EVerest calls a handler of the module
  (\<open>board_support_ACImpl.cpp\<close>), which fills a \<open>HighToLow\<close> structure and writes its encoding to
  the endpoint. On the other core \<open>main_task\<close> (\<open>firmware/main.cpp\<close>) loops: it takes a message
  (\<open>RPMsg::get_msg\<close>), hands it to the state machine (\<open>handle_incoming_message\<close>), runs the state
  machine (\<open>FSM::run\<close>) and once a second does a chore. The state machine sees the hardware
  through five interfaces (\<open>iec61851_hal.hpp\<close>) that the drivers implement; the pilot signal it
  reads comes from the sampler, which two interrupts and a task of their own feed. Events of the
  state machine go back as \<open>LowToHigh\<close> messages, and the module publishes them.

  \<^bold>\<open>Theories that model code\<close>, in the order in which they build on each other:

  \<^item> \<open>Evse_Prelude\<close>: C++ member functions as the state monad of the library, with a
    weakest-precondition reading; facts on words and lists. \<open>Ieee_Float\<close>: \<open>float\<close> and \<open>double\<close>
    as IEEE-754 bit patterns with correctly rounded, executable arithmetic.
  \<^item> \<open>Hal\<close>: \<open>iec61851_hal.hpp\<close> as the record \<open>fsm_env\<close> of operations over a world. \<open>Countdown\<close> and
    \<open>Fsm\<close>: \<open>iec61851_fsm.cpp\<close>; the record \<open>fsm\<close> is the object, each branch of the \<open>switch\<close> of
    \<open>FSM::run\<close> is a definition, composed in \<open>fsm_run\<close>.
  \<^item> \<open>Sdk\<close>: what the firmware calls of the TI SDK and of FreeRTOS, as the record \<open>sdk\<close> over an
    abstract hardware state, and the generated board configuration as the record \<open>board\<close>.
  \<^item> \<open>Power_Switch\<close>, \<open>Control_Pilot\<close>, \<open>Ring_Buffer\<close>, \<open>Sampler\<close>: \<open>firmware/bsp_drivers\<close>, at the level of
    GPIO and timer registers. \<open>Sampler_Tasks\<close>: the sampling task, the reading task and the two
    interrupts as a step relation, with interrupts running to completion.
  \<^item> \<open>Pb_Core\<close>, \<open>Pb_Common\<close>, \<open>Pb_Encode\<close>, \<open>Pb_Decode\<close>, \<open>Pb_Decode_Message\<close>, \<open>Pb_Bind\<close>: nanopb
    (\<open>pb.h\<close>, \<open>pb_common.c\<close>, \<open>pb_encode.c\<close>, \<open>pb_decode.c\<close>) on a byte memory, with the packed
    descriptors as the generated code builds them. \<open>Pb_Layout\<close>: the macros that take offsets and
    sizes from the structures, all widths of a descriptor entry, and the structures of the link in
    the ABI's layout. \<open>Pb_Float\<close>: the conversion of floats to doubles and back. \<open>Pb_Malloc\<close>: what
    \<open>PB_ENABLE_MALLOC\<close> adds. \<open>Pb_Messages\<close>: the two generated message files.
  \<^item> \<open>Rpmsg\<close>, \<open>Main_Loop\<close>: \<open>rpmsg.cpp\<close> and \<open>main.cpp\<close>; message structures and buffers lie in the
    memory of \<open>Pb_Core\<close>, at addresses that the record \<open>fw_cfg\<close> gives. \<open>Board_Support\<close>: the module.

  \<^bold>\<open>Interfaces.\<close> Code outside the repository is a parameter; what is relied on of it is a locale,
  interpreted where a model provides it. \<open>relay_contract\<close> (\<open>Hal\<close>) is the contract of the five
  interfaces with the state machine, and \<open>recorded_contract\<close> (\<open>Fsm_Trace\<close>) the same with the calls
  recorded; \<open>firmware_board\<close> (\<open>Firmware\<close>) derives it for the drivers on any board that keeps
  \<open>gpio_pin\<close> and \<open>board_contract\<close> (\<open>Sdk\<close>). \<open>rtos\<close> (\<open>Sampler_Tasks\<close>) has the laws of the semaphores and
  of the SPI driver, \<open>averaging_window\<close> (\<open>Ring_Buffer\<close>) what the sampler needs of its buffer. \<open>Bench\<close>
  is the smallest world the state machine runs in, \<open>Sim_Board\<close> the smallest board that keeps all
  contracts, so that the hypotheses of the properties can hold together; the witnesses run on
  them.
\<close>

text \<open>
  \<^bold>\<open>What is shown.\<close>

  \<^item> The power path. \<open>Fsm_Safety\<close> and \<open>Fsm_Trace\<close> hold the lemmas on a pass of the state machine, over
    any environment that keeps the contract: what it does to the relay, and which calls it makes in
    which order. \<open>Fsm_Properties\<close> states the guarantees: an invariant of all reachable systems, when
    the path may close and must open, the six-second rule, truthful events, and that power is
    delivered when it is due. \<open>Firmware\<close> and \<open>Firmware_Run\<close> carry the invariant to the whole firmware,
    from power-up, for any messages, with a run in which the path does close.
  \<^item> The pilot. \<open>Pilot_Voltage\<close> reads the thresholds of \<open>read_cp_state\<close> as real numbers;
    \<open>Driver_Properties\<close> has the PWM levels and match values, the statistics of the samples, and the
    exclusion between tasks and interrupts in every interleaving.
  \<^item> The codec. \<open>Pb_Varint\<close>, \<open>Pb_Wire\<close>, \<open>Pb_Fields\<close>, \<open>Message_Codec\<close> and \<open>Command_Codec\<close> build up from
    integers to whole messages against reference definitions; \<open>Codec_Properties\<close>, \<open>Pb_Utf8\<close>, \<open>Pb_Float\<close>
    and \<open>Pb_Layout\<close> state the round trips and equivalences. \<open>Pb_Safety\<close> takes the decoder on arbitrary
    bytes: an operation is \<open>confined\<close> to a range of addresses, with a rule for each construct, and the
    recursion is closed by induction on the nesting of messages. \<open>Pb_Output\<close> does the same for the
    encoder on arbitrary structures, with a bound on the bytes an operation \<open>outputs\<close>.
  \<^item> The link. \<open>Message_Link\<close> and \<open>Link_Properties\<close> go from a handler of the module to the call on the
    state machine and back from an event to EVerest; \<open>Link_Safety\<close> treats messages that are not
    commands, on either side.

  \<^bold>\<open>Fuel and bounds.\<close> Loops of the code that end after a known number of rounds are recursions on
  that number: ten bytes for the 32-bit varint loop (it fails at bit 70 at the latest), eleven
  rounds for the 64-bit one (the eleventh is its error), one more than the number of fields for
  the two searches, the bytes left plus one for loops that read. The nesting of messages is
  bounded by \<open>pb_fuel\<close> and \<open>host_pb_fuel\<close>, both 3, for messages nested two deep. Using up fuel, or a
  null pointer, sets \<open>stuck\<close> or gives \<open>None\<close>; \<open>decoder_terminates\<close> shows that the decoder never does, on any
  input, and \<open>encoder_memory_safe\<close> the same of the encoder. The normalisation loop of \<open>Pb_Float\<close> is a
  partial function shown to return. The main loop runs for any number of passes, \<open>n\<close>.

  \<^bold>\<open>Conventions.\<close> Machine integers are words of their width, \<open>float\<close> a 32-bit pattern. An address is a
  natural number with 0 as NULL; \<open>size_t\<close> wraps at \<open>size_bits\<close>. Where C leaves a value undefined (a
  float out of range converted to an integer, the voltages of an invalid sample) it is a
  parameter, so that the properties hold whatever the compiler does. The size of an enumeration,
  one or four bytes, is a parameter on both sides. Logging is kept only as a call.

  \<^bold>\<open>Not modelled.\<close> \<open>entry.cpp\<close>, the start-up of the SDK and the scheduler; the boilerplate of the
  EVerest module, its parsing of configurations and its threads (the receiving thread is modelled
  as the sequence of its rounds); the dummy of the TI library, used to compile without it; the
  \<open>.syscfg\<close>, linker and make files, whose generated values are the record \<open>board\<close>; code under \<open>#if 0\<close>
  (\<open>state_to_string\<close>, \<open>checkOverCurrent\<close>). Of nanopb: the builds with \<open>PB_FIELD_32BIT\<close>,
  \<open>PB_WITHOUT_64BIT\<close>, \<open>PB_BUFFER_ONLY\<close> or \<open>PB_NO_ERRMSG\<close>; custom output streams (a stream writes to a buffer
  or only counts); with \<open>PB_ENABLE_MALLOC\<close> the functions are modelled, but the loop over a message is not
  repeated around them. Time passes only at reads of the clock, and the timing of the interrupts
  is arbitrary.
\<close>

end
